theory Spec2Isabelle
  imports Complex_Main
begin

section \<open>Numbers, vectors and bounding boxes\<close>

text \<open>
  The viewer is modelled as a state machine: the module-level variables of \<open>main.js\<close>
  form the state, and every listener and the frame callback is a function from state
  to state. What the rendering engine answers is an input of the event that asks for it:
  the ray-cast hits of a pointer event, the camera's world direction at a click, the
  clock delta of a frame, the bounding boxes and materials of the loaded asset. The
  colour operations of the engine are a parameter, \<open>eng\<close>, of every function from which
  the highlight code can be reached.

  JavaScript numbers are modelled as reals; the two infinities, which the room bounds
  hold before the asset is loaded and which an empty bounding box holds, are added by
  the type \<open>ext\<close>. NaN and rounding of arithmetic are outside the model.
\<close>

datatype ext = MInf | Fin real | PInf

fun isFinite :: "ext \<Rightarrow> bool" where
  "isFinite (Fin _) = True"
| "isFinite _ = False"

fun ext_plus :: "ext \<Rightarrow> real \<Rightarrow> ext" where
  "ext_plus (Fin a) b = Fin (a + b)"
| "ext_plus MInf b = MInf"
| "ext_plus PInf b = PInf"

datatype vec3 = Vector3 (vx: real) (vy: real) (vz: real)

definition vadd :: "vec3 \<Rightarrow> vec3 \<Rightarrow> vec3" where
  "vadd a b = Vector3 (vx a + vx b) (vy a + vy b) (vz a + vz b)"

definition vsub :: "vec3 \<Rightarrow> vec3 \<Rightarrow> vec3" where
  "vsub a b = Vector3 (vx a - vx b) (vy a - vy b) (vz a - vz b)"

definition multiplyScalar :: "vec3 \<Rightarrow> real \<Rightarrow> vec3" where
  "multiplyScalar v k = Vector3 (vx v * k) (vy v * k) (vz v * k)"

definition addScaledVector :: "vec3 \<Rightarrow> vec3 \<Rightarrow> real \<Rightarrow> vec3" where
  "addScaledVector v d k = Vector3 (vx v + vx d * k) (vy v + vy d * k) (vz v + vz d * k)"

definition lengthSq :: "vec3 \<Rightarrow> real" where
  "lengthSq v = vx v * vx v + vy v * vy v + vz v * vz v"

definition vlength :: "vec3 \<Rightarrow> real" where
  "vlength v = sqrt (lengthSq v)"

definition dot :: "vec3 \<Rightarrow> vec3 \<Rightarrow> real" where
  "dot a b = vx a * vx b + vy a * vy b + vz a * vz b"

text \<open>\<open>normalize\<close> divides by \<open>length() || 1\<close>: a zero vector stays as it is.\<close>

definition normalize_vec :: "vec3 \<Rightarrow> vec3" where
  "normalize_vec v = (let l = vlength v in multiplyScalar v (1 / (if l = 0 then 1 else l)))"

definition crossVectors :: "vec3 \<Rightarrow> vec3 \<Rightarrow> vec3" where
  "crossVectors a b =
     Vector3 (vy a * vz b - vz a * vy b) (vz a * vx b - vx a * vz b) (vx a * vy b - vy a * vx b)"

definition lerpVectors :: "vec3 \<Rightarrow> vec3 \<Rightarrow> real \<Rightarrow> vec3" where
  "lerpVectors v1 v2 alpha =
     Vector3 (vx v1 + (vx v2 - vx v1) * alpha)
             (vy v1 + (vy v2 - vy v1) * alpha)
             (vz v1 + (vz v2 - vz v1) * alpha)"

text \<open>
  A \<open>Box3\<close>. \<open>EmptyBox\<close> is the box \<open>makeEmpty\<close> leaves (minimum \<open>+Infinity\<close>, maximum
  \<open>-Infinity\<close>); \<open>isEmpty\<close> is the engine's test, a maximum below the minimum on some axis.
\<close>

datatype box3 = EmptyBox | Box3 (bmin: vec3) (bmax: vec3)

fun isEmpty :: "box3 \<Rightarrow> bool" where
  "isEmpty EmptyBox = True"
| "isEmpty (Box3 mn mx) = (vx mx < vx mn \<or> vy mx < vy mn \<or> vz mx < vz mn)"

fun union_box :: "box3 \<Rightarrow> box3 \<Rightarrow> box3" where
  "union_box EmptyBox b = b"
| "union_box a EmptyBox = a"
| "union_box (Box3 mn mx) (Box3 mn' mx') =
     Box3 (Vector3 (min (vx mn) (vx mn')) (min (vy mn) (vy mn')) (min (vz mn) (vz mn')))
          (Vector3 (max (vx mx) (vx mx')) (max (vy mx) (vy mx')) (max (vz mx) (vz mx')))"

fun translate_box :: "vec3 \<Rightarrow> box3 \<Rightarrow> box3" where
  "translate_box d EmptyBox = EmptyBox"
| "translate_box d (Box3 mn mx) = Box3 (vadd mn d) (vadd mx d)"

definition getCenter :: "box3 \<Rightarrow> vec3" where
  "getCenter b = (if isEmpty b then Vector3 0 0 0
                  else multiplyScalar (vadd (bmin b) (bmax b)) 0.5)"

definition getSize :: "box3 \<Rightarrow> vec3" where
  "getSize b = (if isEmpty b then Vector3 0 0 0 else vsub (bmax b) (bmin b))"

fun box_min_x :: "box3 \<Rightarrow> ext" where
  "box_min_x EmptyBox = PInf" | "box_min_x (Box3 mn mx) = Fin (vx mn)"
fun box_min_y :: "box3 \<Rightarrow> ext" where
  "box_min_y EmptyBox = PInf" | "box_min_y (Box3 mn mx) = Fin (vy mn)"
fun box_min_z :: "box3 \<Rightarrow> ext" where
  "box_min_z EmptyBox = PInf" | "box_min_z (Box3 mn mx) = Fin (vz mn)"
fun box_max_x :: "box3 \<Rightarrow> ext" where
  "box_max_x EmptyBox = MInf" | "box_max_x (Box3 mn mx) = Fin (vx mx)"
fun box_max_z :: "box3 \<Rightarrow> ext" where
  "box_max_z EmptyBox = MInf" | "box_max_z (Box3 mn mx) = Fin (vz mx)"

section \<open>Colours\<close>

text \<open>
  A colour as the engine holds it (\<open>THREE.Color\<close>): three floating-point channels in the
  working colour space. A hex value is a 24-bit number, eight bits for each channel.
\<close>

datatype rgb = RGB (red: real) (green: real) (blue: real)

text \<open>
  The methods of \<open>THREE.Color\<close> that the program calls. They belong to the engine, not to
  \<open>main.js\<close>, and are parameters of the model: \<open>getHex\<close> reads a colour as a hex value,
  \<open>setHex\<close> gives the colour that a hex value denotes, and \<open>offsetHSL h s l\<close> gives the
  colour shifted in hue, saturation and lightness.
\<close>

record colors =
  getHex :: "rgb \<Rightarrow> nat"
  setHex :: "nat \<Rightarrow> rgb"
  offsetHSL :: "real \<Rightarrow> real \<Rightarrow> real \<Rightarrow> rgb \<Rightarrow> rgb"

text \<open>
  These operations as three.js implements them with colour management on, its default:
  the working space is linear sRGB, and a hex value is read and written in sRGB, each
  channel rounded to eight bits. Channels are taken to be non-negative.
\<close>

definition SRGBToLinear :: "real \<Rightarrow> real" where
  "SRGBToLinear c =
     (if c < 0.04045 then c * 0.0773993808 else (c * 0.9478672986 + 0.0521327014) powr 2.4)"

definition LinearToSRGB :: "real \<Rightarrow> real" where
  "LinearToSRGB c = (if c < 0.0031308 then c * 12.92 else 1.055 * (c powr 0.41666) - 0.055)"

text \<open>\<open>Math.round(clamp(v * 255, 0, 255))\<close>.\<close>

definition channel_byte :: "real \<Rightarrow> nat" where
  "channel_byte v = nat \<lfloor>max 0 (min 255 (v * 255)) + 1 / 2\<rfloor>"

definition three_getHex :: "rgb \<Rightarrow> nat" where
  "three_getHex c =
     channel_byte (LinearToSRGB (red c)) * 65536 +
     channel_byte (LinearToSRGB (green c)) * 256 +
     channel_byte (LinearToSRGB (blue c))"

definition three_setHex :: "nat \<Rightarrow> rgb" where
  "three_setHex h =
     RGB (SRGBToLinear (real (h div 65536 mod 256) / 255))
         (SRGBToLinear (real (h div 256 mod 256) / 255))
         (SRGBToLinear (real (h mod 256) / 255))"

definition hue2rgb :: "real \<Rightarrow> real \<Rightarrow> real \<Rightarrow> real" where
  "hue2rgb p q t0 =
     (let t1 = (if t0 < 0 then t0 + 1 else t0);
          t = (if t1 > 1 then t1 - 1 else t1)
      in if t < 1 / 6 then p + (q - p) * 6 * t
         else if t < 1 / 2 then q
         else if t < 2 / 3 then p + (q - p) * 6 * (2 / 3 - t)
         else p)"

text \<open>Hue, saturation and lightness of a colour, each between 0 and 1.\<close>

definition three_getHSL :: "rgb \<Rightarrow> real \<times> real \<times> real" where
  "three_getHSL c =
     (let r = red c; g = green c; b = blue c;
          mx = max (max r g) b;
          mn = min (min r g) b;
          lightness = (mn + mx) / 2;
          delta = mx - mn
      in if mn = mx then (0, 0, lightness)
         else
           ((if mx = r then (g - b) / delta + (if g < b then 6 else 0)
             else if mx = g then (b - r) / delta + 2
             else (r - g) / delta + 4) / 6,
            (if lightness \<le> 0.5 then delta / (mx + mn) else delta / (2 - mx - mn)),
            lightness))"

definition three_setHSL :: "real \<Rightarrow> real \<Rightarrow> real \<Rightarrow> rgb" where
  "three_setHSL h0 s0 l0 =
     (let h = frac h0;
          s = max 0 (min 1 s0);
          l = max 0 (min 1 l0)
      in if s = 0 then RGB l l l
         else
           (let p = (if l \<le> 0.5 then l * (1 + s) else l + s - l * s);
                q = 2 * l - p
            in RGB (hue2rgb q p (h + 1 / 3)) (hue2rgb q p h) (hue2rgb q p (h - 1 / 3))))"

definition three_offsetHSL :: "real \<Rightarrow> real \<Rightarrow> real \<Rightarrow> rgb \<Rightarrow> rgb" where
  "three_offsetHSL h s l c =
     (case three_getHSL c of (h0, s0, l0) \<Rightarrow> three_setHSL (h0 + h) (s0 + s) (l0 + l))"

definition three :: colors where
  "three = \<lparr> getHex = three_getHex, setHex = three_setHex, offsetHSL = three_offsetHSL \<rparr>"

section \<open>Scene nodes, materials and the session state\<close>

text \<open>
  A material as the highlight code sees it: an optional emissive colour, an emissive
  intensity that is a number or not, an optional base colour. A snapshot holds what
  \<open>applyHoverHighlight\<close> saves of a material: the colours as hex values.
\<close>

record material =
  emissive :: "rgb option"
  emissiveIntensity :: "real option"
  color :: "rgb option"

record snapshot =
  saved_hasEmissive :: bool
  saved_emissiveHex :: "nat option"
  saved_emissiveIntensity :: "real option"
  saved_colorHex :: "nat option"

text \<open>
  A scene node: its identity, its name, its parent, the world box that
  \<open>Box3.setFromObject\<close> computes for it, and the meshes \<open>collectMeshesUnder\<close> finds below
  it, each mesh given by its material slots (a reference into the material store, or an
  empty slot).
\<close>

datatype obj = Obj (oid: nat) (oname: string) (oparent: "obj option") (obox: box3)
  (omeshes: "nat option list list")

record payload =
  title :: string
  html :: string

record state =
  modalOpen :: bool
  modalTitle :: string
  modalBody :: string
  openModal_calls :: "payload list"
  FLOOR_Y :: ext
  ROOM_MIN_X :: ext
  ROOM_MAX_X :: ext
  ROOM_MIN_Z :: ext
  ROOM_MAX_Z :: ext
  roomLoaded :: bool
  camera_position :: vec3
  camera_aspect :: real
  controls_target :: vec3
  yaw :: real
  pitch :: real
  dragging :: bool
  lastX :: real
  lastY :: real
  keys :: "string set"
  hoveredRoot :: "obj option"
  materials :: "nat \<Rightarrow> material"
  highlightState :: "nat \<Rightarrow> snapshot option"
  focus_active :: bool
  focus_t :: real
  focus_dur :: real
  focus_fromPos :: vec3
  focus_fromTarget :: vec3
  focus_toPos :: vec3
  focus_toTarget :: vec3
  focus_openModalOnDone :: "payload option"
  clickDownPos :: "real \<times> real"
  clickDownTime :: real

definition CLICK_PREFIX :: string where
  "CLICK_PREFIX = ''kumoclick_''"

definition EYE_HEIGHT :: real where "EYE_HEIGHT = 1.6"
definition FLOOR_PADDING :: real where "FLOOR_PADDING = 0.05"
definition WALL_PADDING :: real where "WALL_PADDING = 0.20"
definition MAX_PITCH :: real where "MAX_PITCH = pi * 0.49"
definition LOOK_DISTANCE :: real where "LOOK_DISTANCE = 1.0"
definition YAW_SENS_WHEEL :: real where "YAW_SENS_WHEEL = 0.0022"
definition WALK_SENS_WHEEL :: real where "WALK_SENS_WHEEL = 0.0025"
definition DRAG_SENS_YAW :: real where "DRAG_SENS_YAW = 0.0040"
definition DRAG_SENS_PITCH :: real where "DRAG_SENS_PITCH = 0.0040"
definition WALK_SPEED :: real where "WALK_SPEED = 1.25"
definition SPRINT_MULT :: real where "SPRINT_MULT = 2.0"
definition camera_fov :: real where "camera_fov = 60"

definition init_state :: state where
  "init_state = \<lparr>
     modalOpen = False, modalTitle = [], modalBody = [], openModal_calls = [],
     FLOOR_Y = Fin 0,
     ROOM_MIN_X = MInf, ROOM_MAX_X = PInf, ROOM_MIN_Z = MInf, ROOM_MAX_Z = PInf,
     roomLoaded = False,
     camera_position = Vector3 0 0 0, camera_aspect = 1,
     controls_target = Vector3 0 0 0,
     yaw = 0, pitch = 0,
     dragging = False, lastX = 0, lastY = 0,
     keys = {},
     hoveredRoot = None,
     materials = (\<lambda>_. \<lparr>emissive = None, emissiveIntensity = None, color = None\<rparr>),
     highlightState = (\<lambda>_. None),
     focus_active = False, focus_t = 0, focus_dur = 0.55,
     focus_fromPos = Vector3 0 0 0, focus_fromTarget = Vector3 0 0 0,
     focus_toPos = Vector3 0 0 0, focus_toTarget = Vector3 0 0 0,
     focus_openModalOnDone = None,
     clickDownPos = (0, 0), clickDownTime = 0 \<rparr>"

section \<open>Modal\<close>

definition openModal :: "payload \<Rightarrow> state \<Rightarrow> state" where
  "openModal p s = s\<lparr>
     modalTitle := (if title p = [] then ''Info'' else title p),
     modalBody := html p,
     modalOpen := True,
     openModal_calls := openModal_calls s @ [p] \<rparr>"

definition closeModal :: "state \<Rightarrow> state" where
  "closeModal s = s\<lparr>modalOpen := False\<rparr>"

section \<open>Standing height and bounds\<close>

definition clamp :: "real \<Rightarrow> real \<Rightarrow> real \<Rightarrow> real" where
  "clamp v mn mx = min mx (max mn v)"

definition boundsAreFinite :: "state \<Rightarrow> bool" where
  "boundsAreFinite s \<longleftrightarrow>
     isFinite (FLOOR_Y s) \<and>
     isFinite (ROOM_MIN_X s) \<and> isFinite (ROOM_MAX_X s) \<and>
     isFinite (ROOM_MIN_Z s) \<and> isFinite (ROOM_MAX_Z s)"

text \<open>
  \<open>lockStandingHeight\<close> adds to \<open>FLOOR_Y\<close>; on an infinite floor the sum is infinite and
  has no real value, so the model leaves the height as it is there (the frame loop calls
  it only with finite bounds).
\<close>

definition lockStandingHeight :: "state \<Rightarrow> state" where
  "lockStandingHeight s =
     (case FLOOR_Y s of
        Fin f \<Rightarrow> s\<lparr>camera_position :=
                     Vector3 (vx (camera_position s)) (f + FLOOR_PADDING + EYE_HEIGHT)
                             (vz (camera_position s))\<rparr>
      | _ \<Rightarrow> s)"

definition clampXZ :: "real \<Rightarrow> real \<Rightarrow> real \<Rightarrow> real \<Rightarrow> vec3 \<Rightarrow> vec3" where
  "clampXZ x0 x1 z0 z1 p = Vector3 (clamp (vx p) x0 x1) (vy p) (clamp (vz p) z0 z1)"

definition clampToRoomXZ :: "state \<Rightarrow> state" where
  "clampToRoomXZ s =
     (if \<not> roomLoaded s \<or> \<not> boundsAreFinite s then s
      else (case (ROOM_MIN_X s, ROOM_MAX_X s, ROOM_MIN_Z s, ROOM_MAX_Z s) of
              (Fin x0, Fin x1, Fin z0, Fin z1) \<Rightarrow>
                s\<lparr>camera_position := clampXZ x0 x1 z0 z1 (camera_position s),
                  controls_target := clampXZ x0 x1 z0 z1 (controls_target s)\<rparr>
            | _ \<Rightarrow> s))"

section \<open>Look and movement\<close>

definition getForwardXZFromYaw :: "state \<Rightarrow> vec3" where
  "getForwardXZFromYaw s = normalize_vec (Vector3 (sin (yaw s)) 0 (- cos (yaw s)))"

definition getLookDirFromYawPitch :: "state \<Rightarrow> vec3" where
  "getLookDirFromYawPitch s =
     (let cosP = cos (pitch s)
      in normalize_vec (Vector3 (sin (yaw s) * cosP) (sin (pitch s)) (- cos (yaw s) * cosP)))"

definition updateLookTargetFromYawPitch :: "state \<Rightarrow> state" where
  "updateLookTargetFromYawPitch s =
     (let dir = getLookDirFromYawPitch s
      in s\<lparr>controls_target := addScaledVector (camera_position s) dir LOOK_DISTANCE\<rparr>)"

text \<open>The first \<open>pointerdown\<close> listener: a primary-button press starts a drag.\<close>

definition pointerdown_drag :: "int \<Rightarrow> real \<Rightarrow> real \<Rightarrow> state \<Rightarrow> state" where
  "pointerdown_drag button clientX clientY s =
     (if button \<noteq> 0 then s
      else s\<lparr>dragging := True, lastX := clientX, lastY := clientY\<rparr>)"

text \<open>The first \<open>pointermove\<close> listener: drag to look.\<close>

definition pointermove_drag :: "real \<Rightarrow> real \<Rightarrow> state \<Rightarrow> state" where
  "pointermove_drag clientX clientY s =
     (if \<not> dragging s \<or> \<not> roomLoaded s \<or> focus_active s then s
      else
        (let dx = clientX - lastX s;
             dy = clientY - lastY s
         in updateLookTargetFromYawPitch
              (s\<lparr> lastX := clientX, lastY := clientY,
                  yaw := yaw s + - dx * DRAG_SENS_YAW,
                  pitch := clamp (pitch s + - dy * DRAG_SENS_PITCH) (- MAX_PITCH) MAX_PITCH \<rparr>)))"

definition endDrag :: "state \<Rightarrow> state" where
  "endDrag s = s\<lparr>dragging := False\<rparr>"

text \<open>The wheel listener: a pinch (control key held) is swallowed.\<close>

definition wheel :: "bool \<Rightarrow> real \<Rightarrow> real \<Rightarrow> state \<Rightarrow> state" where
  "wheel ctrlKey deltaX deltaY s =
     (if ctrlKey then s
      else if \<not> roomLoaded s \<or> focus_active s then s
      else
        (let s1 = s\<lparr>yaw := yaw s + - deltaX * YAW_SENS_WHEEL\<rparr>;
             stp = (- deltaY) * WALK_SENS_WHEEL
         in clampToRoomXZ (updateLookTargetFromYawPitch (lockStandingHeight
              (s1\<lparr>camera_position :=
                    addScaledVector (camera_position s1) (getForwardXZFromYaw s1) stp\<rparr>)))))"

record move_input =
  input_forward :: real
  input_back :: real
  input_left :: real
  input_right :: real
  input_sprint :: bool

definition getMoveInput :: "state \<Rightarrow> move_input" where
  "getMoveInput s = \<lparr>
     input_forward = (if ''w'' \<in> keys s \<or> ''W'' \<in> keys s \<or> ''ArrowUp'' \<in> keys s then 1 else 0),
     input_back = (if ''s'' \<in> keys s \<or> ''S'' \<in> keys s \<or> ''ArrowDown'' \<in> keys s then 1 else 0),
     input_left = (if ''a'' \<in> keys s \<or> ''A'' \<in> keys s \<or> ''ArrowLeft'' \<in> keys s then 1 else 0),
     input_right = (if ''d'' \<in> keys s \<or> ''D'' \<in> keys s \<or> ''ArrowRight'' \<in> keys s then 1 else 0),
     input_sprint = (''Shift'' \<in> keys s) \<rparr>"

text \<open>The two \<open>keydown\<close> listeners (Escape closes the modal; every key is recorded) and \<open>keyup\<close>.\<close>

definition keydown :: "string \<Rightarrow> state \<Rightarrow> state" where
  "keydown k s =
     (let s1 = (if k = ''Escape'' then closeModal s else s)
      in s1\<lparr>keys := insert k (keys s1)\<rparr>)"

definition keyup :: "string \<Rightarrow> state \<Rightarrow> state" where
  "keyup k s = s\<lparr>keys := keys s - {k}\<rparr>"

section \<open>Clickable roots and the hover highlight\<close>

definition toLowerCase_char :: "char \<Rightarrow> char" where
  "toLowerCase_char c =
     (let n = (of_char c :: nat) in if 65 \<le> n \<and> n \<le> 90 then char_of (n + 32) else c)"

definition toLowerCase :: "string \<Rightarrow> string" where
  "toLowerCase str = map toLowerCase_char str"

definition startsWith :: "string \<Rightarrow> string \<Rightarrow> bool" where
  "startsWith str p \<longleftrightarrow> take (length p) str = p"

definition isClickableName :: "string \<Rightarrow> bool" where
  "isClickableName name \<longleftrightarrow> startsWith (toLowerCase name) CLICK_PREFIX"

fun findClickableRoot :: "obj \<Rightarrow> obj option" where
  "findClickableRoot (Obj i n p b ms) =
     (if isClickableName n then Some (Obj i n p b ms)
      else (case p of None \<Rightarrow> None | Some cur \<Rightarrow> findClickableRoot cur))"

text \<open>
  The snapshot that is saved the first time a material is highlighted. The two colours
  are saved as the hex values that \<open>getHex\<close> reads.
\<close>

definition snapshot_of :: "colors \<Rightarrow> material \<Rightarrow> snapshot" where
  "snapshot_of eng mat = \<lparr>
     saved_hasEmissive = (emissive mat \<noteq> None),
     saved_emissiveHex = map_option (getHex eng) (emissive mat),
     saved_emissiveIntensity = emissiveIntensity mat,
     saved_colorHex = map_option (getHex eng) (color mat) \<rparr>"

text \<open>
  The enabling branch: the emissive colour is set from the hex value \<open>0x2a7fff\<close>, or else
  the base colour is brightened by \<open>offsetHSL(0, 0, 0.15)\<close>. The render flag
  \<open>needsUpdate\<close> is not part of the state.
\<close>

definition highlight_on :: "colors \<Rightarrow> material \<Rightarrow> material" where
  "highlight_on eng mat =
     (case emissive mat of
        Some _ \<Rightarrow> mat\<lparr>emissive := Some (setHex eng 0x2a7fff), emissiveIntensity := Some 0.9\<rparr>
      | None \<Rightarrow> (case color mat of
                   Some c \<Rightarrow> mat\<lparr>color := Some (offsetHSL eng 0 0 0.15 c)\<rparr>
                 | None \<Rightarrow> mat))"

text \<open>
  The restoring branch, for a material that has a snapshot: the colours are set from
  the saved hex values.
\<close>

definition highlight_off :: "colors \<Rightarrow> snapshot \<Rightarrow> material \<Rightarrow> material" where
  "highlight_off eng saved mat =
     (if saved_hasEmissive saved \<and> emissive mat \<noteq> None then
        (let m1 = mat\<lparr>emissive :=
                      Some (setHex eng (case saved_emissiveHex saved of
                                          Some h \<Rightarrow> h | None \<Rightarrow> 0x000000))\<rparr>
         in (case saved_emissiveIntensity saved of
               Some i \<Rightarrow> m1\<lparr>emissiveIntensity := Some i\<rparr>
             | None \<Rightarrow> m1))
      else if color mat \<noteq> None then
        (case saved_colorHex saved of
           Some h \<Rightarrow> mat\<lparr>color := Some (setHex eng h)\<rparr>
         | None \<Rightarrow> mat)
      else mat)"

type_synonym mat_store = "(nat \<Rightarrow> material) \<times> (nat \<Rightarrow> snapshot option)"

text \<open>The body of the inner loop of \<open>applyHoverHighlight\<close>, for one material slot.\<close>

definition highlight_slot :: "colors \<Rightarrow> bool \<Rightarrow> nat option \<Rightarrow> mat_store \<Rightarrow> mat_store" where
  "highlight_slot eng on slot st =
     (case slot of
        None \<Rightarrow> st
      | Some k \<Rightarrow>
          (let ms = fst st;
               hs = snd st;
               hs1 = (if on \<and> hs k = None then hs(k := Some (snapshot_of eng (ms k))) else hs)
           in if on then (ms(k := highlight_on eng (ms k)), hs1)
              else (case hs1 k of
                      None \<Rightarrow> (ms, hs1)
                    | Some saved \<Rightarrow> (ms(k := highlight_off eng saved (ms k)), hs1))))"

definition highlight_meshes ::
  "colors \<Rightarrow> bool \<Rightarrow> nat option list list \<Rightarrow> mat_store \<Rightarrow> mat_store" where
  "highlight_meshes eng on meshes st =
     fold (\<lambda>mesh acc. fold (highlight_slot eng on) mesh acc) meshes st"

definition applyHoverHighlight :: "colors \<Rightarrow> obj option \<Rightarrow> bool \<Rightarrow> state \<Rightarrow> state" where
  "applyHoverHighlight eng rootObj on s =
     (case rootObj of
        None \<Rightarrow> s
      | Some r \<Rightarrow>
          (let st = highlight_meshes eng on (omeshes r) (materials s, highlightState s)
           in s\<lparr>materials := fst st, highlightState := snd st\<rparr>))"

definition setHoveredRoot :: "colors \<Rightarrow> obj option \<Rightarrow> state \<Rightarrow> state" where
  "setHoveredRoot eng newRoot s =
     (if newRoot = hoveredRoot s then s
      else
        (let s1 = (if hoveredRoot s \<noteq> None
                   then applyHoverHighlight eng (hoveredRoot s) False s else s);
             s2 = s1\<lparr>hoveredRoot := newRoot\<rparr>
         in if hoveredRoot s2 \<noteq> None
            then applyHoverHighlight eng (hoveredRoot s2) True s2 else s2))"

text \<open>
  The second \<open>pointermove\<close> listener: hover. \<open>hits\<close> is the engine's answer to the ray cast
  at the pointer position, nearest hit first.
\<close>

definition pointermove_hover :: "colors \<Rightarrow> obj list \<Rightarrow> state \<Rightarrow> state" where
  "pointermove_hover eng hits s =
     (if \<not> roomLoaded s \<or> focus_active s then s
      else (case hits of
              [] \<Rightarrow> setHoveredRoot eng None s
            | hit # _ \<Rightarrow> setHoveredRoot eng (findClickableRoot hit) s))"

section \<open>Smooth focus\<close>

definition easeInOutCubic :: "real \<Rightarrow> real" where
  "easeInOutCubic x = (if x < 0.5 then 4 * x * x * x else 1 - (- 2 * x + 2) ^ 3 / 2)"

definition degToRad :: "real \<Rightarrow> real" where
  "degToRad degrees = degrees * (pi / 180)"

record fit =
  desiredPos :: vec3
  desiredTarget :: vec3
  fit_center :: vec3
  fit_box :: box3
  fit_size :: vec3

text \<open>
  \<open>worldDirection\<close> is what the engine's \<open>camera.getWorldDirection\<close> reports when the
  function runs. The canvas is taken to have a positive finite aspect ratio (a division
  by zero is infinite in JavaScript and zero here).
\<close>

definition fitCameraToObject :: "vec3 \<Rightarrow> obj \<Rightarrow> state \<Rightarrow> fit option" where
  "fitCameraToObject worldDirection rootObj s =
     (let bx = obox rootObj
      in if isEmpty bx then None
         else
           (let cen = getCenter bx;
                sz = getSize bx;
                halfSizeY = vy sz * 0.5;
                halfSizeX = vx sz * 0.5;
                halfSizeZ = vz sz * 0.5;
                maxHalf = max (max halfSizeX halfSizeY) halfSizeZ;
                radius = maxHalf * 1.15;
                fov = degToRad camera_fov;
                aspect = camera_aspect s;
                distV = radius / sin (fov / 2);
                fovH = 2 * arctan (tan (fov / 2) * aspect);
                distH = radius / sin (fovH / 2);
                dist = max distV distH;
                viewDir = normalize_vec worldDirection
            in Some \<lparr> desiredPos = addScaledVector cen viewDir (- dist),
                       desiredTarget = cen,
                       fit_center = cen, fit_box = bx, fit_size = sz \<rparr>))"

definition startFocus ::
  "colors \<Rightarrow> vec3 \<Rightarrow> obj \<Rightarrow> payload option \<Rightarrow> state \<Rightarrow> state" where
  "startFocus eng worldDirection rootObj modalPayload s =
     (case fitCameraToObject worldDirection rootObj s of
        None \<Rightarrow> s
      | Some ft \<Rightarrow>
          setHoveredRoot eng None
            (s\<lparr> focus_active := True,
                focus_t := 0,
                focus_fromPos := camera_position s,
                focus_fromTarget := controls_target s,
                focus_toPos := desiredPos ft,
                focus_toTarget := desiredTarget ft,
                focus_openModalOnDone := modalPayload \<rparr>))"

section \<open>Click detection\<close>

definition replaceAll :: "char \<Rightarrow> string \<Rightarrow> string \<Rightarrow> string" where
  "replaceAll c r str = concat (map (\<lambda>x. if x = c then r else [x]) str)"

definition escapeHtml :: "string \<Rightarrow> string" where
  "escapeHtml str =
     replaceAll (CHR 0x27) ''&#039;''
       (replaceAll (CHR 0x22) ''&quot;''
         (replaceAll (CHR ''>'') ''&gt;''
           (replaceAll (CHR ''<'') ''&lt;''
             (replaceAll (CHR ''&'') ''&amp;'' str))))"

definition hypot :: "real \<Rightarrow> real \<Rightarrow> real" where
  "hypot a b = sqrt (a * a + b * b)"

text \<open>The second \<open>pointerdown\<close> listener: record where and when the press happened.\<close>

definition pointerdown_click :: "int \<Rightarrow> real \<Rightarrow> real \<Rightarrow> real \<Rightarrow> state \<Rightarrow> state" where
  "pointerdown_click button clientX clientY now s =
     (if button \<noteq> 0 then s
      else s\<lparr>clickDownPos := (clientX, clientY), clickDownTime := now\<rparr>)"

definition click_payload :: "obj \<Rightarrow> payload" where
  "click_payload rootObj =
     (let slug = drop (length CLICK_PREFIX) (oname rootObj)
      in \<lparr> title = (if slug = [] then ''Object'' else slug),
           html =
             CHR 0x0A # ''      <p><b>Clicked:</b> <code>'' @ escapeHtml (oname rootObj) @
               ''</code></p>'' @
             CHR 0x0A # ''      <p><b>Slug:</b> <code>'' @ escapeHtml slug @ ''</code></p>'' @
             CHR 0x0A # ''      <p>This is placeholder content. Later you can fetch WordPress content by slug.</p>'' @
             CHR 0x0A # ''      <p><code>/wp-json/...</code> using slug <code>'' @ escapeHtml slug @
               ''</code></p>'' @
             CHR 0x0A # ''    '' \<rparr>)"

text \<open>
  The second \<open>pointerup\<close> listener: click resolution. \<open>now\<close> is \<open>performance.now()\<close>,
  \<open>hits\<close> the ray cast at the release position, \<open>worldDirection\<close> the camera's direction.
\<close>

definition pointerup_click ::
  "colors \<Rightarrow> int \<Rightarrow> real \<Rightarrow> real \<Rightarrow> real \<Rightarrow> obj list \<Rightarrow> vec3 \<Rightarrow> state \<Rightarrow> state" where
  "pointerup_click eng button clientX clientY now hits worldDirection s =
     (if button \<noteq> 0 then s
      else if \<not> roomLoaded s \<or> focus_active s then s
      else if modalOpen s then s
      else
        (let dist = hypot (clientX - fst (clickDownPos s)) (clientY - snd (clickDownPos s));
             dt = now - clickDownTime s
         in if dist > 6 \<or> dt > 450 then s
            else (case hits of
                    [] \<Rightarrow> s
                  | hit # _ \<Rightarrow>
                      (case findClickableRoot hit of
                         None \<Rightarrow> s
                       | Some rootObj \<Rightarrow>
                           startFocus eng worldDirection rootObj
                             (Some (click_payload rootObj)) s))))"

section \<open>Loading the room\<close>

text \<open>
  What the loaded asset contributes: the box \<open>Box3.setFromObject\<close> gives for the whole
  room, the world boxes of its meshes (for the fallback union), and its materials.
\<close>

record gltf =
  room_box :: box3
  room_meshBoxes :: "box3 list"
  room_materials :: "nat \<Rightarrow> material"

definition computeBoundsRobust :: "gltf \<Rightarrow> box3" where
  "computeBoundsRobust room =
     (let bx = room_box room
      in if \<not> isEmpty bx then bx
         else fold (\<lambda>temp fallback. union_box fallback temp) (room_meshBoxes room) EmptyBox)"

text \<open>\<open>room.position.sub(preCenter)\<close>: the room and all its geometry move by \<open>-preCenter\<close>.\<close>

definition position_sub :: "vec3 \<Rightarrow> gltf \<Rightarrow> gltf" where
  "position_sub d room =
     room\<lparr> room_box := translate_box (multiplyScalar d (-1)) (room_box room),
           room_meshBoxes := map (translate_box (multiplyScalar d (-1))) (room_meshBoxes room) \<rparr>"

text \<open>
  The loader's success callback, which runs once. The start height is
  \<open>FLOOR_Y + FLOOR_PADDING + EYE_HEIGHT\<close>; as in \<open>lockStandingHeight\<close>, an infinite floor
  leaves the height as it is. The clickable meshes that the callback collects for the
  ray caster show up in the model as the hits of the pointer events.
\<close>

definition onLoad :: "gltf \<Rightarrow> state \<Rightarrow> state" where
  "onLoad g s =
     (let s0 = s\<lparr>materials := room_materials g\<rparr>;
          preBox = computeBoundsRobust g
      in if isEmpty preBox then s0
         else
           (let preCenter = getCenter preBox;
                room = position_sub preCenter g;
                bx = computeBoundsRobust room;
                s1 = s0\<lparr> FLOOR_Y := box_min_y bx,
                         ROOM_MIN_X := ext_plus (box_min_x bx) WALL_PADDING,
                         ROOM_MAX_X := ext_plus (box_max_x bx) (- WALL_PADDING),
                         ROOM_MIN_Z := ext_plus (box_min_z bx) WALL_PADDING,
                         ROOM_MAX_Z := ext_plus (box_max_z bx) (- WALL_PADDING) \<rparr>;
                s2 = s1\<lparr>yaw := 0, pitch := 0\<rparr>;
                s3 = lockStandingHeight (s2\<lparr>camera_position :=
                                               Vector3 0 (vy (camera_position s2)) 0.8\<rparr>);
                s4 = updateLookTargetFromYawPitch s3;
                s5 = s4\<lparr>roomLoaded := True\<rparr>
            in clampToRoomXZ (lockStandingHeight s5)))"

definition resize :: "real \<Rightarrow> real \<Rightarrow> state \<Rightarrow> state" where
  "resize w h s = s\<lparr>camera_aspect := w / h\<rparr>"

section \<open>The frame loop\<close>

text \<open>The \<open>move\<close> vector of the keyboard-walk branch, for a frame of capped length \<open>dt\<close>.\<close>

definition walk_move :: "real \<Rightarrow> state \<Rightarrow> vec3" where
  "walk_move dt s =
     (let input = getMoveInput s;
          moveZ = input_forward input - input_back input;
          moveX = input_right input - input_left input;
          dirForward = getForwardXZFromYaw s;
          dirRight = normalize_vec (crossVectors dirForward (Vector3 0 1 0));
          speed = WALK_SPEED * (if input_sprint input then SPRINT_MULT else 1);
          move = Vector3 0 0 0;
          move1 = addScaledVector move dirForward (moveZ * speed * dt)
      in addScaledVector move1 dirRight (moveX * speed * dt))"

text \<open>
  One call of \<open>animate\<close>; \<open>delta\<close> is \<open>clock.getDelta()\<close>. \<open>controls.update()\<close> and the
  rendering belong to the engine and leave the modelled state alone.
\<close>

definition animate :: "real \<Rightarrow> state \<Rightarrow> state" where
  "animate delta s =
     (let dt = min delta 0.05
      in if roomLoaded s \<and> boundsAreFinite s then
           (if focus_active s then
              (let t = focus_t s + dt / focus_dur s;
                   a = easeInOutCubic (min 1 t);
                   s1 = clampToRoomXZ
                          (s\<lparr> focus_t := t,
                              camera_position := lerpVectors (focus_fromPos s) (focus_toPos s) a,
                              controls_target :=
                                lerpVectors (focus_fromTarget s) (focus_toTarget s) a \<rparr>)
               in if t \<ge> 1 then
                    (let s2 = s1\<lparr>focus_active := False\<rparr>
                     in (case focus_openModalOnDone s of
                           Some p \<Rightarrow> openModal p s2
                         | None \<Rightarrow> s2))
                  else s1)
            else
              (let input = getMoveInput s;
                   moveZ = input_forward input - input_back input;
                   moveX = input_right input - input_left input;
                   s1 = (if moveZ \<noteq> 0 \<or> moveX \<noteq> 0
                         then s\<lparr>camera_position := vadd (camera_position s) (walk_move dt s)\<rparr>
                         else s)
               in clampToRoomXZ (updateLookTargetFromYawPitch (lockStandingHeight s1))))
         else s)"

section \<open>Events\<close>

text \<open>
  The events of a session after loading: button, position and time of a press; position
  and hits of a pointer move; button, position, time, hits and camera direction of a
  release; control key and deltas of a wheel event; the key of a key event; a close
  gesture on the modal; the canvas size of a resize; the clock delta of a frame.
\<close>

datatype event =
    PointerDown int real real real
  | PointerMove real real "obj list"
  | PointerUp int real real real "obj list" vec3
  | PointerCancel
  | Wheel bool real real
  | KeyDown string
  | KeyUp string
  | ModalClose
  | Resize real real
  | Frame real

text \<open>Each event runs its listeners in the order in which the source registers them.\<close>

fun step :: "colors \<Rightarrow> state \<Rightarrow> event \<Rightarrow> state" where
  "step eng s (PointerDown button x y now) =
     pointerdown_click button x y now (pointerdown_drag button x y s)"
| "step eng s (PointerMove x y hits) =
     pointermove_hover eng hits (pointermove_drag x y s)"
| "step eng s (PointerUp button x y now hits worldDirection) =
     pointerup_click eng button x y now hits worldDirection (endDrag s)"
| "step eng s PointerCancel = endDrag s"
| "step eng s (Wheel ctrlKey deltaX deltaY) = wheel ctrlKey deltaX deltaY s"
| "step eng s (KeyDown k) = keydown k s"
| "step eng s (KeyUp k) = keyup k s"
| "step eng s ModalClose = closeModal s"
| "step eng s (Resize w h) = resize w h s"
| "step eng s (Frame delta) = animate delta s"

definition run :: "colors \<Rightarrow> state \<Rightarrow> event list \<Rightarrow> state" where
  "run eng s evs = foldl (step eng) s evs"

definition run_frames :: "real list \<Rightarrow> state \<Rightarrow> state" where
  "run_frames deltas s = foldl (\<lambda>st delta. animate delta st) s deltas"

section \<open>The stated invariant of the room bounds\<close>

fun ext_le :: "ext \<Rightarrow> ext \<Rightarrow> bool" where
  "ext_le MInf _ = True"
| "ext_le _ PInf = True"
| "ext_le (Fin a) (Fin b) = (a \<le> b)"
| "ext_le _ _ = False"

definition bounds_of :: "state \<Rightarrow> ext \<times> ext \<times> ext \<times> ext \<times> ext" where
  "bounds_of s = (FLOOR_Y s, ROOM_MIN_X s, ROOM_MAX_X s, ROOM_MIN_Z s, ROOM_MAX_Z s)"

definition bounds_invariant :: "state \<Rightarrow> bool" where
  "bounds_invariant s \<longleftrightarrow>
     boundsAreFinite s \<and>
     ext_le (ROOM_MIN_X s) (ROOM_MAX_X s) \<and> ext_le (ROOM_MIN_Z s) (ROOM_MAX_Z s)"

definition static :: "state \<Rightarrow> (ext \<times> ext \<times> ext \<times> ext \<times> ext) \<times> bool" where
  "static s = (bounds_of s, roomLoaded s)"

text \<open>The speed and the two input axes of the keyboard-walk branch, as \<open>animate\<close> computes them.\<close>

definition walk_speed :: "state \<Rightarrow> real" where
  "walk_speed s = WALK_SPEED * (if input_sprint (getMoveInput s) then SPRINT_MULT else 1)"

definition moveZ :: "state \<Rightarrow> real" where
  "moveZ s = input_forward (getMoveInput s) - input_back (getMoveInput s)"

definition moveX :: "state \<Rightarrow> real" where
  "moveX s = input_right (getMoveInput s) - input_left (getMoveInput s)"

definition dirRight :: "state \<Rightarrow> vec3" where
  "dirRight s = normalize_vec (crossVectors (getForwardXZFromYaw s) (Vector3 0 1 0))"

text \<open>The time that a list of frames feeds to the update: the sum of the capped deltas.\<close>

definition ticks :: "real list \<Rightarrow> real" where
  "ticks deltas = sum_list (map (\<lambda>d. min d 0.05) deltas)"

section \<open>Vocabulary for the highlight properties\<close>

text \<open>The materials that some mesh under a root references.\<close>

fun refs :: "obj option \<Rightarrow> nat set" where
  "refs None = {}"
| "refs (Some r) = {k. Some k \<in> set (concat (omeshes r))}"

text \<open>A sequence of \<open>setHoveredRoot\<close> calls.\<close>

definition hover_seq :: "colors \<Rightarrow> obj option list \<Rightarrow> state \<Rightarrow> state" where
  "hover_seq eng ys s = foldl (\<lambda>st y. setHoveredRoot eng y st) s ys"

text \<open>
  What one pass of the inner loop of \<open>applyHoverHighlight\<close> does to the material in a
  slot and to its snapshot.
\<close>

definition slot_effect ::
  "colors \<Rightarrow> bool \<Rightarrow> material \<times> snapshot option \<Rightarrow> material \<times> snapshot option" where
  "slot_effect eng on c =
     (let h1 = (if on \<and> snd c = None then Some (snapshot_of eng (fst c)) else snd c)
      in if on then (highlight_on eng (fst c), h1)
         else (case h1 of
                 None \<Rightarrow> (fst c, h1)
               | Some saved \<Rightarrow> (highlight_off eng saved (fst c), h1)))"

text \<open>The colour that a colour becomes when it is read as a hex value and set from it.\<close>

definition requantized :: "colors \<Rightarrow> rgb \<Rightarrow> rgb" where
  "requantized eng c = setHex eng (getHex eng c)"

text \<open>
  What the restoring pass makes of a highlighted material whose original is \<open>orig\<close>: with
  an emissive colour, that colour read back from its hex value and the original
  intensity (0.9 when the original intensity was not a number); without one, the base
  colour read back from its hex value.
\<close>

definition restored :: "colors \<Rightarrow> material \<Rightarrow> material" where
  "restored eng orig =
     (case emissive orig of
        Some e \<Rightarrow>
          orig\<lparr>emissive := Some (requantized eng e),
               emissiveIntensity :=
                 Some (case emissiveIntensity orig of Some i \<Rightarrow> i | None \<Rightarrow> 0.9)\<rparr>
      | None \<Rightarrow> orig\<lparr>color := map_option (requantized eng) (color orig)\<rparr>)"

text \<open>
  A material \<open>mat\<close> shows no highlight relative to its original \<open>orig\<close>: it is the original,
  or what the restoring pass makes of it.
\<close>

definition unlit :: "colors \<Rightarrow> material \<Rightarrow> material \<Rightarrow> bool" where
  "unlit eng orig mat \<longleftrightarrow> mat = orig \<or> mat = restored eng orig"

text \<open>
  A material shows the highlight after \<open>n\<close> enabling passes: the emissive colour of the
  hex value \<open>0x2a7fff\<close> and the intensity 0.9 when the original has an emissive colour,
  else the base colour (of the original, or read back from its hex value by an earlier
  restoring pass) brightened \<open>n\<close> times.
\<close>

definition lit :: "colors \<Rightarrow> nat \<Rightarrow> material \<Rightarrow> material \<Rightarrow> bool" where
  "lit eng n orig mat \<longleftrightarrow>
     (case emissive orig of
        Some _ \<Rightarrow>
          mat = orig\<lparr>emissive := Some (setHex eng 0x2a7fff), emissiveIntensity := Some 0.9\<rparr>
      | None \<Rightarrow>
          mat = orig\<lparr>color := map_option (offsetHSL eng 0 0 0.15 ^^ n) (color orig)\<rparr> \<or>
          mat = orig\<lparr>color := map_option (\<lambda>c. (offsetHSL eng 0 0 0.15 ^^ n) (requantized eng c))
                                   (color orig)\<rparr>)"

fun count_of :: "obj option \<Rightarrow> nat \<Rightarrow> nat" where
  "count_of None k = 0"
| "count_of (Some r) k = count_list (concat (omeshes r)) (Some k)"

text \<open>
  The hover invariant relative to the original materials: every snapshot is the
  original's, exactly the materials under the hovered root show the highlight, and all
  the others show none; a material that was never highlighted is the original.
\<close>

definition hover_inv :: "colors \<Rightarrow> (nat \<Rightarrow> material) \<Rightarrow> state \<Rightarrow> bool" where
  "hover_inv eng orig s \<longleftrightarrow>
     (\<forall>k. (highlightState s k = None \<or> highlightState s k = Some (snapshot_of eng (orig k))) \<and>
          (k \<in> refs (hoveredRoot s) \<longrightarrow>
             highlightState s k \<noteq> None \<and>
             lit eng (count_of (hoveredRoot s) k) (orig k) (materials s k)) \<and>
          (k \<notin> refs (hoveredRoot s) \<longrightarrow>
             unlit eng (orig k) (materials s k) \<and>
             (highlightState s k = None \<longrightarrow> materials s k = orig k)))"
section \<open>Example scenes\<close>

text \<open>Concrete states and inputs on which the theorems below are exercised.\<close>

definition room10 :: state where
  "room10 = init_state\<lparr> FLOOR_Y := Fin 0, ROOM_MIN_X := Fin (-5), ROOM_MAX_X := Fin 5,
      ROOM_MIN_Z := Fin (-5), ROOM_MAX_Z := Fin 5, roomLoaded := True,
      camera_position := Vector3 6 1.65 0 \<rparr>"

definition ghost_root :: obj where
  "ghost_root = Obj 7 ''kumoclick_ghost'' None EmptyBox [[Some 0]]"

definition door_root :: obj where
  "door_root = Obj 1 ''kumoclick_door'' None (Box3 (Vector3 4.8 0 (-0.5)) (Vector3 5 2 0.5)) [[Some 0]]"

definition door_mesh :: obj where
  "door_mesh = Obj 2 ''DoorPanel'' (Some door_root)
     (Box3 (Vector3 4.8 0 (-0.5)) (Vector3 5 2 0.5)) [[Some 0]]"

text \<open>A loaded room in the middle of a focus transition, with a hovered door and held keys.\<close>

definition focusing_room :: state where
  "focusing_room = room10\<lparr> camera_position := Vector3 0 1.65 0, yaw := 0.3, pitch := 0.1,
      hoveredRoot := Some door_root, dragging := True, keys := {''w''},
      focus_active := True, focus_t := 0.5,
      focus_toPos := Vector3 3 1 0, focus_toTarget := Vector3 4.9 1 0 \<rparr>"

text \<open>A room 20 cm wide: narrower than twice the wall padding.\<close>

definition narrow_room :: gltf where
  "narrow_room = \<lparr> room_box = Box3 (Vector3 0 0 0) (Vector3 0.2 3 5),
                    room_meshBoxes = [Box3 (Vector3 0 0 0) (Vector3 0.2 3 5)],
                    room_materials = (\<lambda>_. \<lparr>emissive = None, emissiveIntensity = None, color = None\<rparr>) \<rparr>"

text \<open>A room of 10 by 3 by 10 metres whose box the fast path misses.\<close>

definition wide_room :: gltf where
  "wide_room = \<lparr> room_box = EmptyBox,
                  room_meshBoxes = [Box3 (Vector3 0 0 0) (Vector3 10 3 4),
                                    Box3 (Vector3 2 0 4) (Vector3 10 1 10)],
                  room_materials = (\<lambda>_. \<lparr>emissive = Some (RGB 0 0 0), emissiveIntensity = Some 1,
                                           color = Some (RGB 1 1 1)\<rparr>) \<rparr>"

text \<open>A loaded, idle room with the camera in the middle: W held, and W and D held.\<close>

definition walk_fwd :: state where
  "walk_fwd = room10\<lparr>camera_position := Vector3 0 1.65 0, keys := {''w''}\<rparr>"

definition walk_diag :: state where
  "walk_diag = room10\<lparr>camera_position := Vector3 0 1.65 0, keys := {''w'', ''d''}\<rparr>"

text \<open>
  A poster on the wall at \<open>x = 5.175\<close>, outside the walkable rectangle of \<open>room10\<close>.
\<close>

definition poster_root :: obj where
  "poster_root = Obj 3 ''kumoclick_poster'' None
     (Box3 (Vector3 5.15 1 (-0.5)) (Vector3 5.2 2 0.5)) [[Some 1]]"

text \<open>
  A loaded, idle room with the camera in the middle, looking along \<open>+x\<close>, towards the
  door.
\<close>

definition idle_room :: state where
  "idle_room = room10\<lparr>camera_position := Vector3 0 1.65 0,
                       controls_target := Vector3 1 1.65 0, yaw := pi / 2\<rparr>"

text \<open>
  The same room with the camera at the wall \<open>x = 5\<close>, three metres from the poster and
  looking along \<open>-z\<close>: the poster is in view, a little to the right of the centre.
\<close>

definition wall_view :: state where
  "wall_view = room10\<lparr>camera_position := Vector3 5 1.65 3,
                       controls_target := Vector3 5 1.65 2\<rparr>"

text \<open>
  Frames of a transition of 0.55 s: ten frames of 50 ms and one of 30 ms (0.53 s), then a
  stall of 200 ms, which counts for 50 ms, then two more frames.
\<close>

definition frames_before :: "real list" where
  "frames_before = [0.05, 0.05, 0.05, 0.05, 0.05, 0.05, 0.05, 0.05, 0.05, 0.05, 0.03]"

definition click_at :: "obj \<Rightarrow> vec3 \<Rightarrow> state \<Rightarrow> state" where
  "click_at hit worldDirection s =
     step three (step three s (PointerDown 0 100 100 1000))
       (PointerUp 0 100 100 (1000 + 50) [hit] worldDirection)"

text \<open>
  A room whose material number 0 has a black emissive colour and a numeric intensity
  (what a standard material has by default) and a grey base colour; every other
  material has no emissive colour and is highlighted through its base colour. The door
  uses material 0, the poster material 1.
\<close>

definition gallery :: state where
  "gallery = idle_room\<lparr>materials :=
     (\<lambda>k. if k = 0 then \<lparr>emissive = Some (RGB 0 0 0), emissiveIntensity = Some 1,
                          color = Some (RGB 0.8 0.8 0.8)\<rparr>
          else \<lparr>emissive = None, emissiveIntensity = None, color = Some (RGB 0.5 0.5 0.5)\<rparr>)\<rparr>"

text \<open>
  A second door on the same wall, a distinct node that uses the same single material as
  the first.
\<close>

definition door2_root :: obj where
  "door2_root = Obj 8 ''kumoclick_door2'' None
     (Box3 (Vector3 4.8 0 1) (Vector3 5 2 2)) [[Some 0]]"

text \<open>
  A lamp whose material glows orange: the emissive colour has the channels 1, 0.5 and 0
  (an emissive factor that an asset can carry) and the intensity 1.
\<close>

definition lamp_root :: obj where
  "lamp_root = Obj 4 ''kumoclick_lamp'' None
     (Box3 (Vector3 1 0 1) (Vector3 1.5 1 1.5)) [[Some 2]]"

definition lamp_room :: state where
  "lamp_room = idle_room\<lparr>materials :=
     (\<lambda>k. \<lparr>emissive = Some (RGB 1 0.5 0), emissiveIntensity = Some 1,
            color = Some (RGB 1 1 1)\<rparr>)\<rparr>"

text \<open>
  A chair and a table that share material 1; the table references it twice. The chair
  also uses material 0, the table material 3.
\<close>

definition chair_root :: obj where
  "chair_root = Obj 5 ''kumoclick_chair'' None
     (Box3 (Vector3 (-1) 0 (-1)) (Vector3 0 1 0)) [[Some 0, Some 1]]"

definition table_root :: obj where
  "table_root = Obj 6 ''kumoclick_table'' None
     (Box3 (Vector3 1 0 1) (Vector3 2 1 2)) [[Some 1], [Some 1, Some 3]]"
section \<open>Clamping\<close>

lemma clamp_idem: "clamp (clamp v mn mx) mn mx = clamp v mn mx"
  by (simp add: clamp_def min_def max_def)

lemma clampXZ_idem: "clampXZ x0 x1 z0 z1 (clampXZ x0 x1 z0 z1 p) = clampXZ x0 x1 z0 z1 p"
  by (simp add: clampXZ_def clamp_idem)

lemma isFinite_iff: "isFinite e \<longleftrightarrow> (\<exists>r. e = Fin r)"
  by (cases e) auto

lemma clampToRoomXZ_fin:
  assumes "roomLoaded s" "FLOOR_Y s = Fin f"
    "ROOM_MIN_X s = Fin x0" "ROOM_MAX_X s = Fin x1" "ROOM_MIN_Z s = Fin z0" "ROOM_MAX_Z s = Fin z1"
  shows "clampToRoomXZ s =
           s\<lparr>camera_position := clampXZ x0 x1 z0 z1 (camera_position s),
             controls_target := clampXZ x0 x1 z0 z1 (controls_target s)\<rparr>"
  using assms by (simp add: clampToRoomXZ_def boundsAreFinite_def)

lemma clampToRoomXZ_idem: "clampToRoomXZ (clampToRoomXZ s) = clampToRoomXZ s"
proof (cases "roomLoaded s \<and> boundsAreFinite s")
  case False
  then show ?thesis by (auto simp: clampToRoomXZ_def)
next
  case True
  then obtain f x0 x1 z0 z1 where b: "FLOOR_Y s = Fin f"
    "ROOM_MIN_X s = Fin x0" "ROOM_MAX_X s = Fin x1" "ROOM_MIN_Z s = Fin z0" "ROOM_MAX_Z s = Fin z1"
    by (auto simp: boundsAreFinite_def isFinite_iff)
  from True have l: "roomLoaded s" by simp
  show ?thesis
    by (simp add: clampToRoomXZ_fin[OF l b]
        clampToRoomXZ_fin[where f=f and ?x0.0=x0 and ?x1.0=x1 and ?z0.0=z0 and ?z1.0=z1]
        l b clampXZ_idem)
qed

text \<open>
  C9. For bounds with \<open>minX \<le> maxX\<close> and \<open>minZ \<le> maxZ\<close>, clamping twice is clamping once:
  for the scalar \<open>clamp\<close>, for the XZ clamp of a point, and for \<open>clampToRoomXZ\<close>, which
  clamps the camera position and the look target of a state holding those bounds.
\<close>

theorem clamp_idempotent:
  assumes "x0 \<le> x1" and "z0 \<le> z1"
    and "ROOM_MIN_X s = Fin x0" and "ROOM_MAX_X s = Fin x1"
    and "ROOM_MIN_Z s = Fin z0" and "ROOM_MAX_Z s = Fin z1"
  shows "clamp (clamp v x0 x1) x0 x1 = clamp v x0 x1 \<and>
         clampXZ x0 x1 z0 z1 (clampXZ x0 x1 z0 z1 p) = clampXZ x0 x1 z0 z1 p \<and>
         clampToRoomXZ (clampToRoomXZ s) = clampToRoomXZ s"
  by (simp add: clamp_idem clampXZ_idem clampToRoomXZ_idem)

text \<open>
  The scenario of the specification: with bounds \<open>[-5, 5] \<times> [-5, 5]\<close> a camera at
  \<open>(6, 1.65, 0)\<close> is clamped to \<open>x = 5\<close>, and clamping again changes nothing.
\<close>

theorem clamp_idempotent_witness:
  "vx (camera_position (clampToRoomXZ room10)) = 5 \<and>
   clampToRoomXZ (clampToRoomXZ room10) = clampToRoomXZ room10 \<and>
   clamp (clamp 6 (-5) 5) (-5) 5 = clamp 6 (-5) 5"
proof -
  have "vx (camera_position (clampToRoomXZ room10)) = 5"
    by (simp add: room10_def init_state_def clampToRoomXZ_def boundsAreFinite_def
        clampXZ_def clamp_def)
  moreover have "clamp (clamp 6 (-5) 5) (-5) 5 = clamp 6 (-5) 5 \<and>
         clampXZ (-5) 5 (-5) 5 (clampXZ (-5) 5 (-5) 5 (Vector3 6 1.65 0)) =
           clampXZ (-5) 5 (-5) 5 (Vector3 6 1.65 0) \<and>
         clampToRoomXZ (clampToRoomXZ room10) = clampToRoomXZ room10"
    by (rule clamp_idempotent[where s = room10]) (simp_all add: room10_def init_state_def)
  ultimately show ?thesis by simp
qed

section \<open>Frames, clicks and mode exclusivity\<close>


lemma lockStandingHeight_shape:
  "\<exists>p. lockStandingHeight s = s\<lparr>camera_position := p\<rparr>"
  by (cases "FLOOR_Y s") (auto simp: lockStandingHeight_def intro: exI[of _ "camera_position s"])

lemma clampToRoomXZ_shape:
  "\<exists>p t. clampToRoomXZ s = s\<lparr>camera_position := p, controls_target := t\<rparr>"
proof (cases "roomLoaded s \<and> boundsAreFinite s")
  case False
  then have "clampToRoomXZ s = s\<lparr>camera_position := camera_position s, controls_target := controls_target s\<rparr>"
    by (auto simp: clampToRoomXZ_def)
  then show ?thesis by blast
next
  case True
  then obtain f x0 x1 z0 z1 where b: "FLOOR_Y s = Fin f"
    "ROOM_MIN_X s = Fin x0" "ROOM_MAX_X s = Fin x1" "ROOM_MIN_Z s = Fin z0" "ROOM_MAX_Z s = Fin z1"
    by (auto simp: boundsAreFinite_def isFinite_iff)
  from True have l: "roomLoaded s" by simp
  show ?thesis unfolding clampToRoomXZ_fin[OF l b] by blast
qed

lemma look_update_shape:
  "\<exists>p t. clampToRoomXZ (updateLookTargetFromYawPitch (lockStandingHeight s)) =
     s\<lparr>camera_position := p, controls_target := t\<rparr>"
proof -
  obtain p where 1: "lockStandingHeight s = s\<lparr>camera_position := p\<rparr>"
    using lockStandingHeight_shape by blast
  define s2 where "s2 = updateLookTargetFromYawPitch (s\<lparr>camera_position := p\<rparr>)"
  have 2: "s2 = s\<lparr>camera_position := p, controls_target := controls_target s2\<rparr>"
    by (simp add: s2_def updateLookTargetFromYawPitch_def Let_def)
  obtain p' t' where 3: "clampToRoomXZ s2 = s2\<lparr>camera_position := p', controls_target := t'\<rparr>"
    using clampToRoomXZ_shape by blast
  have "clampToRoomXZ s2 = s\<lparr>camera_position := p', controls_target := t'\<rparr>"
    by (subst 3, subst 2) simp
  then show ?thesis unfolding 1 s2_def by blast
qed

lemma animate_idle_shape:
  assumes "\<not> focus_active s"
  shows "\<exists>p t. animate delta s = s\<lparr>camera_position := p, controls_target := t\<rparr>"
proof (cases "roomLoaded s \<and> boundsAreFinite s")
  case False
  then have "animate delta s = s\<lparr>camera_position := camera_position s, controls_target := controls_target s\<rparr>"
    by (auto simp: animate_def)
  then show ?thesis by blast
next
  case True
  define s1 where "s1 = (if input_forward (getMoveInput s) - input_back (getMoveInput s) \<noteq> 0 \<or>
        input_right (getMoveInput s) - input_left (getMoveInput s) \<noteq> 0
      then s\<lparr>camera_position := vadd (camera_position s) (walk_move (min delta 0.05) s)\<rparr> else s)"
  have a: "animate delta s = clampToRoomXZ (updateLookTargetFromYawPitch (lockStandingHeight s1))"
    using True assms by (simp add: animate_def Let_def s1_def)
  have s1: "s1 = s\<lparr>camera_position := camera_position s1\<rparr>"
    by (simp add: s1_def)
  obtain p t where "clampToRoomXZ (updateLookTargetFromYawPitch (lockStandingHeight s1)) =
     s1\<lparr>camera_position := p, controls_target := t\<rparr>"
    using look_update_shape by blast
  then have "animate delta s = s\<lparr>camera_position := p, controls_target := t\<rparr>"
    unfolding a by (subst (asm) s1) simp
  then show ?thesis by blast
qed

lemma run_frames_idle_shape:
  "\<not> focus_active s \<Longrightarrow>
   \<exists>p t. run_frames deltas s = s\<lparr>camera_position := p, controls_target := t\<rparr>"
proof (induction deltas arbitrary: s)
  case Nil
  have "run_frames [] s = s\<lparr>camera_position := camera_position s, controls_target := controls_target s\<rparr>"
    by (simp add: run_frames_def)
  then show ?case by blast
next
  case (Cons d ds)
  obtain p t where 1: "animate d s = s\<lparr>camera_position := p, controls_target := t\<rparr>"
    using animate_idle_shape[OF Cons.prems] by blast
  then have "\<not> focus_active (animate d s)" using Cons.prems by simp
  from Cons.IH[OF this] obtain p' t' where
    2: "run_frames ds (animate d s) = (animate d s)\<lparr>camera_position := p', controls_target := t'\<rparr>"
    by blast
  have "run_frames (d # ds) s = run_frames ds (animate d s)" by (simp add: run_frames_def)
  also have "\<dots> = (animate d s)\<lparr>camera_position := p', controls_target := t'\<rparr>" by (rule 2)
  also have "\<dots> = s\<lparr>camera_position := p', controls_target := t'\<rparr>" by (simp add: 1)
  finally show ?case by blast
qed

lemma startFocus_empty: "isEmpty (obox r) \<Longrightarrow> startFocus f wd r p s = s"
  by (simp add: startFocus_def fitCameraToObject_def)

text \<open>
  C8. For a root whose world bounding volume is empty, \<open>startFocus\<close> returns the state
  as it was: the focus stays idle, no source, destination or payload is stored and the
  hover is not cleared. A click that resolves to such a root leaves the state alone, and
  in the frames that follow an idle state no modal is opened, the focus stays idle and
  the hovered root stays.
\<close>

theorem startFocus_empty_bounds_noop:
  assumes "isEmpty (obox r)"
  shows "startFocus f wd r p s = s \<and>
         (findClickableRoot hit = Some r \<longrightarrow>
            pointerup_click f button x y now (hit # hits) wd s = s) \<and>
         (\<not> focus_active s \<longrightarrow>
            \<not> focus_active (run_frames deltas (startFocus f wd r p s)) \<and>
            openModal_calls (run_frames deltas (startFocus f wd r p s)) = openModal_calls s \<and>
            modalOpen (run_frames deltas (startFocus f wd r p s)) = modalOpen s \<and>
            hoveredRoot (run_frames deltas (startFocus f wd r p s)) = hoveredRoot s)"
proof -
  have 1: "startFocus f wd r p s = s" using assms by (rule startFocus_empty)
  have 2: "findClickableRoot hit = Some r \<longrightarrow>
            pointerup_click f button x y now (hit # hits) wd s = s"
    by (simp add: pointerup_click_def Let_def startFocus_empty[OF assms])
  have 3: "\<not> focus_active s \<longrightarrow>
            \<not> focus_active (run_frames deltas s) \<and>
            openModal_calls (run_frames deltas s) = openModal_calls s \<and>
            modalOpen (run_frames deltas s) = modalOpen s \<and>
            hoveredRoot (run_frames deltas s) = hoveredRoot s"
  proof
    assume "\<not> focus_active s"
    then obtain p t where "run_frames deltas s = s\<lparr>camera_position := p, controls_target := t\<rparr>"
      using run_frames_idle_shape by blast
    then show "\<not> focus_active (run_frames deltas s) \<and>
            openModal_calls (run_frames deltas s) = openModal_calls s \<and>
            modalOpen (run_frames deltas s) = modalOpen s \<and>
            hoveredRoot (run_frames deltas s) = hoveredRoot s"
      using \<open>\<not> focus_active s\<close> by simp
  qed
  show ?thesis using 2 3 unfolding 1 by blast
qed


lemma ghost_root_root: "findClickableRoot ghost_root = Some ghost_root"
  by (simp add: ghost_root_def isClickableName_def startsWith_def toLowerCase_def toLowerCase_char_def CLICK_PREFIX_def)

lemma hypot_gt_6: "hypot a b > 6 \<longleftrightarrow> a * a + b * b > 36"
proof -
  have six: "sqrt 36 = 6" by (rule real_sqrt_unique) simp_all
  have "hypot a b > 6 \<longleftrightarrow> sqrt (a * a + b * b) > sqrt 36"
    unfolding hypot_def six ..
  also have "\<dots> \<longleftrightarrow> a * a + b * b > 36" by (rule real_sqrt_less_iff)
  finally show ?thesis .
qed

lemma highlight_shape:
  "\<exists>m hs. applyHoverHighlight f r on s = s\<lparr>materials := m, highlightState := hs\<rparr>"
proof (cases r)
  case None
  then have "applyHoverHighlight f r on s = s\<lparr>materials := materials s, highlightState := highlightState s\<rparr>"
    by (simp add: applyHoverHighlight_def)
  then show ?thesis by blast
next
  case (Some a)
  then show ?thesis by (simp add: applyHoverHighlight_def Let_def) blast
qed

lemma setHoveredRoot_shape:
  "\<exists>m hs. setHoveredRoot f n s = s\<lparr>hoveredRoot := n, materials := m, highlightState := hs\<rparr>"
proof (cases "n = hoveredRoot s")
  case True
  then have "setHoveredRoot f n s = s\<lparr>hoveredRoot := n, materials := materials s, highlightState := highlightState s\<rparr>"
    by (simp add: setHoveredRoot_def)
  then show ?thesis by blast
next
  case False
  define s1 where "s1 = (if hoveredRoot s \<noteq> None then applyHoverHighlight f (hoveredRoot s) False s else s)"
  obtain m1 h1 where 1: "s1 = s\<lparr>materials := m1, highlightState := h1\<rparr>"
  proof (cases "hoveredRoot s \<noteq> None")
    case True
    then show ?thesis using highlight_shape[of f "hoveredRoot s" False s] that by (auto simp: s1_def)
  next
    case False
    then have "s1 = s\<lparr>materials := materials s, highlightState := highlightState s\<rparr>"
      by (simp add: s1_def)
    then show ?thesis using that by blast
  qed
  define s2 where "s2 = s1\<lparr>hoveredRoot := n\<rparr>"
  have r: "setHoveredRoot f n s = (if n \<noteq> None then applyHoverHighlight f n True s2 else s2)"
    using False by (simp add: setHoveredRoot_def Let_def s1_def s2_def)
  obtain m2 h2 where 2: "applyHoverHighlight f n True s2 = s2\<lparr>materials := m2, highlightState := h2\<rparr>"
    using highlight_shape by blast
  show ?thesis
  proof (cases "n = None")
    case True
    have "s2 = s\<lparr>hoveredRoot := n, materials := m1, highlightState := h1\<rparr>"
      by (simp add: s2_def 1)
    with True r have "setHoveredRoot f n s = s\<lparr>hoveredRoot := n, materials := m1, highlightState := h1\<rparr>"
      by simp
    then show ?thesis by blast
  next
    case False
    then have "setHoveredRoot f n s = s\<lparr>hoveredRoot := n, materials := m2, highlightState := h2\<rparr>"
      by (simp add: r 2) (simp add: s2_def 1)
    then show ?thesis by blast
  qed
qed

lemma startFocus_fields:
  assumes "\<not> isEmpty (obox r)"
  shows "focus_active (startFocus f wd r p s)"
    and "focus_t (startFocus f wd r p s) = 0"
    and "focus_openModalOnDone (startFocus f wd r p s) = p"
    and "focus_dur (startFocus f wd r p s) = focus_dur s"
    and "hoveredRoot (startFocus f wd r p s) = None"
    and "focus_fromPos (startFocus f wd r p s) = camera_position s"
    and "focus_fromTarget (startFocus f wd r p s) = controls_target s"
    and "camera_position (startFocus f wd r p s) = camera_position s"
    and "roomLoaded (startFocus f wd r p s) = roomLoaded s"
    and "openModal_calls (startFocus f wd r p s) = openModal_calls s"
    and "\<exists>ft. fitCameraToObject wd r s = Some ft \<and>
           focus_toPos (startFocus f wd r p s) = desiredPos ft \<and>
           focus_toTarget (startFocus f wd r p s) = desiredTarget ft"
proof -
  obtain ft where ft: "fitCameraToObject wd r s = Some ft"
    using assms by (simp add: fitCameraToObject_def Let_def)
  define s' where "s' = s\<lparr> focus_active := True, focus_t := 0,
        focus_fromPos := camera_position s, focus_fromTarget := controls_target s,
        focus_toPos := desiredPos ft, focus_toTarget := desiredTarget ft,
        focus_openModalOnDone := p\<rparr>"
  obtain m hs where "setHoveredRoot f None s' = s'\<lparr>hoveredRoot := None, materials := m, highlightState := hs\<rparr>"
    using setHoveredRoot_shape by blast
  then have eq: "startFocus f wd r p s = s'\<lparr>hoveredRoot := None, materials := m, highlightState := hs\<rparr>"
    by (simp add: startFocus_def ft s'_def)
  show "focus_active (startFocus f wd r p s)"
    and "focus_t (startFocus f wd r p s) = 0"
    and "focus_openModalOnDone (startFocus f wd r p s) = p"
    and "focus_dur (startFocus f wd r p s) = focus_dur s"
    and "hoveredRoot (startFocus f wd r p s) = None"
    and "focus_fromPos (startFocus f wd r p s) = camera_position s"
    and "focus_fromTarget (startFocus f wd r p s) = controls_target s"
    and "camera_position (startFocus f wd r p s) = camera_position s"
    and "roomLoaded (startFocus f wd r p s) = roomLoaded s"
    and "openModal_calls (startFocus f wd r p s) = openModal_calls s"
    by (simp_all add: eq s'_def)
  show "\<exists>ft. fitCameraToObject wd r s = Some ft \<and>
           focus_toPos (startFocus f wd r p s) = desiredPos ft \<and>
           focus_toTarget (startFocus f wd r p s) = desiredTarget ft"
    by (simp add: eq s'_def ft)
qed

lemma title_door: "oname r = ''kumoclick_door'' \<Longrightarrow> title (click_payload r) = ''door''"
  by (simp add: click_payload_def CLICK_PREFIX_def Let_def)

lemma hypot_le_6: "hypot a b \<le> 6 \<longleftrightarrow> a * a + b * b \<le> 36"
  using hypot_gt_6[of a b] by auto

lemma title_slug:
  "title (click_payload r) =
     (if drop (length CLICK_PREFIX) (oname r) = [] then ''Object''
      else drop (length CLICK_PREFIX) (oname r))"
  by (simp add: click_payload_def Let_def)

lemma pointerup_click_accept:
  assumes "roomLoaded s" "\<not> focus_active s" "\<not> modalOpen s"
    and "hypot (x - fst (clickDownPos s)) (y - snd (clickDownPos s)) \<le> 6"
    and "now - clickDownTime s \<le> 450"
    and "findClickableRoot hit = Some r"
  shows "pointerup_click f 0 x y now (hit # hits) wd s =
         startFocus f wd r (Some (click_payload r)) s"
proof -
  have "\<not> (hypot (x - fst (clickDownPos s)) (y - snd (clickDownPos s)) > 6 \<or>
           now - clickDownTime s > 450)"
    using assms(4,5) by simp
  then show ?thesis using assms(1,2,3,6) by (simp add: pointerup_click_def Let_def)
qed

lemma pointerup_click_reject:
  assumes "hypot (x - fst (clickDownPos s)) (y - snd (clickDownPos s)) > 6 \<or>
           now - clickDownTime s > 450"
  shows "pointerup_click f button x y now hits wd s = s"
  using assms by (auto simp: pointerup_click_def Let_def)

lemma press_state:
  "roomLoaded (endDrag (step f s (PointerDown 0 px py t0))) = roomLoaded s"
  "focus_active (endDrag (step f s (PointerDown 0 px py t0))) = focus_active s"
  "modalOpen (endDrag (step f s (PointerDown 0 px py t0))) = modalOpen s"
  "clickDownPos (endDrag (step f s (PointerDown 0 px py t0))) = (px, py)"
  "clickDownTime (endDrag (step f s (PointerDown 0 px py t0))) = t0"
  by (simp_all add: endDrag_def pointerdown_click_def pointerdown_drag_def)

lemma startFocus_toTarget:
  assumes "\<not> isEmpty (obox r)"
  shows "focus_toTarget (startFocus f wd r p s) = getCenter (obox r)"
proof -
  obtain ft where ft: "fitCameraToObject wd r s = Some ft"
    and t: "focus_toTarget (startFocus f wd r p s) = desiredTarget ft"
    using startFocus_fields(11)[OF assms, of wd s f p] by blast
  have "desiredTarget ft = getCenter (obox r)"
    using ft assms by (auto simp: fitCameraToObject_def Let_def)
  then show ?thesis using t by simp
qed

text \<open>
  C4. Click resolution on pointer-up. (1) With a modal open, a focus transition active or
  the room not loaded, the listener leaves the state alone. (2) So it does when the
  pointer moved more than 6 pixels or more than 450 ms passed since the press. (3) In
  every other case, that is in a loaded, idle room with no modal, with a primary-button
  release at most 6 pixels and at most 450 ms from the press, a nearest hit whose
  clickable root \<open>r\<close> has a non-empty bounding volume (see C8) starts a focus transition
  for \<open>r\<close>: progress zero, from the present camera pose towards the centre of \<open>r\<close>, the
  hover cleared, with the payload of \<open>r\<close>, whose title is the name of \<open>r\<close> after the
  prefix (\<open>Object\<close> when nothing follows the prefix). (4) The same for a press and a
  release given as events: a release within 6 pixels and 450 ms of the press starts
  the transition, (5) a release farther or later changes nothing but the end of the
  drag. (6) In particular a press at (100, 100) and a release there 50 ms later on a
  hit whose root is named \<open>kumoclick_door\<close> starts a transition whose payload title is
  \<open>door\<close>, and (7) the same press released at (110, 100) starts none.
\<close>

theorem click_resolution:
  "(modalOpen s \<or> focus_active s \<or> \<not> roomLoaded s \<longrightarrow>
      pointerup_click f button x y now hits wd s = s) \<and>
   (hypot (x - fst (clickDownPos s)) (y - snd (clickDownPos s)) > 6 \<or>
    now - clickDownTime s > 450 \<longrightarrow>
      pointerup_click f button x y now hits wd s = s) \<and>
   (roomLoaded s \<and> \<not> focus_active s \<and> \<not> modalOpen s \<and>
    hypot (x - fst (clickDownPos s)) (y - snd (clickDownPos s)) \<le> 6 \<and>
    now - clickDownTime s \<le> 450 \<and>
    findClickableRoot hit = Some r \<and> \<not> isEmpty (obox r) \<longrightarrow>
      (let s' = pointerup_click f 0 x y now (hit # hits) wd s
       in s' = startFocus f wd r (Some (click_payload r)) s \<and>
          focus_active s' \<and> focus_t s' = 0 \<and>
          focus_fromPos s' = camera_position s \<and> focus_fromTarget s' = controls_target s \<and>
          focus_toTarget s' = getCenter (obox r) \<and> hoveredRoot s' = None \<and>
          focus_openModalOnDone s' = Some (click_payload r) \<and>
          title (click_payload r) =
            (if drop (length CLICK_PREFIX) (oname r) = [] then ''Object''
             else drop (length CLICK_PREFIX) (oname r)))) \<and>
   (roomLoaded s \<and> \<not> focus_active s \<and> \<not> modalOpen s \<and>
    hypot (x - px) (y - py) \<le> 6 \<and> t1 - t0 \<le> 450 \<and>
    findClickableRoot hit = Some r \<and> \<not> isEmpty (obox r) \<longrightarrow>
      (let s' = step f (step f s (PointerDown 0 px py t0))
                        (PointerUp 0 x y t1 (hit # hits) wd)
       in focus_active s' \<and> focus_t s' = 0 \<and>
          focus_openModalOnDone s' = Some (click_payload r))) \<and>
   (hypot (x - px) (y - py) > 6 \<or> t1 - t0 > 450 \<longrightarrow>
      (let s0 = step f s (PointerDown 0 px py t0);
           s' = step f s0 (PointerUp button x y t1 hits wd)
       in s' = endDrag s0 \<and> focus_active s' = focus_active s)) \<and>
   (roomLoaded s \<and> \<not> focus_active s \<and> \<not> modalOpen s \<and>
    findClickableRoot hit = Some r \<and> oname r = ''kumoclick_door'' \<and> \<not> isEmpty (obox r) \<longrightarrow>
      (let s' = step f (step f s (PointerDown 0 100 100 t0))
                        (PointerUp 0 100 100 (t0 + 50) (hit # hits) wd)
       in focus_active s' \<and> focus_t s' = 0 \<and>
          map_option title (focus_openModalOnDone s') = Some ''door'')) \<and>
   (let s0 = step f s (PointerDown 0 100 100 t0);
        s' = step f s0 (PointerUp 0 110 100 (t0 + 50) hits wd)
    in s' = endDrag s0 \<and> focus_active s' = focus_active s)"
proof -
  have 1: "modalOpen s \<or> focus_active s \<or> \<not> roomLoaded s \<longrightarrow>
      pointerup_click f button x y now hits wd s = s"
    by (auto simp: pointerup_click_def)
  have 2: "hypot (x - fst (clickDownPos s)) (y - snd (clickDownPos s)) > 6 \<or>
    now - clickDownTime s > 450 \<longrightarrow> pointerup_click f button x y now hits wd s = s"
    using pointerup_click_reject by blast
  have 3: "roomLoaded s \<and> \<not> focus_active s \<and> \<not> modalOpen s \<and>
    hypot (x - fst (clickDownPos s)) (y - snd (clickDownPos s)) \<le> 6 \<and>
    now - clickDownTime s \<le> 450 \<and>
    findClickableRoot hit = Some r \<and> \<not> isEmpty (obox r) \<longrightarrow>
      (let s' = pointerup_click f 0 x y now (hit # hits) wd s
       in s' = startFocus f wd r (Some (click_payload r)) s \<and>
          focus_active s' \<and> focus_t s' = 0 \<and>
          focus_fromPos s' = camera_position s \<and> focus_fromTarget s' = controls_target s \<and>
          focus_toTarget s' = getCenter (obox r) \<and> hoveredRoot s' = None \<and>
          focus_openModalOnDone s' = Some (click_payload r) \<and>
          title (click_payload r) =
            (if drop (length CLICK_PREFIX) (oname r) = [] then ''Object''
             else drop (length CLICK_PREFIX) (oname r)))"
  proof
    assume a: "roomLoaded s \<and> \<not> focus_active s \<and> \<not> modalOpen s \<and>
      hypot (x - fst (clickDownPos s)) (y - snd (clickDownPos s)) \<le> 6 \<and>
      now - clickDownTime s \<le> 450 \<and>
      findClickableRoot hit = Some r \<and> \<not> isEmpty (obox r)"
    then have ne: "\<not> isEmpty (obox r)" by simp
    have e: "pointerup_click f 0 x y now (hit # hits) wd s =
        startFocus f wd r (Some (click_payload r)) s"
      using a by (intro pointerup_click_accept) simp_all
    show "(let s' = pointerup_click f 0 x y now (hit # hits) wd s
       in s' = startFocus f wd r (Some (click_payload r)) s \<and>
          focus_active s' \<and> focus_t s' = 0 \<and>
          focus_fromPos s' = camera_position s \<and> focus_fromTarget s' = controls_target s \<and>
          focus_toTarget s' = getCenter (obox r) \<and> hoveredRoot s' = None \<and>
          focus_openModalOnDone s' = Some (click_payload r) \<and>
          title (click_payload r) =
            (if drop (length CLICK_PREFIX) (oname r) = [] then ''Object''
             else drop (length CLICK_PREFIX) (oname r)))"
      unfolding Let_def e
      using startFocus_fields(1,2,3,5,6,7)[OF ne, of f wd "Some (click_payload r)" s]
        startFocus_toTarget[OF ne, of f wd "Some (click_payload r)" s] title_slug[of r]
      by simp
  qed
  have 4: "roomLoaded s \<and> \<not> focus_active s \<and> \<not> modalOpen s \<and>
    hypot (x - px) (y - py) \<le> 6 \<and> t1 - t0 \<le> 450 \<and>
    findClickableRoot hit = Some r \<and> \<not> isEmpty (obox r) \<longrightarrow>
      (let s' = step f (step f s (PointerDown 0 px py t0))
                        (PointerUp 0 x y t1 (hit # hits) wd)
       in focus_active s' \<and> focus_t s' = 0 \<and>
          focus_openModalOnDone s' = Some (click_payload r))" for x y px py t0 t1
  proof
    assume a: "roomLoaded s \<and> \<not> focus_active s \<and> \<not> modalOpen s \<and>
      hypot (x - px) (y - py) \<le> 6 \<and> t1 - t0 \<le> 450 \<and>
      findClickableRoot hit = Some r \<and> \<not> isEmpty (obox r)"
    then have ne: "\<not> isEmpty (obox r)" by simp
    define s1 where "s1 = endDrag (step f s (PointerDown 0 px py t0))"
    note ps = press_state[of f s px py t0, folded s1_def]
    have "pointerup_click f 0 x y t1 (hit # hits) wd s1 =
        startFocus f wd r (Some (click_payload r)) s1"
      using a by (intro pointerup_click_accept) (simp_all add: ps)
    then have st: "step f (step f s (PointerDown 0 px py t0))
                        (PointerUp 0 x y t1 (hit # hits) wd) =
       startFocus f wd r (Some (click_payload r)) s1"
      by (simp add: s1_def)
    show "(let s' = step f (step f s (PointerDown 0 px py t0))
                        (PointerUp 0 x y t1 (hit # hits) wd)
       in focus_active s' \<and> focus_t s' = 0 \<and>
          focus_openModalOnDone s' = Some (click_payload r))"
      unfolding Let_def st by (simp add: startFocus_fields(1,2,3)[OF ne])
  qed
  have 5: "hypot (x - px) (y - py) > 6 \<or> t1 - t0 > 450 \<longrightarrow>
      (let s0 = step f s (PointerDown 0 px py t0);
           s' = step f s0 (PointerUp button x y t1 hits wd)
       in s' = endDrag s0 \<and> focus_active s' = focus_active s)" for x y px py t0 t1 hits
  proof
    assume a: "hypot (x - px) (y - py) > 6 \<or> t1 - t0 > 450"
    define s1 where "s1 = endDrag (step f s (PointerDown 0 px py t0))"
    note ps = press_state[of f s px py t0, folded s1_def]
    have "pointerup_click f button x y t1 hits wd s1 = s1"
      using a by (intro pointerup_click_reject) (simp add: ps)
    then have "step f (step f s (PointerDown 0 px py t0)) (PointerUp button x y t1 hits wd) = s1"
      by (simp add: s1_def)
    then show "(let s0 = step f s (PointerDown 0 px py t0);
           s' = step f s0 (PointerUp button x y t1 hits wd)
       in s' = endDrag s0 \<and> focus_active s' = focus_active s)"
      using ps(2) by (simp add: Let_def s1_def)
  qed
  have 6: "roomLoaded s \<and> \<not> focus_active s \<and> \<not> modalOpen s \<and>
    findClickableRoot hit = Some r \<and> oname r = ''kumoclick_door'' \<and> \<not> isEmpty (obox r) \<longrightarrow>
      (let s' = step f (step f s (PointerDown 0 100 100 t0))
                        (PointerUp 0 100 100 (t0 + 50) (hit # hits) wd)
       in focus_active s' \<and> focus_t s' = 0 \<and>
          map_option title (focus_openModalOnDone s') = Some ''door'')"
  proof
    assume a: "roomLoaded s \<and> \<not> focus_active s \<and> \<not> modalOpen s \<and>
      findClickableRoot hit = Some r \<and> oname r = ''kumoclick_door'' \<and> \<not> isEmpty (obox r)"
    have h: "hypot (100 - 100) (100 - 100) \<le> 6" by (simp add: hypot_def)
    have "(let s' = step f (step f s (PointerDown 0 100 100 t0))
                        (PointerUp 0 100 100 (t0 + 50) (hit # hits) wd)
       in focus_active s' \<and> focus_t s' = 0 \<and>
          focus_openModalOnDone s' = Some (click_payload r))"
      using 4[of 100 100 100 100 "t0 + 50" t0] a h by simp
    moreover have "title (click_payload r) = ''door''" using a by (simp add: title_door)
    ultimately show "(let s' = step f (step f s (PointerDown 0 100 100 t0))
                        (PointerUp 0 100 100 (t0 + 50) (hit # hits) wd)
       in focus_active s' \<and> focus_t s' = 0 \<and>
          map_option title (focus_openModalOnDone s') = Some ''door'')"
      by (simp add: Let_def)
  qed
  have h7: "hypot (110 - 100) (100 - 100) > 6" by (simp add: hypot_gt_6)
  have 7: "(let s0 = step f s (PointerDown 0 100 100 t0);
        s' = step f s0 (PointerUp 0 110 100 (t0 + 50) hits wd)
    in s' = endDrag s0 \<and> focus_active s' = focus_active s)"
  proof -
    define s1 where "s1 = endDrag (step f s (PointerDown 0 100 100 t0))"
    note ps = press_state[of f s 100 100 t0, folded s1_def]
    have "pointerup_click f 0 110 100 (t0 + 50) hits wd s1 = s1"
      using h7 by (intro pointerup_click_reject) (simp add: ps)
    then have "step f (step f s (PointerDown 0 100 100 t0))
                 (PointerUp 0 110 100 (t0 + 50) hits wd) = s1"
      by (simp add: s1_def)
    then show ?thesis using ps(2) by (simp add: Let_def s1_def)
  qed
  show ?thesis using 1 2 3 4 5 6 7 by blast
qed

lemma door_mesh_root: "findClickableRoot door_mesh = Some door_root"
  by (simp add: door_mesh_def door_root_def isClickableName_def startsWith_def toLowerCase_def
      toLowerCase_char_def CLICK_PREFIX_def)

theorem click_resolution_witness:
  "findClickableRoot door_mesh = Some door_root \<and>
   (let s' = step three (step three idle_room (PointerDown 0 100 100 1000))
                     (PointerUp 0 100 100 (1000 + 50) [door_mesh] (Vector3 1 0 0))
    in focus_active s' \<and> focus_t s' = 0 \<and>
       map_option title (focus_openModalOnDone s') = Some ''door'') \<and>
   \<not> focus_active (step three (step three idle_room (PointerDown 0 100 100 1000))
                      (PointerUp 0 110 100 (1000 + 50) [door_mesh] (Vector3 1 0 0))) \<and>
   (let s' = step three (step three idle_room (PointerDown 0 100 100 1000))
                     (PointerUp 0 103 104 1400 [door_mesh] (Vector3 1 0 0))
    in focus_active s' \<and> focus_t s' = 0 \<and>
       focus_openModalOnDone s' = Some (click_payload door_root)) \<and>
   \<not> focus_active (step three (step three idle_room (PointerDown 0 100 100 1000))
                      (PointerUp 0 100 100 1451 [door_mesh] (Vector3 1 0 0)))"
proof -
  have h: "roomLoaded idle_room \<and> \<not> focus_active idle_room \<and> \<not> modalOpen idle_room \<and>
    findClickableRoot door_mesh = Some door_root \<and> oname door_root = ''kumoclick_door'' \<and>
    \<not> isEmpty (obox door_root)"
    by (simp add: door_mesh_root) (simp add: idle_room_def room10_def init_state_def door_root_def)
  have n: "\<not> focus_active idle_room" by (simp add: idle_room_def room10_def init_state_def)
  note T = click_resolution[where s = idle_room and f = three and hit = door_mesh and r = door_root
        and ?t0.0 = 1000 and wd = "Vector3 1 0 0"]
  have 6: "(let s' = step three (step three idle_room (PointerDown 0 100 100 1000))
                     (PointerUp 0 100 100 (1000 + 50) [door_mesh] (Vector3 1 0 0))
    in focus_active s' \<and> focus_t s' = 0 \<and>
       map_option title (focus_openModalOnDone s') = Some ''door'')"
    using T[where hits = "[]"] h by blast
  have 7: "(let s0 = step three idle_room (PointerDown 0 100 100 1000);
        s' = step three s0 (PointerUp 0 110 100 (1000 + 50) [door_mesh] (Vector3 1 0 0))
    in s' = endDrag s0 \<and> focus_active s' = focus_active idle_room)"
    using T[where hits = "[door_mesh]"] by blast
  have n7: "\<not> focus_active (step three (step three idle_room (PointerDown 0 100 100 1000))
                      (PointerUp 0 110 100 (1000 + 50) [door_mesh] (Vector3 1 0 0)))"
  proof -
    have "focus_active (step three (step three idle_room (PointerDown 0 100 100 1000))
                      (PointerUp 0 110 100 (1000 + 50) [door_mesh] (Vector3 1 0 0))) =
          focus_active idle_room"
      using 7 unfolding Let_def by (rule conjunct2)
    with n show ?thesis by simp
  qed
  have c: "hypot (103 - 100) (104 - 100) \<le> 6 \<and> (1400::real) - 1000 \<le> 450"
    by (simp add: hypot_le_6)
  have 4: "(let s' = step three (step three idle_room (PointerDown 0 100 100 1000))
                     (PointerUp 0 103 104 1400 [door_mesh] (Vector3 1 0 0))
    in focus_active s' \<and> focus_t s' = 0 \<and>
       focus_openModalOnDone s' = Some (click_payload door_root))"
    using T[where hits = "[]" and x = 103 and y = 104 and px = 100 and py = 100 and ?t1.0 = 1400]
      h c by blast
  have d: "hypot (100 - 100) (100 - 100) > 6 \<or> (1451::real) - 1000 > 450" by simp
  have 5: "(let s0 = step three idle_room (PointerDown 0 100 100 1000);
        s' = step three s0 (PointerUp 0 100 100 1451 [door_mesh] (Vector3 1 0 0))
    in s' = endDrag s0 \<and> focus_active s' = focus_active idle_room)"
    using T[where hits = "[door_mesh]" and x = 100 and y = 100 and px = 100 and py = 100
        and ?t1.0 = 1451 and button = 0] d by blast
  have n5: "\<not> focus_active (step three (step three idle_room (PointerDown 0 100 100 1000))
                      (PointerUp 0 100 100 1451 [door_mesh] (Vector3 1 0 0)))"
  proof -
    have "focus_active (step three (step three idle_room (PointerDown 0 100 100 1000))
                      (PointerUp 0 100 100 1451 [door_mesh] (Vector3 1 0 0))) =
          focus_active idle_room"
      using 5 unfolding Let_def by (rule conjunct2)
    with n show ?thesis by simp
  qed
  show ?thesis using door_mesh_root 6 n7 4 n5 by blast
qed

theorem startFocus_empty_bounds_noop_witness:
  "isEmpty (obox ghost_root) \<and>
   startFocus three (Vector3 1 0 0) ghost_root (Some (click_payload ghost_root)) room10 = room10 \<and>
   pointerup_click three 0 100 100 50 [ghost_root] (Vector3 1 0 0) room10 = room10 \<and>
   \<not> focus_active (run_frames [0.016, 0.016] room10) \<and>
   openModal_calls (run_frames [0.016, 0.016] room10) = []"
proof -
  have e: "isEmpty (obox ghost_root)" by (simp add: ghost_root_def)
  have n: "\<not> focus_active room10" "openModal_calls room10 = []"
    by (simp_all add: room10_def init_state_def)
  note T = startFocus_empty_bounds_noop[OF e, where s = room10 and f = three and wd = "Vector3 1 0 0"
        and p = "Some (click_payload ghost_root)" and hit = ghost_root and hits = "[]"
        and button = 0 and x = 100 and y = 100 and now = 50 and deltas = "[0.016, 0.016]"]
  have 1: "startFocus three (Vector3 1 0 0) ghost_root (Some (click_payload ghost_root)) room10 = room10"
    by (rule T[THEN conjunct1])
  have 2: "pointerup_click three 0 100 100 50 [ghost_root] (Vector3 1 0 0) room10 = room10"
    by (rule T[THEN conjunct2, THEN conjunct1, THEN mp, OF ghost_root_root])
  have 3: "\<not> focus_active (run_frames [0.016, 0.016] room10) \<and>
       openModal_calls (run_frames [0.016, 0.016] room10) = openModal_calls room10"
    using T[THEN conjunct2, THEN conjunct2, THEN mp, OF n(1)] unfolding 1 by blast
  show ?thesis using e 1 2 3 n(2) by simp
qed

lemma boundsAreFinite_keys: "boundsAreFinite (s\<lparr>keys := K\<rparr>) = boundsAreFinite s"
  by (simp add: boundsAreFinite_def)

lemma animate_active:
  assumes "focus_active s" "roomLoaded s" "boundsAreFinite s"
  shows "animate delta s =
     (let t = focus_t s + min delta 0.05 / focus_dur s;
          s1 = clampToRoomXZ
                 (s\<lparr> focus_t := t,
                     camera_position := lerpVectors (focus_fromPos s) (focus_toPos s)
                                          (easeInOutCubic (min 1 t)),
                     controls_target := lerpVectors (focus_fromTarget s) (focus_toTarget s)
                                          (easeInOutCubic (min 1 t)) \<rparr>)
      in if t \<ge> 1 then
           (case focus_openModalOnDone s of
              Some p \<Rightarrow> openModal p (s1\<lparr>focus_active := False\<rparr>)
            | None \<Rightarrow> s1\<lparr>focus_active := False\<rparr>)
         else s1)"
  using assms unfolding animate_def by (simp only: Let_def if_True simp_thms)

lemma animate_not_ready:
  "\<not> (roomLoaded s \<and> boundsAreFinite s) \<Longrightarrow> animate delta s = s"
  unfolding animate_def by (simp only: Let_def if_False)

lemma animate_active_keys:
  assumes "focus_active s"
  shows "animate delta (s\<lparr>keys := K\<rparr>) = (animate delta s)\<lparr>keys := K\<rparr>"
proof (cases "roomLoaded s \<and> boundsAreFinite s")
  case False
  then have "\<not> (roomLoaded (s\<lparr>keys := K\<rparr>) \<and> boundsAreFinite (s\<lparr>keys := K\<rparr>))"
    by (simp add: boundsAreFinite_keys)
  then have "animate delta (s\<lparr>keys := K\<rparr>) = s\<lparr>keys := K\<rparr>" by (rule animate_not_ready)
  moreover have "animate delta s = s" using False by (rule animate_not_ready)
  ultimately show ?thesis by simp
next
  case True
  have k: "focus_active (s\<lparr>keys := K\<rparr>)" "roomLoaded (s\<lparr>keys := K\<rparr>)"
    "boundsAreFinite (s\<lparr>keys := K\<rparr>)"
    using assms True by (simp_all add: boundsAreFinite_keys)
  have c: "clampToRoomXZ (s\<lparr>keys := K, focus_t := t, camera_position := p, controls_target := g\<rparr>) =
      (clampToRoomXZ (s\<lparr>focus_t := t, camera_position := p, controls_target := g\<rparr>))\<lparr>keys := K\<rparr>"
    for t p g
    by (simp add: clampToRoomXZ_def boundsAreFinite_def split: ext.splits)
  show ?thesis
    unfolding animate_active[OF k] animate_active[OF assms True[THEN conjunct1] True[THEN conjunct2]]
    by (simp add: Let_def c openModal_def split: option.splits)
qed

lemma animate_active_frame:
  assumes "focus_active s"
  shows "yaw (animate delta s) = yaw s \<and> pitch (animate delta s) = pitch s \<and>
         hoveredRoot (animate delta s) = hoveredRoot s \<and>
         materials (animate delta s) = materials s \<and>
         highlightState (animate delta s) = highlightState s"
proof (cases "roomLoaded s \<and> boundsAreFinite s")
  case False
  then have "animate delta s = s" by (rule animate_not_ready)
  then show ?thesis by simp
next
  case True
  define s3 where "s3 = s\<lparr>focus_t := focus_t s + min delta 0.05 / focus_dur s,
     camera_position := lerpVectors (focus_fromPos s) (focus_toPos s)
        (easeInOutCubic (min 1 (focus_t s + min delta 0.05 / focus_dur s))),
     controls_target := lerpVectors (focus_fromTarget s) (focus_toTarget s)
        (easeInOutCubic (min 1 (focus_t s + min delta 0.05 / focus_dur s)))\<rparr>"
  obtain p t where sh: "clampToRoomXZ s3 = s3\<lparr>camera_position := p, controls_target := t\<rparr>"
    using clampToRoomXZ_shape by blast
  have s3: "yaw s3 = yaw s" "pitch s3 = pitch s" "hoveredRoot s3 = hoveredRoot s"
    "materials s3 = materials s" "highlightState s3 = highlightState s"
    by (simp_all add: s3_def)
  show ?thesis
    unfolding animate_active[OF assms True[THEN conjunct1] True[THEN conjunct2]] Let_def
      s3_def[symmetric] sh
    by (simp add: s3 openModal_def split: option.splits)
qed

text \<open>
  C2. While a focus transition is active, the drag, wheel and hover listeners return the
  state unchanged; no event at all (pointer, wheel, key, modal close, resize, frame)
  changes the yaw, the pitch or the hovered root; and a frame does not read the held
  keys: the keyboard-walk branch does not run.
\<close>

theorem focus_suspends_look_walk_hover:
  assumes "focus_active s"
  shows "pointermove_drag x y s = s \<and>
         wheel ctrlKey deltaX deltaY s = s \<and>
         pointermove_hover f hits s = s \<and>
         yaw (step f s e) = yaw s \<and>
         pitch (step f s e) = pitch s \<and>
         hoveredRoot (step f s e) = hoveredRoot s \<and>
         animate delta (s\<lparr>keys := K\<rparr>) = (animate delta s)\<lparr>keys := K\<rparr>"
proof -
  have 1: "pointermove_drag x y s = s" for x y using assms by (simp add: pointermove_drag_def)
  have 2: "wheel c dx dy s = s" for c dx dy using assms by (simp add: wheel_def)
  have 3: "pointermove_hover f hits s = s" for hits using assms by (simp add: pointermove_hover_def)
  have 4: "yaw (step f s e) = yaw s \<and> pitch (step f s e) = pitch s \<and>
         hoveredRoot (step f s e) = hoveredRoot s"
  proof (cases e)
    case (PointerDown b x y now)
    then show ?thesis by (simp add: pointerdown_click_def pointerdown_drag_def)
  next
    case (PointerMove x y hits)
    then show ?thesis by (simp add: 1 3)
  next
    case (PointerUp b x y now hits wd)
    then show ?thesis using assms by (simp add: pointerup_click_def endDrag_def)
  next
    case PointerCancel
    then show ?thesis by (simp add: endDrag_def)
  next
    case (Wheel c dx dy)
    then show ?thesis by (simp add: 2)
  next
    case (KeyDown k)
    then show ?thesis by (simp add: keydown_def closeModal_def Let_def)
  next
    case (KeyUp k)
    then show ?thesis by (simp add: keyup_def)
  next
    case ModalClose
    then show ?thesis by (simp add: closeModal_def)
  next
    case (Resize w h)
    then show ?thesis by (simp add: resize_def)
  next
    case (Frame d)
    then show ?thesis using animate_active_frame[OF assms] by simp
  qed
  show ?thesis using 1 2 3 4 animate_active_keys[OF assms] by simp
qed

theorem focus_suspends_look_walk_hover_witness:
  "focus_active focusing_room \<and>
   pointermove_drag 120 90 focusing_room = focusing_room \<and>
   wheel False 3 (-40) focusing_room = focusing_room \<and>
   pointermove_hover three [ghost_root] focusing_room = focusing_room \<and>
   yaw (step three focusing_room (Frame 0.016)) = 0.3 \<and>
   pitch (step three focusing_room (Frame 0.016)) = 0.1 \<and>
   hoveredRoot (step three focusing_room (Frame 0.016)) = Some door_root"
proof -
  have a: "focus_active focusing_room"
    by (simp add: focusing_room_def)
  have v: "yaw focusing_room = 0.3" "pitch focusing_room = 0.1"
    "hoveredRoot focusing_room = Some door_root"
    by (simp_all add: focusing_room_def)
  note T = focus_suspends_look_walk_hover[OF a, where x = 120 and y = 90 and ctrlKey = False
      and deltaX = 3 and deltaY = "-40" and f = three and hits = "[ghost_root]"
      and e = "Frame 0.016" and delta = 0 and K = "{}"]
  show ?thesis using a T v by simp
qed

section \<open>The room bounds after loading\<close>


lemma isEmpty_translate: "isEmpty (translate_box d b) = isEmpty b"
  by (cases b) (simp_all add: vadd_def)

lemma union_translate:
  "union_box (translate_box d a) (translate_box d b) = translate_box d (union_box a b)"
  by (cases a; cases b) (simp_all add: vadd_def min_def max_def)

lemma fold_union_translate:
  "fold (\<lambda>temp fallback. union_box fallback temp) (map (translate_box d) bs) (translate_box d acc) =
   translate_box d (fold (\<lambda>temp fallback. union_box fallback temp) bs acc)"
  by (induction bs arbitrary: acc) (simp_all add: union_translate)

lemma computeBoundsRobust_position_sub:
  "computeBoundsRobust (position_sub d g) =
   translate_box (multiplyScalar d (-1)) (computeBoundsRobust g)"
proof -
  have "fold (\<lambda>temp fallback. union_box fallback temp)
          (map (translate_box (multiplyScalar d (-1))) (room_meshBoxes g)) EmptyBox =
        translate_box (multiplyScalar d (-1))
          (fold (\<lambda>temp fallback. union_box fallback temp) (room_meshBoxes g) EmptyBox)"
    using fold_union_translate[of "multiplyScalar d (-1)" "room_meshBoxes g" EmptyBox] by simp
  then show ?thesis
    by (simp add: computeBoundsRobust_def position_sub_def isEmpty_translate Let_def)
qed

lemma bounds_of_lock [simp]: "bounds_of (lockStandingHeight s) = bounds_of s"
  by (simp add: lockStandingHeight_def bounds_of_def split: ext.splits)

lemma bounds_of_look [simp]: "bounds_of (updateLookTargetFromYawPitch s) = bounds_of s"
  by (simp add: updateLookTargetFromYawPitch_def bounds_of_def Let_def)

lemma bounds_of_clamp [simp]: "bounds_of (clampToRoomXZ s) = bounds_of s"
  using clampToRoomXZ_shape[of s] by (auto simp: bounds_of_def)

lemma bounds_of_roomLoaded: "bounds_of (s\<lparr>roomLoaded := b\<rparr>) = bounds_of s"
  by (simp add: bounds_of_def)

lemma roomLoaded_lock [simp]: "roomLoaded (lockStandingHeight s) = roomLoaded s"
  by (simp add: lockStandingHeight_def split: ext.splits)

lemma roomLoaded_look [simp]: "roomLoaded (updateLookTargetFromYawPitch s) = roomLoaded s"
  by (simp add: updateLookTargetFromYawPitch_def Let_def)

lemma roomLoaded_clamp [simp]: "roomLoaded (clampToRoomXZ s) = roomLoaded s"
  using clampToRoomXZ_shape[of s] by auto

lemma onLoad_empty:
  "isEmpty (computeBoundsRobust g) \<Longrightarrow> onLoad g s = s\<lparr>materials := room_materials g\<rparr>"
  by (simp add: onLoad_def Let_def)

lemma onLoad_nonempty:
  assumes "computeBoundsRobust g = Box3 mn mx" and "\<not> isEmpty (Box3 mn mx)"
  shows "roomLoaded (onLoad g s)"
    and "bounds_of (onLoad g s) =
          (Fin ((vy mn - vy mx) / 2),
           Fin ((vx mn - vx mx) / 2 + WALL_PADDING), Fin ((vx mx - vx mn) / 2 - WALL_PADDING),
           Fin ((vz mn - vz mx) / 2 + WALL_PADDING), Fin ((vz mx - vz mn) / 2 - WALL_PADDING))"
proof -
  have c: "getCenter (Box3 mn mx) = multiplyScalar (vadd mn mx) 0.5"
    using assms(2) by (simp add: getCenter_def)
  have b: "computeBoundsRobust (position_sub (getCenter (Box3 mn mx)) g) =
      Box3 (vadd mn (multiplyScalar (multiplyScalar (vadd mn mx) 0.5) (-1)))
           (vadd mx (multiplyScalar (multiplyScalar (vadd mn mx) 0.5) (-1)))"
    by (simp add: computeBoundsRobust_position_sub assms(1) c)
  show "roomLoaded (onLoad g s)"
    using assms by (simp add: onLoad_def Let_def)
  define s3 where "s3 = s\<lparr> materials := room_materials g,
       FLOOR_Y := Fin ((vy mn - vy mx) / 2),
       ROOM_MIN_X := Fin ((vx mn - vx mx) / 2 + WALL_PADDING),
       ROOM_MAX_X := Fin ((vx mx - vx mn) / 2 - WALL_PADDING),
       ROOM_MIN_Z := Fin ((vz mn - vz mx) / 2 + WALL_PADDING),
       ROOM_MAX_Z := Fin ((vz mx - vz mn) / 2 - WALL_PADDING),
       yaw := 0, pitch := 0,
       camera_position := Vector3 0 (vy (camera_position s)) 0.8 \<rparr>"
  have e: "onLoad g s = clampToRoomXZ (lockStandingHeight
      ((updateLookTargetFromYawPitch (lockStandingHeight s3))\<lparr>roomLoaded := True\<rparr>))"
    using assms
    by (simp add: onLoad_def Let_def b s3_def vadd_def multiplyScalar_def field_simps)
  have "bounds_of (onLoad g s) = bounds_of s3"
    unfolding e by (simp add: bounds_of_roomLoaded)
  then show "bounds_of (onLoad g s) =
          (Fin ((vy mn - vy mx) / 2),
           Fin ((vx mn - vx mx) / 2 + WALL_PADDING), Fin ((vx mx - vx mn) / 2 - WALL_PADDING),
           Fin ((vz mn - vz mx) / 2 + WALL_PADDING), Fin ((vz mx - vz mn) / 2 - WALL_PADDING))"
    by (simp add: bounds_of_def s3_def)
qed


lemma static_shape [simp]:
  "static (s\<lparr>camera_position := p, controls_target := t\<rparr>) = static s"
  "static (s\<lparr>camera_position := p\<rparr>) = static s"
  "static (s\<lparr>hoveredRoot := h, materials := m, highlightState := hs\<rparr>) = static s"
  by (simp_all add: static_def bounds_of_def)

lemma static_lock [simp]: "static (lockStandingHeight s) = static s"
  using lockStandingHeight_shape[of s] by (auto simp del: static_shape simp: static_def bounds_of_def)

lemma static_look [simp]: "static (updateLookTargetFromYawPitch s) = static s"
  by (simp add: updateLookTargetFromYawPitch_def static_def bounds_of_def Let_def)

lemma static_clamp [simp]: "static (clampToRoomXZ s) = static s"
  using clampToRoomXZ_shape[of s] by (auto simp del: static_shape simp: static_def bounds_of_def)

lemma static_setHoveredRoot [simp]: "static (setHoveredRoot f n s) = static s"
  using setHoveredRoot_shape[of f n s] by (auto simp del: static_shape simp: static_def bounds_of_def)

lemma static_openModal [simp]: "static (openModal p s) = static s"
  by (simp add: openModal_def static_def bounds_of_def)

lemma static_startFocus [simp]: "static (startFocus f wd r p s) = static s"
  by (simp add: startFocus_def split: option.splits) (simp add: static_def bounds_of_def)

lemma static_pointerup_click [simp]: "static (pointerup_click f b x y now hits wd s) = static s"
  by (simp add: pointerup_click_def Let_def split: list.splits option.splits)

lemma static_pointermove_hover [simp]: "static (pointermove_hover f hits s) = static s"
  by (simp add: pointermove_hover_def split: list.splits)

lemma static_pointermove_drag [simp]: "static (pointermove_drag x y s) = static s"
  by (simp add: pointermove_drag_def Let_def) (simp add: static_def bounds_of_def)

lemma static_wheel [simp]: "static (wheel c dx dy s) = static s"
  by (simp add: wheel_def Let_def) (simp add: static_def bounds_of_def)

lemma static_animate [simp]: "static (animate delta s) = static s"
proof (cases "roomLoaded s \<and> boundsAreFinite s")
  case False
  then show ?thesis by (simp add: animate_not_ready)
next
  case True
  show ?thesis
  proof (cases "focus_active s")
    case False
    then show ?thesis using animate_idle_shape[of s delta] by (auto simp del: static_shape simp: static_def bounds_of_def)
  next
    case a: True
    have "static (s\<lparr>focus_t := t, camera_position := p, controls_target := g\<rparr>) = static s" for t p g
      by (simp add: static_def bounds_of_def)
    moreover have "static (s'\<lparr>focus_active := False\<rparr>) = static s'" for s'
      by (simp add: static_def bounds_of_def)
    ultimately show ?thesis
      unfolding animate_active[OF a True[THEN conjunct1] True[THEN conjunct2]] Let_def
      by (simp split: option.splits)
  qed
qed

lemma static_step: "static (step f s e) = static s"
proof (cases e)
  case (PointerDown b x y now)
  then show ?thesis by (simp add: pointerdown_click_def pointerdown_drag_def static_def bounds_of_def)
next
  case (PointerUp b x y now hits wd)
  then show ?thesis by (simp add: endDrag_def) (simp add: static_def bounds_of_def)
next
  case PointerCancel
  then show ?thesis by (simp add: endDrag_def static_def bounds_of_def)
next
  case (KeyDown k)
  then show ?thesis by (simp add: keydown_def closeModal_def Let_def static_def bounds_of_def)
next
  case (KeyUp k)
  then show ?thesis by (simp add: keyup_def static_def bounds_of_def)
next
  case ModalClose
  then show ?thesis by (simp add: closeModal_def static_def bounds_of_def)
next
  case (Resize w h)
  then show ?thesis by (simp add: resize_def static_def bounds_of_def)
qed simp_all

lemma static_run: "static (run f s evs) = static s"
  unfolding run_def by (induction evs arbitrary: s) (simp_all add: static_step)

lemma ext_le_Fin: "ext_le (Fin a) (Fin b) = (a \<le> b)" by simp

text \<open>
  C5 (as amended). When the loaded scene has a non-empty bounding volume, the load
  callback sets the room-loaded flag and leaves all five bounds fields finite;
  \<open>minX \<le> maxX\<close> holds exactly when the room's extent along X is at least twice the wall
  padding, and likewise for Z, so the stated invariant holds for every room at least
  that wide and deep; and no later event (pointer, wheel, key, modal close, resize,
  frame) changes a bounds field or the flag.
\<close>

theorem bounds_after_load:
  assumes "\<not> isEmpty (computeBoundsRobust g)"
  shows "roomLoaded (onLoad g s) \<and>
         boundsAreFinite (onLoad g s) \<and>
         (ext_le (ROOM_MIN_X (onLoad g s)) (ROOM_MAX_X (onLoad g s)) \<longleftrightarrow>
            2 * WALL_PADDING \<le> vx (getSize (computeBoundsRobust g))) \<and>
         (ext_le (ROOM_MIN_Z (onLoad g s)) (ROOM_MAX_Z (onLoad g s)) \<longleftrightarrow>
            2 * WALL_PADDING \<le> vz (getSize (computeBoundsRobust g))) \<and>
         (2 * WALL_PADDING \<le> vx (getSize (computeBoundsRobust g)) \<and>
          2 * WALL_PADDING \<le> vz (getSize (computeBoundsRobust g)) \<longrightarrow>
            bounds_invariant (onLoad g s)) \<and>
         bounds_of (run f (onLoad g s) evs) = bounds_of (onLoad g s) \<and>
         roomLoaded (run f (onLoad g s) evs)"
proof -
  obtain mn mx where bx: "computeBoundsRobust g = Box3 mn mx"
    using assms by (cases "computeBoundsRobust g") auto
  have ne: "\<not> isEmpty (Box3 mn mx)" using assms bx by simp
  note L = onLoad_nonempty[OF bx ne, of s]
  have sz: "getSize (computeBoundsRobust g) = vsub mx mn"
    using ne by (simp add: bx getSize_def)
  have F: "FLOOR_Y (onLoad g s) = Fin ((vy mn - vy mx) / 2)"
    "ROOM_MIN_X (onLoad g s) = Fin ((vx mn - vx mx) / 2 + WALL_PADDING)"
    "ROOM_MAX_X (onLoad g s) = Fin ((vx mx - vx mn) / 2 - WALL_PADDING)"
    "ROOM_MIN_Z (onLoad g s) = Fin ((vz mn - vz mx) / 2 + WALL_PADDING)"
    "ROOM_MAX_Z (onLoad g s) = Fin ((vz mx - vz mn) / 2 - WALL_PADDING)"
    using L(2) by (simp_all add: bounds_of_def)
  have 1: "boundsAreFinite (onLoad g s)" by (simp add: boundsAreFinite_def F)
  have 2: "ext_le (ROOM_MIN_X (onLoad g s)) (ROOM_MAX_X (onLoad g s)) \<longleftrightarrow>
            2 * WALL_PADDING \<le> vx (getSize (computeBoundsRobust g))"
    unfolding F sz ext_le_Fin vsub_def vec3.sel by argo
  have 3: "ext_le (ROOM_MIN_Z (onLoad g s)) (ROOM_MAX_Z (onLoad g s)) \<longleftrightarrow>
            2 * WALL_PADDING \<le> vz (getSize (computeBoundsRobust g))"
    unfolding F sz ext_le_Fin vsub_def vec3.sel by argo
  have 4: "bounds_of (run f (onLoad g s) evs) = bounds_of (onLoad g s)"
    "roomLoaded (run f (onLoad g s) evs)"
    using static_run[of f "onLoad g s" evs] L(1) by (simp_all add: static_def)
  show ?thesis using L(1) 1 2 3 4 by (simp add: bounds_invariant_def)
qed

lemma narrow_room_box:
  "computeBoundsRobust narrow_room = Box3 (Vector3 0 0 0) (Vector3 0.2 3 5)"
  by (simp add: computeBoundsRobust_def narrow_room_def)

lemma wide_room_box:
  "computeBoundsRobust wide_room = Box3 (Vector3 0 0 0) (Vector3 10 3 10)"
  by (simp add: computeBoundsRobust_def wide_room_def)

text \<open>
  As the specification states it, the property fails for a room 20 cm wide: it loads
  (its bounding volume is not empty), and then \<open>minX = 0.1\<close> lies above
  \<open>maxX = -0.1\<close>.
\<close>

theorem bounds_after_load_counterexample:
  "\<not> isEmpty (computeBoundsRobust narrow_room) \<and>
   roomLoaded (onLoad narrow_room init_state) \<and>
   ROOM_MIN_X (onLoad narrow_room init_state) = Fin 0.1 \<and>
   ROOM_MAX_X (onLoad narrow_room init_state) = Fin (- 0.1) \<and>
   \<not> bounds_invariant (onLoad narrow_room init_state)"
proof -
  have ne: "\<not> isEmpty (Box3 (Vector3 0 0 0) (Vector3 0.2 3 5))" by simp
  note L = onLoad_nonempty[OF narrow_room_box ne, of init_state]
  have x: "ROOM_MIN_X (onLoad narrow_room init_state) = Fin 0.1"
    "ROOM_MAX_X (onLoad narrow_room init_state) = Fin (- 0.1)"
    using L(2) by (simp_all add: bounds_of_def WALL_PADDING_def)
  have "\<not> bounds_invariant (onLoad narrow_room init_state)"
    by (simp add: bounds_invariant_def x)
  then show ?thesis using L(1) x by (simp add: narrow_room_box)
qed

theorem bounds_after_load_witness:
  "\<not> isEmpty (computeBoundsRobust wide_room) \<and>
   roomLoaded (onLoad wide_room init_state) \<and>
   bounds_invariant (onLoad wide_room init_state) \<and>
   bounds_of (run three (onLoad wide_room init_state)
                [KeyDown ''w'', Frame 0.016, Wheel False 0 (- 100)]) =
     (Fin (- 1.5), Fin (- 4.8), Fin 4.8, Fin (- 4.8), Fin 4.8)"
proof -
  have ne: "\<not> isEmpty (Box3 (Vector3 0 0 0) (Vector3 10 3 10))" by simp
  then have ne': "\<not> isEmpty (computeBoundsRobust wide_room)" by (simp add: wide_room_box)
  have sz: "2 * WALL_PADDING \<le> vx (getSize (computeBoundsRobust wide_room)) \<and>
            2 * WALL_PADDING \<le> vz (getSize (computeBoundsRobust wide_room))"
    by (simp add: wide_room_box getSize_def vsub_def WALL_PADDING_def)
  note T = bounds_after_load[OF ne', where s = init_state and f = three
      and evs = "[KeyDown ''w'', Frame 0.016, Wheel False 0 (- 100)]"]
  have b: "bounds_of (onLoad wide_room init_state) =
      (Fin (- 1.5), Fin (- 4.8), Fin 4.8, Fin (- 4.8), Fin 4.8)"
    using onLoad_nonempty(2)[OF wide_room_box ne, of init_state]
    by (simp add: WALL_PADDING_def)
  show ?thesis using T sz ne' b by simp
qed

section \<open>Keyboard walk and the frame-time cap\<close>


lemma sin_cos_sq: "sin x * sin x + cos x * cos x = (1::real)"
  using sin_cos_squared_add[of x] by (simp add: power2_eq_square)

lemma normalize_vec_unit: "vlength v = 1 \<Longrightarrow> normalize_vec v = v"
  by (cases v) (simp add: normalize_vec_def multiplyScalar_def Let_def)

lemma getForwardXZFromYaw_eq:
  "getForwardXZFromYaw s = Vector3 (sin (yaw s)) 0 (- cos (yaw s))"
proof -
  have "vlength (Vector3 (sin (yaw s)) 0 (- cos (yaw s))) = 1"
    by (simp add: vlength_def lengthSq_def sin_cos_sq)
  then show ?thesis
    unfolding getForwardXZFromYaw_def by (rule normalize_vec_unit)
qed

lemma dirRight_eq: "dirRight s = Vector3 (cos (yaw s)) 0 (sin (yaw s))"
proof -
  have c: "crossVectors (Vector3 (sin (yaw s)) 0 (- cos (yaw s))) (Vector3 0 1 0) =
      Vector3 (cos (yaw s)) 0 (sin (yaw s))"
    by (simp add: crossVectors_def)
  have "vlength (Vector3 (cos (yaw s)) 0 (sin (yaw s))) = 1"
    using sin_cos_sq[of "yaw s"] by (simp add: vlength_def lengthSq_def add.commute)
  then show ?thesis
    unfolding dirRight_def getForwardXZFromYaw_eq c by (rule normalize_vec_unit)
qed

lemma walk_move_eq:
  "walk_move dt s =
     Vector3 (sin (yaw s) * (moveZ s * walk_speed s * dt) + cos (yaw s) * (moveX s * walk_speed s * dt))
             0
             (sin (yaw s) * (moveX s * walk_speed s * dt) - cos (yaw s) * (moveZ s * walk_speed s * dt))"
proof -
  note R = dirRight_eq[unfolded dirRight_def]
  show ?thesis
    unfolding walk_move_def Let_def R unfolding getForwardXZFromYaw_eq
    by (simp add: addScaledVector_def moveZ_def moveX_def walk_speed_def)
qed

lemma sq_rot: "(s * a + c * b) * (s * a + c * b) + (s * b - c * a) * (s * b - c * a) =
   (s * s + c * c) * (a * a + b * b)" for s a b c :: real
  by (simp add: algebra_simps)

lemma lengthSq_walk_move:
  "lengthSq (walk_move dt s) =
     (walk_speed s * dt) * (walk_speed s * dt) * (moveZ s * moveZ s + moveX s * moveX s)"
proof -
  have "lengthSq (walk_move dt s) =
     (sin (yaw s) * sin (yaw s) + cos (yaw s) * cos (yaw s)) *
     ((moveZ s * walk_speed s * dt) * (moveZ s * walk_speed s * dt) +
      (moveX s * walk_speed s * dt) * (moveX s * walk_speed s * dt))"
    unfolding walk_move_eq lengthSq_def vec3.sel by (simp add: sq_rot)
  also have "\<dots> = (moveZ s * walk_speed s * dt) * (moveZ s * walk_speed s * dt) +
      (moveX s * walk_speed s * dt) * (moveX s * walk_speed s * dt)"
    by (simp only: sin_cos_sq mult_1)
  also have "\<dots> = (walk_speed s * dt) * (walk_speed s * dt) * (moveZ s * moveZ s + moveX s * moveX s)"
    by (simp add: algebra_simps)
  finally show ?thesis .
qed

lemma walk_speed_nonneg: "0 \<le> walk_speed s"
  by (simp add: walk_speed_def WALK_SPEED_def SPRINT_MULT_def)

lemma walk_speed_le: "walk_speed s \<le> WALK_SPEED * SPRINT_MULT"
  by (simp add: walk_speed_def WALK_SPEED_def SPRINT_MULT_def)

lemma vlength_walk_move:
  assumes "0 \<le> dt"
  shows "vlength (walk_move dt s) =
     walk_speed s * dt * sqrt (moveZ s * moveZ s + moveX s * moveX s)"
proof -
  have nn: "0 \<le> walk_speed s * dt" using assms walk_speed_nonneg[of s] by simp
  have "vlength (walk_move dt s) =
     sqrt ((walk_speed s * dt) * (walk_speed s * dt)) * sqrt (moveZ s * moveZ s + moveX s * moveX s)"
    unfolding vlength_def lengthSq_walk_move by (rule real_sqrt_mult)
  also have "sqrt ((walk_speed s * dt) * (walk_speed s * dt)) = walk_speed s * dt"
    using nn by simp
  finally show ?thesis .
qed

lemma moveZ_cases: "moveZ s = -1 \<or> moveZ s = 0 \<or> moveZ s = 1"
  by (simp add: moveZ_def getMoveInput_def)

lemma moveX_cases: "moveX s = -1 \<or> moveX s = 0 \<or> moveX s = 1"
  by (simp add: moveX_def getMoveInput_def)

lemma rot_dot_fwd: "(s * a + c * b) * s + 0 * 0 + (s * b - c * a) * (- c) = (s * s + c * c) * a"
  for s a b c :: real
  by (simp add: algebra_simps)

lemma rot_dot_right: "(s * a + c * b) * c + 0 * 0 + (s * b - c * a) * s = (s * s + c * c) * b"
  for s a b c :: real
  by (simp add: algebra_simps)

lemma dot_walk_forward: "dot (walk_move dt s) (getForwardXZFromYaw s) = moveZ s * walk_speed s * dt"
proof -
  have "dot (walk_move dt s) (getForwardXZFromYaw s) =
    (sin (yaw s) * sin (yaw s) + cos (yaw s) * cos (yaw s)) * (moveZ s * walk_speed s * dt)"
    unfolding walk_move_eq getForwardXZFromYaw_eq dot_def vec3.sel by (rule rot_dot_fwd)
  also have "\<dots> = moveZ s * walk_speed s * dt" by (simp only: sin_cos_sq mult_1)
  finally show ?thesis .
qed

lemma dot_walk_right: "dot (walk_move dt s) (dirRight s) = moveX s * walk_speed s * dt"
proof -
  have "dot (walk_move dt s) (dirRight s) =
    (sin (yaw s) * sin (yaw s) + cos (yaw s) * cos (yaw s)) * (moveX s * walk_speed s * dt)"
    unfolding walk_move_eq dirRight_eq dot_def vec3.sel by (rule rot_dot_right)
  also have "\<dots> = moveX s * walk_speed s * dt" by (simp only: sin_cos_sq mult_1)
  finally show ?thesis .
qed

lemma animate_active_t:
  assumes "focus_active s" "roomLoaded s" "boundsAreFinite s"
  shows "focus_t (animate delta s) = focus_t s + min delta 0.05 / focus_dur s"
proof -
  define s3 where "s3 = s\<lparr>focus_t := focus_t s + min delta 0.05 / focus_dur s,
     camera_position := lerpVectors (focus_fromPos s) (focus_toPos s)
        (easeInOutCubic (min 1 (focus_t s + min delta 0.05 / focus_dur s))),
     controls_target := lerpVectors (focus_fromTarget s) (focus_toTarget s)
        (easeInOutCubic (min 1 (focus_t s + min delta 0.05 / focus_dur s)))\<rparr>"
  obtain p t where sh: "clampToRoomXZ s3 = s3\<lparr>camera_position := p, controls_target := t\<rparr>"
    using clampToRoomXZ_shape by blast
  show ?thesis
    unfolding animate_active[OF assms] Let_def s3_def[symmetric] sh
    by (simp add: s3_def openModal_def split: option.splits)
qed

lemma animate_idle:
  assumes "\<not> focus_active s" "roomLoaded s" "boundsAreFinite s"
  shows "animate delta s =
     clampToRoomXZ (updateLookTargetFromYawPitch (lockStandingHeight
       (s\<lparr>camera_position := vadd (camera_position s) (walk_move (min delta 0.05) s)\<rparr>)))"
proof (cases "moveZ s \<noteq> 0 \<or> moveX s \<noteq> 0")
  case True
  then show ?thesis using assms
    unfolding animate_def moveZ_def moveX_def by (simp only: Let_def if_True if_False simp_thms)
next
  case False
  then have "walk_move (min delta 0.05) s = Vector3 0 0 0"
    by (simp add: walk_move_eq)
  then have "s\<lparr>camera_position := vadd (camera_position s) (walk_move (min delta 0.05) s)\<rparr> = s"
    by (simp add: vadd_def)
  then show ?thesis using assms False
    unfolding animate_def moveZ_def moveX_def by (simp only: Let_def if_True if_False simp_thms)
qed


text \<open>
  C6 (as amended). In a frame of keyboard walking the held keys give a forward/right
  input pair whose components are each -1, 0 or 1; the pair is not normalised. The
  vector added to the camera position has length
  \<open>speed * dt * sqrt (moveZ\<^sup>2 + moveX\<^sup>2)\<close>, where \<open>speed\<close> is the walk speed (times the sprint
  multiplier when Shift is held) and \<open>dt\<close> the capped frame time: \<open>speed * dt\<close> when
  only one axis is held, and \<open>sqrt 2\<close> times that when a forward or backward key is
  held together with a sideways key. The camera then moves by that vector, followed by
  the standing-height lock and the room clamp.
\<close>

theorem keyboard_walk_displacement:
  assumes "0 \<le> delta"
  shows "(moveZ s = -1 \<or> moveZ s = 0 \<or> moveZ s = 1) \<and>
         (moveX s = -1 \<or> moveX s = 0 \<or> moveX s = 1) \<and>
         vlength (walk_move (min delta 0.05) s) =
           walk_speed s * min delta 0.05 * sqrt (moveZ s * moveZ s + moveX s * moveX s) \<and>
         ((moveZ s = 0) \<noteq> (moveX s = 0) \<longrightarrow>
            vlength (walk_move (min delta 0.05) s) = walk_speed s * min delta 0.05) \<and>
         (moveZ s \<noteq> 0 \<and> moveX s \<noteq> 0 \<longrightarrow>
            vlength (walk_move (min delta 0.05) s) = sqrt 2 * (walk_speed s * min delta 0.05)) \<and>
         (\<not> focus_active s \<and> roomLoaded s \<and> boundsAreFinite s \<longrightarrow>
            animate delta s =
              clampToRoomXZ (updateLookTargetFromYawPitch (lockStandingHeight
                (s\<lparr>camera_position :=
                     vadd (camera_position s) (walk_move (min delta 0.05) s)\<rparr>))))"
proof -
  have dt: "0 \<le> min delta 0.05" using assms by simp
  note V = vlength_walk_move[OF dt, of s]
  have one: "(moveZ s = 0) \<noteq> (moveX s = 0) \<Longrightarrow>
      sqrt (moveZ s * moveZ s + moveX s * moveX s) = 1"
    using moveZ_cases[of s] moveX_cases[of s] by auto
  have two: "moveZ s \<noteq> 0 \<and> moveX s \<noteq> 0 \<Longrightarrow>
      sqrt (moveZ s * moveZ s + moveX s * moveX s) = sqrt 2"
    using moveZ_cases[of s] moveX_cases[of s] by auto
  have 4: "(moveZ s = 0) \<noteq> (moveX s = 0) \<longrightarrow>
            vlength (walk_move (min delta 0.05) s) = walk_speed s * min delta 0.05"
    using V one by simp
  have 5: "moveZ s \<noteq> 0 \<and> moveX s \<noteq> 0 \<longrightarrow>
            vlength (walk_move (min delta 0.05) s) = sqrt 2 * (walk_speed s * min delta 0.05)"
    using V two by simp
  have 6: "\<not> focus_active s \<and> roomLoaded s \<and> boundsAreFinite s \<longrightarrow>
            animate delta s =
              clampToRoomXZ (updateLookTargetFromYawPitch (lockStandingHeight
                (s\<lparr>camera_position :=
                     vadd (camera_position s) (walk_move (min delta 0.05) s)\<rparr>)))"
    using animate_idle[of s delta] by blast
  show ?thesis using moveZ_cases[of s] moveX_cases[of s] V 4 5 6 by blast
qed

lemma walk_fwd_facts:
  "moveZ walk_fwd = 1" "moveX walk_fwd = 0" "walk_speed walk_fwd = 1.25" "yaw walk_fwd = 0"
  "\<not> focus_active walk_fwd" "roomLoaded walk_fwd" "boundsAreFinite walk_fwd"
  by (simp_all add: walk_fwd_def room10_def init_state_def moveZ_def moveX_def walk_speed_def
      getMoveInput_def WALK_SPEED_def boundsAreFinite_def)

lemma walk_diag_facts:
  "moveZ walk_diag = 1" "moveX walk_diag = 1" "walk_speed walk_diag = 1.25" "yaw walk_diag = 0"
  "\<not> focus_active walk_diag" "roomLoaded walk_diag" "boundsAreFinite walk_diag"
  by (simp_all add: walk_diag_def room10_def init_state_def moveZ_def moveX_def walk_speed_def
      getMoveInput_def WALK_SPEED_def boundsAreFinite_def)

lemma walk_fwd_move: "walk_move 0.05 walk_fwd = Vector3 0 0 (- 0.0625)"
  by (simp add: walk_move_eq walk_fwd_facts)

lemma walk_diag_move: "walk_move 0.05 walk_diag = Vector3 0.0625 0 (- 0.0625)"
  by (simp add: walk_move_eq walk_diag_facts)

lemma camera_after_walk:
  assumes "FLOOR_Y s = Fin 0" "ROOM_MIN_X s = Fin (-5)" "ROOM_MAX_X s = Fin 5"
    "ROOM_MIN_Z s = Fin (-5)" "ROOM_MAX_Z s = Fin 5" "roomLoaded s"
  shows "camera_position (clampToRoomXZ (updateLookTargetFromYawPitch (lockStandingHeight
           (s\<lparr>camera_position := p\<rparr>)))) =
         Vector3 (clamp (vx p) (-5) 5) 1.65 (clamp (vz p) (-5) 5)"
  using assms
  by (simp add: clampToRoomXZ_def boundsAreFinite_def updateLookTargetFromYawPitch_def
      lockStandingHeight_def Let_def clampXZ_def FLOOR_PADDING_def EYE_HEIGHT_def)

lemma room10_bounds:
  "FLOOR_Y walk_fwd = Fin 0" "ROOM_MIN_X walk_fwd = Fin (-5)" "ROOM_MAX_X walk_fwd = Fin 5"
  "ROOM_MIN_Z walk_fwd = Fin (-5)" "ROOM_MAX_Z walk_fwd = Fin 5"
  "camera_position walk_fwd = Vector3 0 1.65 0"
  "FLOOR_Y walk_diag = Fin 0" "ROOM_MIN_X walk_diag = Fin (-5)" "ROOM_MAX_X walk_diag = Fin 5"
  "ROOM_MIN_Z walk_diag = Fin (-5)" "ROOM_MAX_Z walk_diag = Fin 5"
  "camera_position walk_diag = Vector3 0 1.65 0"
  by (simp_all add: walk_fwd_def walk_diag_def room10_def init_state_def)

text \<open>
  As the specification states it, the property fails: from the same position, one frame
  of 0.05 s with W held moves the camera by 0.0625, and with W and D held by
  \<open>sqrt 2 * 0.0625\<close>, which is more.
\<close>

theorem keyboard_walk_diagonal_counterexample:
  "moveZ walk_fwd = 1 \<and> moveX walk_fwd = 0 \<and> moveZ walk_diag = 1 \<and> moveX walk_diag = 1 \<and>
   camera_position walk_fwd = Vector3 0 1.65 0 \<and>
   camera_position walk_diag = Vector3 0 1.65 0 \<and>
   camera_position (animate 0.05 walk_fwd) = Vector3 0 1.65 (- 0.0625) \<and>
   camera_position (animate 0.05 walk_diag) = Vector3 0.0625 1.65 (- 0.0625) \<and>
   vlength (walk_move 0.05 walk_fwd) = WALK_SPEED * 0.05 \<and>
   vlength (walk_move 0.05 walk_diag) = sqrt 2 * (WALK_SPEED * 0.05) \<and>
   vlength (walk_move 0.05 walk_fwd) < vlength (walk_move 0.05 walk_diag)"
proof -
  have m: "min (0.05::real) 0.05 = 0.05" by simp
  have a1: "camera_position (animate 0.05 walk_fwd) = Vector3 0 1.65 (- 0.0625)"
    unfolding animate_idle[OF walk_fwd_facts(5,6,7)] m walk_fwd_move
    by (simp add: camera_after_walk room10_bounds walk_fwd_facts vadd_def clamp_def)
  have a2: "camera_position (animate 0.05 walk_diag) = Vector3 0.0625 1.65 (- 0.0625)"
    unfolding animate_idle[OF walk_diag_facts(5,6,7)] m walk_diag_move
    by (simp add: camera_after_walk room10_bounds walk_diag_facts vadd_def clamp_def)
  have l1: "vlength (walk_move 0.05 walk_fwd) = WALK_SPEED * 0.05"
    using vlength_walk_move[where dt = "0.05" and s = walk_fwd] by (simp add: walk_fwd_facts WALK_SPEED_def)
  have l2: "vlength (walk_move 0.05 walk_diag) = sqrt 2 * (WALK_SPEED * 0.05)"
    using vlength_walk_move[where dt = "0.05" and s = walk_diag] by (simp add: walk_diag_facts WALK_SPEED_def)
  have "(1::real) < sqrt 2" by simp
  then have l3: "vlength (walk_move 0.05 walk_fwd) < vlength (walk_move 0.05 walk_diag)"
    unfolding l1 l2 by (simp add: WALK_SPEED_def)
  show ?thesis using a1 a2 l1 l2 l3 by (simp add: walk_fwd_facts walk_diag_facts room10_bounds)
qed

theorem keyboard_walk_displacement_witness:
  "vlength (walk_move (min 0.02 0.05) walk_fwd) = walk_speed walk_fwd * min 0.02 0.05 \<and>
   vlength (walk_move (min 0.05 0.05) walk_diag) = sqrt 2 * (walk_speed walk_diag * min 0.05 0.05)"
proof -
  have 1: "(moveZ walk_fwd = 0) \<noteq> (moveX walk_fwd = 0)" by (simp add: walk_fwd_facts)
  have 2: "moveZ walk_diag \<noteq> 0 \<and> moveX walk_diag \<noteq> 0" by (simp add: walk_diag_facts)
  have d: "(0::real) \<le> 0.02" "(0::real) \<le> 0.05" by simp_all
  show ?thesis
    using keyboard_walk_displacement[OF d(1), of walk_fwd]
      keyboard_walk_displacement[OF d(2), of walk_diag] 1 2 by blast
qed

text \<open>
  C10. A frame uses \<open>dt = min delta 0.05\<close>, whatever the real elapsed time \<open>delta \<ge> 0\<close> is.
  So one frame of an active focus transition (of positive duration) advances its
  progress by \<open>dt / duration\<close>, at most \<open>0.05 / duration\<close>; and in an idle frame the
  vector that the keyboard walk adds to the camera position is a multiple of the
  forward direction plus a multiple of the right direction, each of magnitude at most
  walk speed times sprint multiplier times 0.05.
\<close>

theorem frame_delta_capped:
  assumes "0 \<le> delta"
  shows "animate delta s = animate (min delta 0.05) s \<and>
         (focus_active s \<and> roomLoaded s \<and> boundsAreFinite s \<and> 0 < focus_dur s \<longrightarrow>
            focus_t (animate delta s) = focus_t s + min delta 0.05 / focus_dur s \<and>
            focus_t (animate delta s) - focus_t s \<le> 0.05 / focus_dur s) \<and>
         (\<not> focus_active s \<and> roomLoaded s \<and> boundsAreFinite s \<longrightarrow>
            animate delta s =
              clampToRoomXZ (updateLookTargetFromYawPitch (lockStandingHeight
                (s\<lparr>camera_position :=
                     vadd (camera_position s) (walk_move (min delta 0.05) s)\<rparr>)))) \<and>
         walk_move (min delta 0.05) s =
           addScaledVector
             (addScaledVector (Vector3 0 0 0) (getForwardXZFromYaw s)
                (dot (walk_move (min delta 0.05) s) (getForwardXZFromYaw s)))
             (dirRight s) (dot (walk_move (min delta 0.05) s) (dirRight s)) \<and>
         \<bar>dot (walk_move (min delta 0.05) s) (getForwardXZFromYaw s)\<bar>
           \<le> WALK_SPEED * SPRINT_MULT * 0.05 \<and>
         \<bar>dot (walk_move (min delta 0.05) s) (dirRight s)\<bar>
           \<le> WALK_SPEED * SPRINT_MULT * 0.05"
proof -
  have 1: "animate delta s = animate (min delta 0.05) s"
    by (simp add: animate_def)
  have 2: "focus_active s \<and> roomLoaded s \<and> boundsAreFinite s \<and> 0 < focus_dur s \<longrightarrow>
            focus_t (animate delta s) = focus_t s + min delta 0.05 / focus_dur s \<and>
            focus_t (animate delta s) - focus_t s \<le> 0.05 / focus_dur s"
  proof
    assume a: "focus_active s \<and> roomLoaded s \<and> boundsAreFinite s \<and> 0 < focus_dur s"
    have t: "focus_t (animate delta s) = focus_t s + min delta 0.05 / focus_dur s"
      using animate_active_t[of s delta] a by simp
    have "min delta 0.05 / focus_dur s \<le> 0.05 / focus_dur s"
      using a by (intro divide_right_mono) simp_all
    then show "focus_t (animate delta s) = focus_t s + min delta 0.05 / focus_dur s \<and>
            focus_t (animate delta s) - focus_t s \<le> 0.05 / focus_dur s"
      using t by simp
  qed
  have 3: "\<not> focus_active s \<and> roomLoaded s \<and> boundsAreFinite s \<longrightarrow>
            animate delta s =
              clampToRoomXZ (updateLookTargetFromYawPitch (lockStandingHeight
                (s\<lparr>camera_position :=
                     vadd (camera_position s) (walk_move (min delta 0.05) s)\<rparr>)))"
    using animate_idle[of s delta] by blast
  have 4: "walk_move (min delta 0.05) s =
           addScaledVector
             (addScaledVector (Vector3 0 0 0) (getForwardXZFromYaw s)
                (dot (walk_move (min delta 0.05) s) (getForwardXZFromYaw s)))
             (dirRight s) (dot (walk_move (min delta 0.05) s) (dirRight s))"
    unfolding dot_walk_forward dot_walk_right
    by (simp add: walk_move_def Let_def moveZ_def moveX_def walk_speed_def dirRight_def)
  have dt: "0 \<le> min delta 0.05" "min delta 0.05 \<le> 0.05" using assms by simp_all
  have b: "\<bar>m * walk_speed s * min delta 0.05\<bar> \<le> WALK_SPEED * SPRINT_MULT * 0.05"
    if "m = -1 \<or> m = 0 \<or> m = 1" for m :: real
  proof -
    have "\<bar>m * walk_speed s * min delta 0.05\<bar> = \<bar>m\<bar> * (walk_speed s * min delta 0.05)"
      using dt walk_speed_nonneg[of s] by (simp add: abs_mult)
    also have "\<dots> \<le> 1 * (walk_speed s * min delta 0.05)"
      using that dt walk_speed_nonneg[of s] by (intro mult_right_mono) auto
    also have "\<dots> = walk_speed s * min delta 0.05" by simp
    also have "\<dots> \<le> (WALK_SPEED * SPRINT_MULT) * 0.05"
    proof (rule mult_mono[OF walk_speed_le dt(2) _ dt(1)])
      show "0 \<le> WALK_SPEED * SPRINT_MULT" by (simp add: WALK_SPEED_def SPRINT_MULT_def)
    qed
    finally show ?thesis .
  qed
  show ?thesis
    using 1 2 3 4 b[OF moveZ_cases[of s]] b[OF moveX_cases[of s]]
    unfolding dot_walk_forward dot_walk_right by blast
qed

theorem frame_delta_capped_witness:
  "animate 10 focusing_room = animate (min 10 0.05) focusing_room \<and>
   focus_t (animate 10 focusing_room) = 0.5 + 0.05 / 0.55 \<and>
   focus_t (animate 10 focusing_room) - focus_t focusing_room \<le> 0.05 / focus_dur focusing_room \<and>
   \<bar>dot (walk_move (min 10 0.05) walk_diag) (dirRight walk_diag)\<bar>
     \<le> WALK_SPEED * SPRINT_MULT * 0.05"
proof -
  have d: "(0::real) \<le> 10" by simp
  have a: "focus_active focusing_room \<and> roomLoaded focusing_room \<and>
      boundsAreFinite focusing_room \<and> 0 < focus_dur focusing_room"
    by (simp add: focusing_room_def room10_def init_state_def boundsAreFinite_def)
  have v: "focus_t focusing_room = 0.5" "focus_dur focusing_room = 0.55"
    by (simp_all add: focusing_room_def room10_def init_state_def)
  note T = frame_delta_capped[OF d, of focusing_room]
  note T1 = T[THEN conjunct1]
  note T2 = T[THEN conjunct2, THEN conjunct1, THEN mp, OF a]
  note W = frame_delta_capped[OF d, of walk_diag]
  have m: "min (10::real) 0.05 = 0.05" by simp
  have "focus_t (animate 10 focusing_room) = 0.5 + 0.05 / 0.55"
    using T2[THEN conjunct1] unfolding v m by simp
  then show ?thesis using T1 T2 W by blast
qed

section \<open>Completion of a focus transition\<close>


lemma easeInOutCubic_1: "easeInOutCubic 1 = 1"
  by (simp add: easeInOutCubic_def)

lemma lerpVectors_1: "lerpVectors a b 1 = b"
  by (cases b) (simp add: lerpVectors_def)

lemma animate_active_fin:
  assumes "focus_active s" "roomLoaded s" "FLOOR_Y s = Fin f"
    "ROOM_MIN_X s = Fin x0" "ROOM_MAX_X s = Fin x1" "ROOM_MIN_Z s = Fin z0" "ROOM_MAX_Z s = Fin z1"
  shows "animate delta s =
     (let t = focus_t s + min delta 0.05 / focus_dur s;
          s1 = s\<lparr> focus_t := t,
                   camera_position := clampXZ x0 x1 z0 z1
                     (lerpVectors (focus_fromPos s) (focus_toPos s) (easeInOutCubic (min 1 t))),
                   controls_target := clampXZ x0 x1 z0 z1
                     (lerpVectors (focus_fromTarget s) (focus_toTarget s)
                        (easeInOutCubic (min 1 t))) \<rparr>
      in if t \<ge> 1 then
           (case focus_openModalOnDone s of
              Some p \<Rightarrow> openModal p (s1\<lparr>focus_active := False\<rparr>)
            | None \<Rightarrow> s1\<lparr>focus_active := False\<rparr>)
         else s1)"
proof -
  have bf: "boundsAreFinite s" using assms by (simp add: boundsAreFinite_def)
  have c: "clampToRoomXZ (s\<lparr>focus_t := t, camera_position := p, controls_target := g\<rparr>) =
      s\<lparr>focus_t := t, camera_position := clampXZ x0 x1 z0 z1 p,
        controls_target := clampXZ x0 x1 z0 z1 g\<rparr>" for t p g
    using assms
    by (subst clampToRoomXZ_fin[where f = f and ?x0.0 = x0 and ?x1.0 = x1 and ?z0.0 = z0 and ?z1.0 = z1])
       simp_all
  show ?thesis
    unfolding animate_active[OF assms(1,2) bf] c ..
qed

lemma ticks_Nil [simp]: "ticks [] = 0" by (simp add: ticks_def)
lemma ticks_Cons [simp]: "ticks (d # ds) = min d 0.05 + ticks ds" by (simp add: ticks_def)
lemma ticks_append [simp]: "ticks (xs @ ys) = ticks xs + ticks ys" by (simp add: ticks_def)

lemma ticks_nonneg: "\<forall>d\<in>set ds. 0 \<le> d \<Longrightarrow> 0 \<le> ticks ds"
  by (induction ds) auto

lemma run_frames_Cons [simp]: "run_frames (d # ds) s = run_frames ds (animate d s)"
  by (simp add: run_frames_def)
lemma run_frames_Nil [simp]: "run_frames [] s = s"
  by (simp add: run_frames_def)
lemma run_frames_append [simp]: "run_frames (xs @ ys) s = run_frames ys (run_frames xs s)"
  by (simp add: run_frames_def)

lemma run_frames_progress:
  assumes "focus_active s" "roomLoaded s" "FLOOR_Y s = Fin f"
    "ROOM_MIN_X s = Fin x0" "ROOM_MAX_X s = Fin x1" "ROOM_MIN_Z s = Fin z0" "ROOM_MAX_Z s = Fin z1"
    and "0 < focus_dur s" and "\<forall>d\<in>set pre. 0 \<le> d"
    and "focus_t s + ticks pre / focus_dur s < 1"
  shows "\<exists>P T. run_frames pre s =
     s\<lparr>focus_t := focus_t s + ticks pre / focus_dur s, camera_position := P, controls_target := T\<rparr>"
  using assms
proof (induction pre arbitrary: s)
  case Nil
  have "run_frames [] s = s\<lparr>focus_t := focus_t s + ticks [] / focus_dur s,
      camera_position := camera_position s, controls_target := controls_target s\<rparr>"
    by simp
  then show ?case by blast
next
  case (Cons d ds)
  define t1 where "t1 = focus_t s + min d 0.05 / focus_dur s"
  have nn: "0 \<le> ticks ds" using Cons.prems(9) by (intro ticks_nonneg) simp
  then have "0 \<le> ticks ds / focus_dur s" using Cons.prems(8) by simp
  moreover have tt: "focus_t s + ticks (d # ds) / focus_dur s = t1 + ticks ds / focus_dur s"
    by (simp add: t1_def add_divide_distrib)
  ultimately have t1: "t1 < 1" using Cons.prems(10) by simp
  define s1 where "s1 = s\<lparr> focus_t := t1,
                   camera_position := clampXZ x0 x1 z0 z1
                     (lerpVectors (focus_fromPos s) (focus_toPos s) (easeInOutCubic (min 1 t1))),
                   controls_target := clampXZ x0 x1 z0 z1
                     (lerpVectors (focus_fromTarget s) (focus_toTarget s)
                        (easeInOutCubic (min 1 t1))) \<rparr>"
  have a: "animate d s = s1"
    unfolding animate_active_fin[OF Cons.prems(1-7)] Let_def t1_def[symmetric] s1_def[symmetric]
    using t1 by simp
  have p: "focus_active s1" "roomLoaded s1" "FLOOR_Y s1 = Fin f"
    "ROOM_MIN_X s1 = Fin x0" "ROOM_MAX_X s1 = Fin x1" "ROOM_MIN_Z s1 = Fin z0" "ROOM_MAX_Z s1 = Fin z1"
    "0 < focus_dur s1" "focus_dur s1 = focus_dur s" "focus_t s1 = t1"
    using Cons.prems by (simp_all add: s1_def)
  have "\<forall>d\<in>set ds. 0 \<le> d" using Cons.prems(9) by simp
  moreover have "focus_t s1 + ticks ds / focus_dur s1 < 1"
    using Cons.prems(10) tt by (simp add: p)
  ultimately obtain P T where
    "run_frames ds s1 = s1\<lparr>focus_t := focus_t s1 + ticks ds / focus_dur s1,
        camera_position := P, controls_target := T\<rparr>"
    using Cons.IH[OF p(1-8)] by blast
  then have "run_frames (d # ds) s = s1\<lparr>focus_t := focus_t s + ticks (d # ds) / focus_dur s,
        camera_position := P, controls_target := T\<rparr>"
    by (simp add: a p t1_def add_divide_distrib)
  also have "\<dots> = s\<lparr>focus_t := focus_t s + ticks (d # ds) / focus_dur s,
        camera_position := P, controls_target := T\<rparr>"
    by (simp add: s1_def)
  finally show ?case by blast
qed


lemma clampXZ_inside:
  "x0 \<le> vx p \<Longrightarrow> vx p \<le> x1 \<Longrightarrow> z0 \<le> vz p \<Longrightarrow> vz p \<le> z1 \<Longrightarrow>
   clampXZ x0 x1 z0 z1 p = p"
  by (cases p) (simp add: clampXZ_def clamp_def)

lemma focus_run:
  assumes "focus_active s" "roomLoaded s" "FLOOR_Y s = Fin f"
    "ROOM_MIN_X s = Fin x0" "ROOM_MAX_X s = Fin x1" "ROOM_MIN_Z s = Fin z0" "ROOM_MAX_Z s = Fin z1"
    and "0 < focus_dur s" and "\<forall>d\<in>set pre. 0 \<le> d"
    and "focus_t s = 0" and "focus_openModalOnDone s = Some p"
    and "ticks pre < focus_dur s" and "focus_dur s \<le> ticks (pre @ [d])"
  shows "focus_active (run_frames pre s)"
    and "openModal_calls (run_frames pre s) = openModal_calls s"
    and "\<not> focus_active (run_frames (pre @ [d]) s)"
    and "camera_position (run_frames (pre @ [d]) s) = clampXZ x0 x1 z0 z1 (focus_toPos s)"
    and "controls_target (run_frames (pre @ [d]) s) = clampXZ x0 x1 z0 z1 (focus_toTarget s)"
    and "openModal_calls (run_frames (pre @ [d]) s) = openModal_calls s @ [p]"
    and "modalOpen (run_frames (pre @ [d]) s)"
    and "modalTitle (run_frames (pre @ [d]) s) = (if title p = [] then ''Info'' else title p)"
    and "modalBody (run_frames (pre @ [d]) s) = html p"
    and "\<not> focus_active (run_frames (pre @ d # post) s)"
    and "openModal_calls (run_frames (pre @ d # post) s) = openModal_calls s @ [p]"
proof -
  have lt: "focus_t s + ticks pre / focus_dur s < 1"
    using assms(8,10,12) by simp
  obtain P T where pre: "run_frames pre s =
     s\<lparr>focus_t := focus_t s + ticks pre / focus_dur s, camera_position := P, controls_target := T\<rparr>"
    using run_frames_progress[OF assms(1-9) lt] by blast
  define s1 where "s1 = run_frames pre s"
  have p1: "focus_active s1" "roomLoaded s1" "FLOOR_Y s1 = Fin f"
    "ROOM_MIN_X s1 = Fin x0" "ROOM_MAX_X s1 = Fin x1" "ROOM_MIN_Z s1 = Fin z0" "ROOM_MAX_Z s1 = Fin z1"
    "focus_dur s1 = focus_dur s" "focus_t s1 = ticks pre / focus_dur s"
    "focus_openModalOnDone s1 = Some p" "openModal_calls s1 = openModal_calls s"
    "focus_fromPos s1 = focus_fromPos s" "focus_toPos s1 = focus_toPos s"
    "focus_fromTarget s1 = focus_fromTarget s" "focus_toTarget s1 = focus_toTarget s"
    unfolding s1_def pre using assms by simp_all
  show "focus_active (run_frames pre s)" "openModal_calls (run_frames pre s) = openModal_calls s"
    using p1 by (simp_all add: s1_def)
  define t where "t = focus_t s1 + min d 0.05 / focus_dur s1"
  have "t = ticks (pre @ [d]) / focus_dur s"
    by (simp add: t_def p1 add_divide_distrib)
  then have t1: "1 \<le> t" using assms(8,13) by simp
  then have m: "min 1 t = 1" by simp
  define s2 where "s2 = s1\<lparr> focus_t := t,
       camera_position := clampXZ x0 x1 z0 z1 (focus_toPos s),
       controls_target := clampXZ x0 x1 z0 z1 (focus_toTarget s),
       focus_active := False \<rparr>"
  have a: "animate d s1 = openModal p s2"
    unfolding animate_active_fin[OF p1(1-7)] Let_def t_def[symmetric]
    using t1 by (simp add: p1 m easeInOutCubic_1 lerpVectors_1 s2_def)
  have r: "run_frames (pre @ [d]) s = openModal p s2"
    by (simp add: s1_def[symmetric] a)
  show "\<not> focus_active (run_frames (pre @ [d]) s)"
    and "camera_position (run_frames (pre @ [d]) s) = clampXZ x0 x1 z0 z1 (focus_toPos s)"
    and "controls_target (run_frames (pre @ [d]) s) = clampXZ x0 x1 z0 z1 (focus_toTarget s)"
    and "openModal_calls (run_frames (pre @ [d]) s) = openModal_calls s @ [p]"
    and "modalOpen (run_frames (pre @ [d]) s)"
    and "modalTitle (run_frames (pre @ [d]) s) = (if title p = [] then ''Info'' else title p)"
    and "modalBody (run_frames (pre @ [d]) s) = html p"
    unfolding r by (simp_all add: openModal_def s2_def p1)
  have i: "\<not> focus_active (openModal p s2)" by (simp add: openModal_def s2_def)
  obtain P' T' where "run_frames post (openModal p s2) =
      (openModal p s2)\<lparr>camera_position := P', controls_target := T'\<rparr>"
    using run_frames_idle_shape[OF i] by blast
  moreover have "run_frames (pre @ d # post) s = run_frames post (openModal p s2)"
    using r by simp
  ultimately have e: "run_frames (pre @ d # post) s =
      (openModal p s2)\<lparr>camera_position := P', controls_target := T'\<rparr>" by simp
  show "\<not> focus_active (run_frames (pre @ d # post) s)"
    and "openModal_calls (run_frames (pre @ d # post) s) = openModal_calls s @ [p]"
    unfolding e by (simp_all add: openModal_def s2_def p1)
qed


lemma click_starts_focus:
  assumes "roomLoaded s" "\<not> focus_active s" "\<not> modalOpen s" "findClickableRoot hit = Some r"
  shows "step f (step f s (PointerDown 0 x y t0)) (PointerUp 0 x y (t0 + 50) (hit # hits) wd) =
         startFocus f wd r (Some (click_payload r))
           (endDrag (pointerdown_click 0 x y t0 (pointerdown_drag 0 x y s)))"
proof -
  define s1 where "s1 = endDrag (pointerdown_click 0 x y t0 (pointerdown_drag 0 x y s))"
  have s1: "roomLoaded s1" "\<not> focus_active s1" "\<not> modalOpen s1"
    "clickDownPos s1 = (x, y)" "clickDownTime s1 = t0"
    using assms by (simp_all add: s1_def endDrag_def pointerdown_click_def pointerdown_drag_def)
  have "\<not> hypot (x - fst (clickDownPos s1)) (y - snd (clickDownPos s1)) > 6"
    by (simp add: s1 hypot_def)
  then have "pointerup_click f 0 x y (t0 + 50) (hit # hits) wd s1 =
      startFocus f wd r (Some (click_payload r)) s1"
    using assms s1 by (simp add: pointerup_click_def Let_def)
  then show ?thesis by (simp add: s1_def)
qed

text \<open>
  C1 (as amended). Take a focus transition that has just been started (active, elapsed
  progress zero) with duration \<open>D > 0\<close> and a completion payload \<open>p\<close>, in a loaded room
  with finite bounds, and feed it frames of non-negative length; the time a frame
  contributes is its capped delta. As long as the accumulated time stays below \<open>D\<close> the
  transition stays active and no modal is opened. In the frame with which the
  accumulated time reaches \<open>D\<close> the transition becomes idle, the camera position is the
  destination pose clamped to the room's XZ bounds (the destination itself when it
  lies within the bounds) and the look target the clamped destination target, and
  \<open>openModal\<close> is called with \<open>p\<close>. In all frames after that the transition stays idle
  and no further call is made: one transition to idle, one delivery.
\<close>

theorem focus_completion:
  assumes "focus_active s" and "roomLoaded s" and "FLOOR_Y s = Fin f"
    and "ROOM_MIN_X s = Fin x0" and "ROOM_MAX_X s = Fin x1"
    and "ROOM_MIN_Z s = Fin z0" and "ROOM_MAX_Z s = Fin z1"
    and "0 < focus_dur s" and "\<forall>d\<in>set pre. 0 \<le> d"
    and "focus_t s = 0" and "focus_openModalOnDone s = Some p"
    and "ticks pre < focus_dur s" and "focus_dur s \<le> ticks (pre @ [d])"
  shows "focus_active (run_frames pre s) \<and>
         openModal_calls (run_frames pre s) = openModal_calls s \<and>
         \<not> focus_active (run_frames (pre @ [d]) s) \<and>
         camera_position (run_frames (pre @ [d]) s) = clampXZ x0 x1 z0 z1 (focus_toPos s) \<and>
         (x0 \<le> vx (focus_toPos s) \<and> vx (focus_toPos s) \<le> x1 \<and>
          z0 \<le> vz (focus_toPos s) \<and> vz (focus_toPos s) \<le> z1 \<longrightarrow>
            camera_position (run_frames (pre @ [d]) s) = focus_toPos s) \<and>
         controls_target (run_frames (pre @ [d]) s) = clampXZ x0 x1 z0 z1 (focus_toTarget s) \<and>
         openModal_calls (run_frames (pre @ [d]) s) = openModal_calls s @ [p] \<and>
         modalOpen (run_frames (pre @ [d]) s) \<and>
         modalTitle (run_frames (pre @ [d]) s) = (if title p = [] then ''Info'' else title p) \<and>
         modalBody (run_frames (pre @ [d]) s) = html p \<and>
         \<not> focus_active (run_frames (pre @ d # post) s) \<and>
         openModal_calls (run_frames (pre @ d # post) s) = openModal_calls s @ [p]"
proof -
  note R = focus_run[OF assms]
  have "x0 \<le> vx (focus_toPos s) \<and> vx (focus_toPos s) \<le> x1 \<and>
          z0 \<le> vz (focus_toPos s) \<and> vz (focus_toPos s) \<le> z1 \<longrightarrow>
            camera_position (run_frames (pre @ [d]) s) = focus_toPos s"
    unfolding R(4) by (simp add: clampXZ_inside)
  then show ?thesis using R by (intro conjI)
qed

lemma idle_room_facts:
  "roomLoaded idle_room" "\<not> focus_active idle_room" "\<not> modalOpen idle_room"
  "FLOOR_Y idle_room = Fin 0" "ROOM_MIN_X idle_room = Fin (-5)" "ROOM_MAX_X idle_room = Fin 5"
  "ROOM_MIN_Z idle_room = Fin (-5)" "ROOM_MAX_Z idle_room = Fin 5"
  "focus_dur idle_room = 0.55" "openModal_calls idle_room = []" "camera_aspect idle_room = 1"
  by (simp_all add: idle_room_def room10_def init_state_def)

lemma poster_root_root: "findClickableRoot poster_root = Some poster_root"
  by (simp add: poster_root_def isClickableName_def startsWith_def toLowerCase_def
      toLowerCase_char_def CLICK_PREFIX_def)

lemma door_root_root: "findClickableRoot door_root = Some door_root"
  by (simp add: door_root_def isClickableName_def startsWith_def toLowerCase_def
      toLowerCase_char_def CLICK_PREFIX_def)

lemma wall_view_facts:
  "roomLoaded wall_view" "\<not> focus_active wall_view" "\<not> modalOpen wall_view"
  "FLOOR_Y wall_view = Fin 0" "ROOM_MIN_X wall_view = Fin (-5)" "ROOM_MAX_X wall_view = Fin 5"
  "ROOM_MIN_Z wall_view = Fin (-5)" "ROOM_MAX_Z wall_view = Fin 5"
  "focus_dur wall_view = 0.55" "openModal_calls wall_view = []" "camera_aspect wall_view = 1"
  by (simp_all add: wall_view_def room10_def init_state_def)

lemma click_at_facts:
  assumes "findClickableRoot r = Some r" "\<not> isEmpty (obox r)"
    and "s = idle_room \<or> s = wall_view"
  shows "focus_active (click_at r wd s)" "roomLoaded (click_at r wd s)"
    "FLOOR_Y (click_at r wd s) = Fin 0"
    "ROOM_MIN_X (click_at r wd s) = Fin (-5)"
    "ROOM_MAX_X (click_at r wd s) = Fin 5"
    "ROOM_MIN_Z (click_at r wd s) = Fin (-5)"
    "ROOM_MAX_Z (click_at r wd s) = Fin 5"
    "focus_dur (click_at r wd s) = 0.55"
    "focus_t (click_at r wd s) = 0"
    "focus_openModalOnDone (click_at r wd s) = Some (click_payload r)"
    "openModal_calls (click_at r wd s) = []"
    "\<exists>ft. fitCameraToObject wd r
             (endDrag (pointerdown_click 0 100 100 1000 (pointerdown_drag 0 100 100 s))) =
           Some ft \<and> focus_toPos (click_at r wd s) = desiredPos ft"
proof -
  have F: "roomLoaded s" "\<not> focus_active s" "\<not> modalOpen s"
    "FLOOR_Y s = Fin 0" "ROOM_MIN_X s = Fin (-5)" "ROOM_MAX_X s = Fin 5"
    "ROOM_MIN_Z s = Fin (-5)" "ROOM_MAX_Z s = Fin 5"
    "focus_dur s = 0.55" "openModal_calls s = []"
    using assms(3) idle_room_facts wall_view_facts by auto
  define s1 where "s1 = endDrag (pointerdown_click 0 100 100 1000 (pointerdown_drag 0 100 100 s))"
  have e: "click_at r wd s = startFocus three wd r (Some (click_payload r)) s1"
    unfolding click_at_def s1_def
    by (rule click_starts_focus[OF F(1,2,3) assms(1)])
  have s1: "static s1 = static s" "focus_dur s1 = 0.55" "openModal_calls s1 = []"
    by (simp_all add: s1_def endDrag_def pointerdown_click_def pointerdown_drag_def static_def
        bounds_of_def F)
  have "static (click_at r wd s) = static s"
    unfolding e by (simp add: s1)
  then show "roomLoaded (click_at r wd s)"
    "FLOOR_Y (click_at r wd s) = Fin 0"
    "ROOM_MIN_X (click_at r wd s) = Fin (-5)"
    "ROOM_MAX_X (click_at r wd s) = Fin 5"
    "ROOM_MIN_Z (click_at r wd s) = Fin (-5)"
    "ROOM_MAX_Z (click_at r wd s) = Fin 5"
    by (simp_all add: static_def bounds_of_def F)
  show "focus_active (click_at r wd s)"
    "focus_dur (click_at r wd s) = 0.55"
    "focus_t (click_at r wd s) = 0"
    "focus_openModalOnDone (click_at r wd s) = Some (click_payload r)"
    "openModal_calls (click_at r wd s) = []"
    unfolding e by (simp_all add: startFocus_fields[OF assms(2)] s1)
  show "\<exists>ft. fitCameraToObject wd r
             (endDrag (pointerdown_click 0 100 100 1000 (pointerdown_drag 0 100 100 s))) =
           Some ft \<and> focus_toPos (click_at r wd s) = desiredPos ft"
    unfolding e s1_def[symmetric] using startFocus_fields(11)[OF assms(2), of wd s1 three] by blast
qed

lemma frames_before_facts:
  "\<forall>d\<in>set frames_before. 0 \<le> d" "ticks frames_before = 0.53"
  "ticks (frames_before @ [0.2]) = 0.58"
  by (simp_all add: frames_before_def)

lemma poster_toPos_x: "vx (focus_toPos (click_at poster_root (Vector3 0 0 (-1)) wall_view)) = 5.175"
proof -
  have ne: "\<not> isEmpty (obox poster_root)" by (simp add: poster_root_def)
  obtain ft where ft: "fitCameraToObject (Vector3 0 0 (-1)) poster_root
             (endDrag (pointerdown_click 0 100 100 1000 (pointerdown_drag 0 100 100 wall_view))) =
           Some ft" "focus_toPos (click_at poster_root (Vector3 0 0 (-1)) wall_view) = desiredPos ft"
    using click_at_facts(12)[OF poster_root_root ne disjI2[OF refl]] by blast
  have n: "normalize_vec (Vector3 0 0 (-1)) = Vector3 0 0 (-1)"
    by (rule normalize_vec_unit) (simp add: vlength_def lengthSq_def)
  have c: "getCenter (obox poster_root) = Vector3 5.175 1.5 0"
    by (simp add: poster_root_def getCenter_def vadd_def multiplyScalar_def)
  have "vx (desiredPos ft) = 5.175"
    using ft(1) ne unfolding fitCameraToObject_def Let_def n c
    by (auto simp: addScaledVector_def)
  then show ?thesis by (simp add: ft(2))
qed

text \<open>
  As the specification states it, the property fails when the destination lies outside
  the walkable rectangle: a click on a poster hanging on the wall at \<open>x = 5.175\<close>,
  seen from \<open>(5, 1.65, 3)\<close> while looking along \<open>-z\<close>, gives a destination with
  \<open>x = 5.175\<close>; after
  0.58 s of frames the transition of 0.55 s is over and the camera stands at the
  bound, \<open>x = 5\<close>.
\<close>

theorem focus_completion_counterexample:
  "focus_active (click_at poster_root (Vector3 0 0 (-1)) wall_view) \<and>
   focus_dur (click_at poster_root (Vector3 0 0 (-1)) wall_view) = 0.55 \<and>
   ticks (frames_before @ [0.2]) = 0.58 \<and>
   \<not> focus_active (run_frames (frames_before @ [0.2])
                      (click_at poster_root (Vector3 0 0 (-1)) wall_view)) \<and>
   vx (focus_toPos (click_at poster_root (Vector3 0 0 (-1)) wall_view)) = 5.175 \<and>
   vx (camera_position (run_frames (frames_before @ [0.2])
                          (click_at poster_root (Vector3 0 0 (-1)) wall_view))) = 5"
proof -
  have ne: "\<not> isEmpty (obox poster_root)" by (simp add: poster_root_def)
  note C = click_at_facts[OF poster_root_root ne disjI2[OF refl], where wd = "Vector3 0 0 (-1)"]
  have d: "0 < focus_dur (click_at poster_root (Vector3 0 0 (-1)) wall_view)"
    "focus_dur (click_at poster_root (Vector3 0 0 (-1)) wall_view) \<le> ticks (frames_before @ [0.2])"
    "ticks frames_before < focus_dur (click_at poster_root (Vector3 0 0 (-1)) wall_view)"
    unfolding C(8) frames_before_facts by simp_all
  note R = focus_run[OF C(1-7) d(1) frames_before_facts(1) C(9,10) d(3) d(2)]
  have "vx (camera_position (run_frames (frames_before @ [0.2])
                          (click_at poster_root (Vector3 0 0 (-1)) wall_view))) = 5"
    unfolding R(4) by (simp add: clampXZ_def clamp_def poster_toPos_x)
  then show ?thesis using C(1,8) R(3) poster_toPos_x frames_before_facts(3) by simp
qed


lemma fov_half: "degToRad camera_fov / 2 = pi / 6"
  by (simp add: degToRad_def camera_fov_def)

lemma fit_dist_aspect_1:
  "max (r / sin (degToRad camera_fov / 2))
       (r / sin (2 * arctan (tan (degToRad camera_fov / 2) * 1) / 2)) = 2 * r"
proof -
  have at: "arctan (tan (pi / 6)) = pi / 6"
    by (rule arctan_tan) (use pi_gt_zero in simp_all)
  have "2 * arctan (tan (pi / 6) * 1) / 2 = pi / 6"
    unfolding mult_1_right at by simp
  then show ?thesis unfolding fov_half by (simp only: sin_30) simp
qed

lemma door_toPos: "focus_toPos (click_at door_root (Vector3 1 0 0) idle_room) = Vector3 2.6 1 0"
proof -
  have ne: "\<not> isEmpty (obox door_root)" by (simp add: door_root_def)
  define s1 where "s1 = endDrag (pointerdown_click 0 100 100 1000 (pointerdown_drag 0 100 100 idle_room))"
  obtain ft where ft: "fitCameraToObject (Vector3 1 0 0) door_root s1 = Some ft"
    "focus_toPos (click_at door_root (Vector3 1 0 0) idle_room) = desiredPos ft"
    using click_at_facts(12)[OF door_root_root ne disjI1[OF refl]] unfolding s1_def by blast
  have a: "camera_aspect s1 = 1"
    by (simp add: s1_def endDrag_def pointerdown_click_def pointerdown_drag_def idle_room_facts)
  have n: "normalize_vec (Vector3 1 0 0) = Vector3 1 0 0"
    by (rule normalize_vec_unit) (simp add: vlength_def lengthSq_def)
  have c: "getCenter (obox door_root) = Vector3 4.9 1 0"
    by (simp add: door_root_def getCenter_def vadd_def multiplyScalar_def)
  have z: "getSize (obox door_root) = Vector3 0.2 2 1"
    by (simp add: door_root_def getSize_def vsub_def)
  have "desiredPos ft = Vector3 2.6 1 0"
    using ft(1) ne unfolding fitCameraToObject_def Let_def n c z a fit_dist_aspect_1
    by (auto simp: addScaledVector_def)
  then show ?thesis by (simp add: ft(2))
qed

text \<open>
  A click on the door while looking along \<open>+x\<close>: the destination \<open>(2.6, 1, 0)\<close> is inside
  the room, the camera arrives there and the modal opens once, titled \<open>door\<close>.
\<close>

theorem focus_completion_witness:
  "focus_active (click_at door_root (Vector3 1 0 0) idle_room) \<and>
   focus_toPos (click_at door_root (Vector3 1 0 0) idle_room) = Vector3 2.6 1 0 \<and>
   focus_active (run_frames frames_before (click_at door_root (Vector3 1 0 0) idle_room)) \<and>
   \<not> focus_active (run_frames (frames_before @ [0.2])
                      (click_at door_root (Vector3 1 0 0) idle_room)) \<and>
   camera_position (run_frames (frames_before @ [0.2])
                      (click_at door_root (Vector3 1 0 0) idle_room)) = Vector3 2.6 1 0 \<and>
   openModal_calls (run_frames (frames_before @ [0.2])
                      (click_at door_root (Vector3 1 0 0) idle_room)) = [click_payload door_root] \<and>
   modalTitle (run_frames (frames_before @ [0.2])
                 (click_at door_root (Vector3 1 0 0) idle_room)) = ''door'' \<and>
   openModal_calls (run_frames (frames_before @ 0.2 # [0.016, 0.016])
                      (click_at door_root (Vector3 1 0 0) idle_room)) = [click_payload door_root]"
proof -
  have ne: "\<not> isEmpty (obox door_root)" by (simp add: door_root_def)
  note C = click_at_facts[OF door_root_root ne disjI1[OF refl], where wd = "Vector3 1 0 0"]
  have d: "0 < focus_dur (click_at door_root (Vector3 1 0 0) idle_room)"
    "focus_dur (click_at door_root (Vector3 1 0 0) idle_room) \<le> ticks (frames_before @ [0.2])"
    "ticks frames_before < focus_dur (click_at door_root (Vector3 1 0 0) idle_room)"
    unfolding C(8) frames_before_facts by simp_all
  note T = focus_completion[OF C(1-7) d(1) frames_before_facts(1) C(9,10) d(3) d(2),
      where post = "[0.016, 0.016]"]
  have t: "title (click_payload door_root) = ''door''"
    by (rule title_door) (simp add: door_root_def)
  have i: "(-5::real) \<le> vx (focus_toPos (click_at door_root (Vector3 1 0 0) idle_room)) \<and>
      vx (focus_toPos (click_at door_root (Vector3 1 0 0) idle_room)) \<le> 5 \<and>
      (-5::real) \<le> vz (focus_toPos (click_at door_root (Vector3 1 0 0) idle_room)) \<and>
      vz (focus_toPos (click_at door_root (Vector3 1 0 0) idle_room)) \<le> 5"
    by (simp add: door_toPos)
  have "camera_position (run_frames (frames_before @ [0.2])
          (click_at door_root (Vector3 1 0 0) idle_room)) =
        focus_toPos (click_at door_root (Vector3 1 0 0) idle_room)"
    using T i by blast
  then show ?thesis using T C(1,11) t door_toPos by simp
qed

section \<open>The hover highlight\<close>

lemma highlight_meshes_concat:
  "highlight_meshes f on meshes st = fold (highlight_slot f on) (concat meshes) st"
  unfolding highlight_meshes_def by (induction meshes arbitrary: st) simp_all

lemma highlight_slot_at:
  "(fst (highlight_slot f on (Some k) st) k, snd (highlight_slot f on (Some k) st) k) =
   slot_effect f on (fst st k, snd st k)"
  by (simp add: highlight_slot_def slot_effect_def Let_def split: option.splits)

lemma highlight_slot_other:
  "slot \<noteq> Some k \<Longrightarrow>
   fst (highlight_slot f on slot st) k = fst st k \<and> snd (highlight_slot f on slot st) k = snd st k"
  by (cases slot) (auto simp: highlight_slot_def Let_def split: option.splits)

lemma fold_slots_at:
  "(fst (fold (highlight_slot f on) slots st) k, snd (fold (highlight_slot f on) slots st) k) =
   (slot_effect f on ^^ count_list slots (Some k)) (fst st k, snd st k)"
proof (induction slots arbitrary: st)
  case Nil
  then show ?case by simp
next
  case (Cons a slots)
  show ?case
  proof (cases "a = Some k")
    case True
    have "(fst (fold (highlight_slot f on) (a # slots) st) k,
           snd (fold (highlight_slot f on) (a # slots) st) k) =
          (slot_effect f on ^^ count_list slots (Some k))
            (fst (highlight_slot f on (Some k) st) k, snd (highlight_slot f on (Some k) st) k)"
      using Cons.IH[of "highlight_slot f on a st"] True by simp
    also have "\<dots> = (slot_effect f on ^^ count_list slots (Some k))
                       (slot_effect f on (fst st k, snd st k))"
      by (simp only: highlight_slot_at)
    finally show ?thesis using True by (simp add: funpow_swap1)
  next
    case False
    then show ?thesis
      using Cons.IH[of "highlight_slot f on a st"] highlight_slot_other[OF False, of f on st]
      by simp
  qed
qed

lemma apply_at:
  "(materials (applyHoverHighlight f (Some r) on s) k,
    highlightState (applyHoverHighlight f (Some r) on s) k) =
   (slot_effect f on ^^ count_list (concat (omeshes r)) (Some k))
     (materials s k, highlightState s k)"
  using fold_slots_at[of f on "concat (omeshes r)" "(materials s, highlightState s)" k]
  by (simp add: applyHoverHighlight_def highlight_meshes_concat Let_def)

lemma count_refs: "k \<in> refs (Some r) \<longleftrightarrow> 0 < count_list (concat (omeshes r)) (Some k)"
  using count_list_0_iff[of "concat (omeshes r)" "Some k"] by auto

lemma apply_frame:
  "k \<notin> refs r \<Longrightarrow>
   materials (applyHoverHighlight f r on s) k = materials s k \<and>
   highlightState (applyHoverHighlight f r on s) k = highlightState s k"
proof (cases r)
  case None
  then show ?thesis by (simp add: applyHoverHighlight_def)
next
  case (Some a)
  assume "k \<notin> refs r"
  then have "count_list (concat (omeshes a)) (Some k) = 0"
    using Some count_refs[of k a] by simp
  then show ?thesis using apply_at[of f a on s k] Some by simp
qed

lemma setHoveredRoot_frame:
  assumes "k \<notin> refs (hoveredRoot s)" "k \<notin> refs n"
  shows "materials (setHoveredRoot f n s) k = materials s k \<and>
         highlightState (setHoveredRoot f n s) k = highlightState s k"
proof (cases "n = hoveredRoot s")
  case True
  then show ?thesis by (simp add: setHoveredRoot_def)
next
  case False
  define s1 where "s1 = (if hoveredRoot s \<noteq> None
      then applyHoverHighlight f (hoveredRoot s) False s else s)"
  have 1: "materials s1 k = materials s k \<and> highlightState s1 k = highlightState s k"
    using apply_frame[OF assms(1), of f False s] by (simp add: s1_def)
  define s2 where "s2 = s1\<lparr>hoveredRoot := n\<rparr>"
  have 2: "materials s2 k = materials s k \<and> highlightState s2 k = highlightState s k"
    using 1 by (simp add: s2_def)
  have "setHoveredRoot f n s = (if n \<noteq> None then applyHoverHighlight f n True s2 else s2)"
    using False by (simp add: setHoveredRoot_def Let_def s1_def s2_def)
  then show ?thesis using apply_frame[OF assms(2), of f True s2] 2 by simp
qed

lemma setHoveredRoot_hovered [simp]: "hoveredRoot (setHoveredRoot f n s) = n"
  using setHoveredRoot_shape[of f n s] by auto

lemma hover_seq_frame:
  assumes "k \<notin> refs (hoveredRoot s)" "\<forall>y\<in>set ys. k \<notin> refs y"
  shows "materials (hover_seq f ys s) k = materials s k \<and>
         highlightState (hover_seq f ys s) k = highlightState s k"
  using assms
proof (induction ys arbitrary: s)
  case Nil
  then show ?case by (simp add: hover_seq_def)
next
  case (Cons y ys)
  have 1: "materials (setHoveredRoot f y s) k = materials s k \<and>
         highlightState (setHoveredRoot f y s) k = highlightState s k"
    using setHoveredRoot_frame[of k s y f] Cons.prems by simp
  have "k \<notin> refs (hoveredRoot (setHoveredRoot f y s))" using Cons.prems by simp
  then have "materials (hover_seq f ys (setHoveredRoot f y s)) k = materials (setHoveredRoot f y s) k \<and>
         highlightState (hover_seq f ys (setHoveredRoot f y s)) k =
           highlightState (setHoveredRoot f y s) k"
    using Cons.IH[of "setHoveredRoot f y s"] Cons.prems(2) by simp
  then show ?case using 1 by (simp add: hover_seq_def)
qed

lemma slot_effect_on_1:
  "slot_effect f True (m, Some sv) = (highlight_on f m, Some sv)"
  by (simp add: slot_effect_def)

lemma slot_effect_on_Some:
  "(slot_effect f True ^^ n) (m, Some sv) = ((highlight_on f ^^ n) m, Some sv)"
  by (induction n) (simp_all add: slot_effect_on_1)

lemma slot_effect_on_None:
  "0 < n \<Longrightarrow> (slot_effect f True ^^ n) (m, None) = ((highlight_on f ^^ n) m, Some (snapshot_of f m))"
proof (induction n)
  case 0
  then show ?case by simp
next
  case (Suc n)
  have "(slot_effect f True ^^ Suc n) (m, None) = (slot_effect f True ^^ n) (slot_effect f True (m, None))"
    by (simp add: funpow_swap1)
  also have "slot_effect f True (m, None) = (highlight_on f m, Some (snapshot_of f m))"
    by (simp add: slot_effect_def)
  also have "(slot_effect f True ^^ n) (highlight_on f m, Some (snapshot_of f m)) =
      ((highlight_on f ^^ n) (highlight_on f m), Some (snapshot_of f m))"
    by (rule slot_effect_on_Some)
  finally show ?case by (simp add: funpow_swap1)
qed

lemma highlight_off_idem: "highlight_off f sv (highlight_off f sv m) = highlight_off f sv m"
proof (cases "saved_hasEmissive sv \<and> emissive m \<noteq> None")
  case True
  then show ?thesis
    by (cases "saved_emissiveIntensity sv") (simp_all add: highlight_off_def Let_def)
next
  case False
  then show ?thesis
    by (cases "color m"; cases "saved_colorHex sv") (auto simp: highlight_off_def Let_def)
qed

lemma slot_effect_off_Some:
  "0 < n \<Longrightarrow> (slot_effect f False ^^ n) (m, Some sv) = (highlight_off f sv m, Some sv)"
proof (induction n)
  case 0
  then show ?case by simp
next
  case (Suc n)
  show ?case
  proof (cases "n = 0")
    case True
    then show ?thesis by (simp add: slot_effect_def)
  next
    case False
    then have "(slot_effect f False ^^ n) (m, Some sv) = (highlight_off f sv m, Some sv)"
      using Suc.IH by simp
    then have "(slot_effect f False ^^ Suc n) (m, Some sv) =
        slot_effect f False (highlight_off f sv m, Some sv)"
      by simp
    also have "\<dots> = (highlight_off f sv (highlight_off f sv m), Some sv)"
      by (simp add: slot_effect_def)
    finally show ?thesis by (simp only: highlight_off_idem)
  qed
qed

lemma unlit_refl: "unlit f orig orig"
  by (simp add: unlit_def)

lemma unlit_restored: "unlit f orig (restored f orig)"
  by (simp add: unlit_def)

lemma highlight_on_emissive:
  "emissive m \<noteq> None \<Longrightarrow> 0 < n \<Longrightarrow>
   (highlight_on f ^^ n) m = m\<lparr>emissive := Some (setHex f 0x2a7fff), emissiveIntensity := Some 0.9\<rparr>"
proof (induction n)
  case 0
  then show ?case by simp
next
  case (Suc n)
  show ?case
  proof (cases "n = 0")
    case True
    then show ?thesis using Suc.prems by (auto simp: highlight_on_def)
  next
    case False
    then have "(highlight_on f ^^ n) m =
        m\<lparr>emissive := Some (setHex f 0x2a7fff), emissiveIntensity := Some 0.9\<rparr>"
      using Suc.IH Suc.prems by simp
    then have "(highlight_on f ^^ Suc n) m =
        highlight_on f (m\<lparr>emissive := Some (setHex f 0x2a7fff), emissiveIntensity := Some 0.9\<rparr>)"
      by simp
    also have "\<dots> = m\<lparr>emissive := Some (setHex f 0x2a7fff), emissiveIntensity := Some 0.9\<rparr>"
      by (simp add: highlight_on_def)
    finally show ?thesis .
  qed
qed

lemma highlight_on_color:
  "emissive b = None \<Longrightarrow>
   (highlight_on f ^^ n) b = b\<lparr>color := map_option (offsetHSL f 0 0 0.15 ^^ n) (color b)\<rparr>"
proof (induction n)
  case 0
  then show ?case by (cases "color b") simp_all
next
  case (Suc n)
  then have "(highlight_on f ^^ Suc n) b =
      highlight_on f (b\<lparr>color := map_option (offsetHSL f 0 0 0.15 ^^ n) (color b)\<rparr>)"
    by simp
  also have "\<dots> = b\<lparr>color := map_option (offsetHSL f 0 0 0.15 ^^ Suc n) (color b)\<rparr>"
    using Suc.prems by (cases "color b") (simp_all add: highlight_on_def)
  finally show ?case .
qed

lemma lit_after_on:
  assumes "unlit f orig m" "0 < n"
  shows "lit f n orig ((highlight_on f ^^ n) m)"
proof (cases "emissive orig")
  case None
  consider "m = orig" | "m = restored f orig" using assms(1) by (auto simp: unlit_def)
  then show ?thesis
  proof cases
    case 1
    then show ?thesis using None by (simp add: lit_def highlight_on_color)
  next
    case 2
    then have m: "m = orig\<lparr>color := map_option (requantized f) (color orig)\<rparr>"
      using None by (simp add: restored_def)
    have "emissive m = None" using None by (simp add: m)
    then have "(highlight_on f ^^ n) m =
        m\<lparr>color := map_option (offsetHSL f 0 0 0.15 ^^ n) (color m)\<rparr>"
      by (rule highlight_on_color)
    also have "\<dots> = orig\<lparr>color := map_option (\<lambda>c. (offsetHSL f 0 0 0.15 ^^ n) (requantized f c))
                                      (color orig)\<rparr>"
      by (simp add: m option.map_comp comp_def)
    finally show ?thesis using None by (simp add: lit_def)
  qed
next
  case (Some e)
  have e: "emissive m \<noteq> None"
    using assms(1) Some by (auto simp: unlit_def restored_def)
  have "m\<lparr>emissive := Some (setHex f 0x2a7fff), emissiveIntensity := Some 0.9\<rparr> =
        orig\<lparr>emissive := Some (setHex f 0x2a7fff), emissiveIntensity := Some 0.9\<rparr>"
    using assms(1) Some by (auto simp: unlit_def restored_def)
  then show ?thesis
    using highlight_on_emissive[OF e assms(2), of f] Some by (simp add: lit_def)
qed

lemma restored_after_off:
  assumes "lit f n orig m"
  shows "highlight_off f (snapshot_of f orig) m = restored f orig"
proof (cases "emissive orig")
  case None
  show ?thesis
  proof (cases "color orig")
    case n: None
    then have "m = orig" using assms None by (simp add: lit_def)
    then show ?thesis
      using None n by (simp add: highlight_off_def snapshot_of_def restored_def)
  next
    case (Some c)
    then consider "m = orig\<lparr>color := Some ((offsetHSL f 0 0 0.15 ^^ n) c)\<rparr>"
      | "m = orig\<lparr>color := Some ((offsetHSL f 0 0 0.15 ^^ n) (requantized f c))\<rparr>"
      using assms None by (auto simp: lit_def)
    then show ?thesis
      using None Some
      by cases (simp_all add: highlight_off_def snapshot_of_def restored_def requantized_def)
  qed
next
  case (Some e)
  then have m: "m = orig\<lparr>emissive := Some (setHex f 0x2a7fff), emissiveIntensity := Some 0.9\<rparr>"
    using assms by (simp add: lit_def)
  show ?thesis
    unfolding m using Some
    by (cases "emissiveIntensity orig")
       (simp_all add: highlight_off_def snapshot_of_def restored_def requantized_def Let_def)
qed

lemma restored_is_on_off:
  "restored f orig = highlight_off f (snapshot_of f orig) (highlight_on f orig)"
proof -
  have "lit f 1 orig ((highlight_on f ^^ 1) orig)"
    by (rule lit_after_on[OF unlit_refl]) simp
  then show ?thesis using restored_after_off[of f 1 orig "highlight_on f orig"] by simp
qed

lemma snapshot_kept:
  assumes "highlightState s k = Some sv"
  shows "highlightState (applyHoverHighlight f r on s) k = Some sv"
proof (cases r)
  case None
  then show ?thesis using assms by (simp add: applyHoverHighlight_def)
next
  case (Some a)
  define n where "n = count_list (concat (omeshes a)) (Some k)"
  have "snd ((slot_effect f on ^^ n) (materials s k, Some sv)) = Some sv"
  proof (cases on)
    case True
    then show ?thesis by (simp add: slot_effect_on_Some)
  next
    case False
    then show ?thesis
      by (cases "n = 0") (simp_all add: slot_effect_off_Some)
  qed
  then show ?thesis
    using apply_at[of f a on s k] assms Some unfolding n_def[symmetric]
    by (metis snd_conv)
qed

lemma apply_hovered [simp]: "hoveredRoot (applyHoverHighlight f r on s) = hoveredRoot s"
  using highlight_shape[of f r on s] by auto

lemma on_then_off:
  assumes "k \<in> refs (Some r)"
    and "highlightState s k = None \<or> highlightState s k = Some (snapshot_of f (materials s k))"
  shows "highlightState (applyHoverHighlight f (Some r) True s) k =
           Some (snapshot_of f (materials s k))"
    and "lit f (count_of (Some r) k) (materials s k)
           (materials (applyHoverHighlight f (Some r) True s) k)"
proof -
  define n where "n = count_list (concat (omeshes r)) (Some k)"
  have n: "0 < n" using assms(1) count_refs[of k r] by (simp add: n_def)
  have "(slot_effect f True ^^ n) (materials s k, highlightState s k) =
        ((highlight_on f ^^ n) (materials s k), Some (snapshot_of f (materials s k)))"
    using assms(2) n by (auto simp: slot_effect_on_None slot_effect_on_Some)
  then have e: "materials (applyHoverHighlight f (Some r) True s) k = (highlight_on f ^^ n) (materials s k)"
    "highlightState (applyHoverHighlight f (Some r) True s) k = Some (snapshot_of f (materials s k))"
    using apply_at[of f r True s k] unfolding n_def[symmetric] by simp_all
  show "highlightState (applyHoverHighlight f (Some r) True s) k =
          Some (snapshot_of f (materials s k))"
    by (rule e(2))
  show "lit f (count_of (Some r) k) (materials s k)
           (materials (applyHoverHighlight f (Some r) True s) k)"
    unfolding e(1) using lit_after_on[OF unlit_refl n, of f "materials s k"] by (simp add: n_def)
qed

lemma off_restores:
  assumes "k \<in> refs (Some r)" and "highlightState s k = Some (snapshot_of f orig)"
    and "lit f n orig (materials s k)"
  shows "materials (applyHoverHighlight f (Some r) False s) k = restored f orig"
    and "highlightState (applyHoverHighlight f (Some r) False s) k = Some (snapshot_of f orig)"
proof -
  define c where "c = count_list (concat (omeshes r)) (Some k)"
  have c: "0 < c" using assms(1) count_refs[of k r] by (simp add: c_def)
  have "(slot_effect f False ^^ c) (materials s k, highlightState s k) =
        (highlight_off f (snapshot_of f orig) (materials s k), Some (snapshot_of f orig))"
    unfolding assms(2) using c by (rule slot_effect_off_Some)
  then have e: "materials (applyHoverHighlight f (Some r) False s) k =
        highlight_off f (snapshot_of f orig) (materials s k)"
    "highlightState (applyHoverHighlight f (Some r) False s) k = Some (snapshot_of f orig)"
    using apply_at[of f r False s k] unfolding c_def[symmetric] by simp_all
  show "materials (applyHoverHighlight f (Some r) False s) k = restored f orig"
    unfolding e(1) using assms(3) by (rule restored_after_off)
  show "highlightState (applyHoverHighlight f (Some r) False s) k = Some (snapshot_of f orig)"
    by (rule e(2))
qed

text \<open>
  What a highlight cycle does to a material \<open>M\<close> under root \<open>R\<close> that shows no highlight:
  enable the highlight of \<open>R\<close>, make any number of \<open>setHoveredRoot\<close> calls for roots that
  do not reference \<open>M\<close>, disable the highlight of \<open>R\<close>. The snapshot is taken from the
  values before the highlight and is never replaced, and \<open>M\<close> ends as what the restoring
  pass makes of those values.
\<close>

lemma highlight_cycle:
  assumes "M \<in> refs (Some R)"
    and "highlightState s M = None \<or> highlightState s M = Some (snapshot_of f (materials s M))"
    and "M \<notin> refs (hoveredRoot s)" and "\<forall>y\<in>set ys. M \<notin> refs y"
  shows "materials (applyHoverHighlight f (Some R) False
            (hover_seq f ys (applyHoverHighlight f (Some R) True s))) M =
         restored f (materials s M)"
    and "highlightState (applyHoverHighlight f (Some R) False
            (hover_seq f ys (applyHoverHighlight f (Some R) True s))) M =
         Some (snapshot_of f (materials s M))"
    and "highlightState (applyHoverHighlight f r on (applyHoverHighlight f (Some R) True s)) M =
         Some (snapshot_of f (materials s M))"
proof -
  define s1 where "s1 = applyHoverHighlight f (Some R) True s"
  define s2 where "s2 = hover_seq f ys s1"
  note O = on_then_off[OF assms(1,2), folded s1_def]
  have h: "M \<notin> refs (hoveredRoot s1)" using assms(3) by (simp add: s1_def)
  have fr: "materials s2 M = materials s1 M" "highlightState s2 M = highlightState s1 M"
    using hover_seq_frame[OF h assms(4), of f] by (simp_all add: s2_def)
  have l2: "lit f (count_of (Some R) M) (materials s M) (materials s2 M)"
    "highlightState s2 M = Some (snapshot_of f (materials s M))"
    using O fr by simp_all
  note R = off_restores[OF assms(1) l2(2) l2(1)]
  show "materials (applyHoverHighlight f (Some R) False
            (hover_seq f ys (applyHoverHighlight f (Some R) True s))) M =
         restored f (materials s M)"
    using R(1) by (simp add: s2_def s1_def)
  show "highlightState (applyHoverHighlight f (Some R) False
            (hover_seq f ys (applyHoverHighlight f (Some R) True s))) M =
         Some (snapshot_of f (materials s M))"
    using R(2) by (simp add: s2_def s1_def)
  show "highlightState (applyHoverHighlight f r on (applyHoverHighlight f (Some R) True s)) M =
         Some (snapshot_of f (materials s M))"
    using snapshot_kept[OF O(1)] by (simp add: s1_def)
qed

lemma refs_examples:
  "refs (Some door_root) = {0}" "refs (Some poster_root) = {1}" "refs (Some lamp_root) = {2}"
  "refs (Some door2_root) = {0}"
  by (auto simp: door_root_def poster_root_def lamp_root_def door2_root_def)

lemma hover_inv_init:
  assumes "hoveredRoot s = None" "\<forall>k. highlightState s k = None"
  shows "hover_inv f (materials s) s"
  using assms by (simp add: hover_inv_def unlit_refl)

lemma hover_inv_set:
  assumes "hover_inv f orig s"
  shows "hover_inv f orig (setHoveredRoot f n s)"
proof (cases "n = hoveredRoot s")
  case True
  then show ?thesis using assms by (simp add: setHoveredRoot_def)
next
  case False
  define s1 where "s1 = (if hoveredRoot s \<noteq> None
      then applyHoverHighlight f (hoveredRoot s) False s else s)"
  have A: "(highlightState s1 k = None \<or> highlightState s1 k = Some (snapshot_of f (orig k))) \<and>
           unlit f (orig k) (materials s1 k) \<and>
           (highlightState s1 k = None \<longrightarrow> materials s1 k = orig k)" for k
  proof (cases "k \<in> refs (hoveredRoot s)")
    case True
    then obtain r where r: "hoveredRoot s = Some r" by (cases "hoveredRoot s") auto
    have hs: "highlightState s k = Some (snapshot_of f (orig k))"
      and l: "lit f (count_of (hoveredRoot s) k) (orig k) (materials s k)"
      using assms True unfolding hover_inv_def by blast+
    have k: "k \<in> refs (Some r)" using True r by simp
    have "s1 = applyHoverHighlight f (Some r) False s" by (simp add: s1_def r)
    then show ?thesis using off_restores[OF k hs l] by (simp add: unlit_restored)
  next
    case False
    have "materials s1 k = materials s k \<and> highlightState s1 k = highlightState s k"
      using apply_frame[OF False, of f False s] by (simp add: s1_def)
    then show ?thesis using assms False unfolding hover_inv_def by metis
  qed
  define s2 where "s2 = s1\<lparr>hoveredRoot := n\<rparr>"
  have s2: "materials s2 = materials s1" "highlightState s2 = highlightState s1"
    "hoveredRoot s2 = n"
    by (simp_all add: s2_def)
  have e: "setHoveredRoot f n s = (if n \<noteq> None then applyHoverHighlight f n True s2 else s2)"
    using False by (simp add: setHoveredRoot_def Let_def s1_def s2_def)
  define s3 where "s3 = setHoveredRoot f n s"
  have h3: "hoveredRoot s3 = n" by (simp add: s3_def)
  have B: "(highlightState s3 k = None \<or> highlightState s3 k = Some (snapshot_of f (orig k))) \<and>
          (k \<in> refs n \<longrightarrow>
             highlightState s3 k \<noteq> None \<and> lit f (count_of n k) (orig k) (materials s3 k)) \<and>
          (k \<notin> refs n \<longrightarrow>
             unlit f (orig k) (materials s3 k) \<and>
             (highlightState s3 k = None \<longrightarrow> materials s3 k = orig k))" for k
  proof (cases "k \<in> refs n")
    case True
    then obtain r where r: "n = Some r" by (cases n) auto
    have k: "k \<in> refs (Some r)" using True r by simp
    have c: "0 < count_list (concat (omeshes r)) (Some k)" using k count_refs by simp
    have s3e: "s3 = applyHoverHighlight f (Some r) True s2"
      using e unfolding s3_def r by simp
    have at: "(materials s3 k, highlightState s3 k) =
        (slot_effect f True ^^ count_list (concat (omeshes r)) (Some k))
          (materials s1 k, highlightState s1 k)"
      unfolding s3e using apply_at[of f r True s2 k] by (simp add: s2)
    have "(slot_effect f True ^^ count_list (concat (omeshes r)) (Some k))
          (materials s1 k, highlightState s1 k) =
        ((highlight_on f ^^ count_list (concat (omeshes r)) (Some k)) (materials s1 k),
         Some (snapshot_of f (orig k)))"
    proof (cases "highlightState s1 k")
      case None
      then have "materials s1 k = orig k" using A[of k] by simp
      then show ?thesis using None c by (simp add: slot_effect_on_None)
    next
      case (Some sv)
      then have "sv = snapshot_of f (orig k)" using A[of k] by simp
      then show ?thesis using Some by (simp add: slot_effect_on_Some)
    qed
    then have m: "materials s3 k =
          (highlight_on f ^^ count_list (concat (omeshes r)) (Some k)) (materials s1 k)"
      and h: "highlightState s3 k = Some (snapshot_of f (orig k))"
      using at by simp_all
    have "lit f (count_of n k) (orig k) (materials s3 k)"
      unfolding m using lit_after_on[OF A[of k, THEN conjunct2, THEN conjunct1] c]
      by (simp add: r)
    then show ?thesis using True h by simp
  next
    case False
    have "materials s3 k = materials s1 k \<and> highlightState s3 k = highlightState s1 k"
    proof (cases "n = None")
      case True
      then show ?thesis using e unfolding s3_def by (simp add: s2)
    next
      case n: False
      then have "s3 = applyHoverHighlight f n True s2" using e unfolding s3_def by simp
      then show ?thesis
        using apply_frame[OF False, of f True s2] by (simp add: s2)
    qed
    then show ?thesis using A[of k] False by simp
  qed
  show ?thesis
    unfolding hover_inv_def s3_def[symmetric] h3 using B by blast
qed

lemma hover_inv_seq:
  "hover_inv f orig s \<Longrightarrow> hover_inv f orig (hover_seq f ys s)"
  unfolding hover_seq_def
  by (induction ys arbitrary: s) (simp_all add: hover_inv_set)

lemma gallery_fresh: "hoveredRoot gallery = None" "\<forall>k. highlightState gallery k = None"
  by (simp_all add: gallery_def idle_room_def room10_def init_state_def)

lemma refs_chair_table:
  "refs (Some chair_root) = {0, 1}" "refs (Some table_root) = {1, 3}"
  "count_of (Some table_root) 1 = 2" "count_of (Some table_root) 3 = 1"
  by (auto simp: chair_root_def table_root_def)

subsection \<open>The colour conversions of the engine\<close>

lemma LinearToSRGB_0: "LinearToSRGB 0 = 0" by (simp add: LinearToSRGB_def)
lemma LinearToSRGB_1: "LinearToSRGB 1 = 1" by (simp add: LinearToSRGB_def)
lemma SRGBToLinear_0: "SRGBToLinear 0 = 0" by (simp add: SRGBToLinear_def)
lemma SRGBToLinear_1: "SRGBToLinear 1 = 1" by (simp add: SRGBToLinear_def)
lemma channel_byte_0: "channel_byte 0 = 0" by (simp add: channel_byte_def)
lemma channel_byte_1: "channel_byte 1 = 255" by (simp add: channel_byte_def)

lemma powr_rat_power:
  assumes "0 < x" "0 < q"
  shows "(x powr (real p / real q)) ^ q = x ^ p"
proof -
  have "(x powr (real p / real q)) ^ q = (x powr (real p / real q)) powr real q"
    using assms(1) by (simp add: powr_realpow)
  also have "\<dots> = x powr real p" using assms(2) by (simp add: powr_powr)
  also have "\<dots> = x ^ p" using assms(1) by (simp add: powr_realpow)
  finally show ?thesis .
qed

lemma powr_rat_less:
  assumes "0 < x" "0 < q" "x ^ p < y ^ q" "0 \<le> y"
  shows "x powr (real p / real q) < y"
proof (rule ccontr)
  assume "\<not> x powr (real p / real q) < y"
  then have "y \<le> x powr (real p / real q)" by simp
  then have "y ^ q \<le> (x powr (real p / real q)) ^ q" using assms(4) by (rule power_mono)
  then show False using assms(3) powr_rat_power[OF assms(1,2), of p] by simp
qed

lemma powr_rat_greater:
  assumes "0 < x" "0 < q" "y ^ q < x ^ p"
  shows "y < x powr (real p / real q)"
proof (rule ccontr)
  assume "\<not> y < x powr (real p / real q)"
  then have "x powr (real p / real q) \<le> y" by simp
  then have "(x powr (real p / real q)) ^ q \<le> y ^ q" by (intro power_mono) simp_all
  then show False using assms(3) powr_rat_power[OF assms(1,2), of p] by simp
qed

lemma half_powr_bounds:
  "0.7491 < (0.5::real) powr 0.41666" "(0.5::real) powr 0.41666 < 0.75"
proof -
  have "(0.7491::real) ^ 12 < 0.5 ^ 5" by (simp add: power_divide divide_simps)
  then have "(0.7491::real) < 0.5 powr (real 5 / real 12)"
    by (intro powr_rat_greater) simp_all
  also have "(0.5::real) powr (real 5 / real 12) \<le> 0.5 powr 0.41666"
    by (intro powr_mono') simp_all
  finally show "0.7491 < (0.5::real) powr 0.41666" .
  have "(0.5::real) powr 0.41666 \<le> 0.5 powr (real 52 / real 125)"
    by (intro powr_mono') simp_all
  also have "(0.5::real) ^ 52 < 0.75 ^ 125" by (simp add: power_divide divide_simps)
  then have "(0.5::real) powr (real 52 / real 125) < 0.75"
    by (intro powr_rat_less) simp_all
  finally show "(0.5::real) powr 0.41666 < 0.75" .
qed

lemma channel_byte_half: "channel_byte (LinearToSRGB 0.5) = 188"
proof -
  define v where "v = LinearToSRGB 0.5 * 255"
  have v: "v = (1.055 * ((0.5::real) powr 0.41666) - 0.055) * 255"
    by (simp add: v_def LinearToSRGB_def)
  have b: "187.5 \<le> v" "v < 188.5"
    using half_powr_bounds unfolding v by simp_all
  have "channel_byte (LinearToSRGB 0.5) = nat \<lfloor>max 0 (min 255 v) + 1 / 2\<rfloor>"
    by (simp add: channel_byte_def v_def)
  also have "max 0 (min 255 v) = v" using b by simp
  also have "\<lfloor>v + 1 / 2\<rfloor> = 188"
    using b by (intro floor_unique) simp_all
  finally show ?thesis by simp
qed

lemma SRGBToLinear_188: "0.5028 < SRGBToLinear (188 / 255)" "SRGBToLinear (188 / 255) < 0.5029"
proof -
  define q :: real where "q = 188 / 255 * 0.9478672986 + 0.0521327014"
  have e: "SRGBToLinear (188 / 255) = q powr (real 12 / real 5)"
    by (simp add: SRGBToLinear_def q_def)
  have q: "0 < q" by (simp add: q_def)
  have "(0.5028::real) ^ 5 < q ^ 12" by (simp add: q_def power_divide divide_simps)
  then show "0.5028 < SRGBToLinear (188 / 255)"
    unfolding e using q by (intro powr_rat_greater) simp_all
  have "q ^ 12 < (0.5029::real) ^ 5" by (simp add: q_def power_divide divide_simps)
  then show "SRGBToLinear (188 / 255) < 0.5029"
    unfolding e using q by (intro powr_rat_less) simp_all
qed

lemma getHex_orange: "three_getHex (RGB 1 0.5 0) = 0xffbc00"
  using channel_byte_half
  by (simp add: three_getHex_def LinearToSRGB_0 LinearToSRGB_1 channel_byte_0 channel_byte_1)

lemma setHex_orange: "three_setHex 0xffbc00 = RGB 1 (SRGBToLinear (188 / 255)) 0"
  by (simp add: three_setHex_def SRGBToLinear_0 SRGBToLinear_1)

lemma getHex_white: "three_getHex (RGB 1 1 1) = 0xffffff"
  by (simp add: three_getHex_def LinearToSRGB_1 channel_byte_1)

lemma getHex_black: "three_getHex (RGB 0 0 0) = 0"
  by (simp add: three_getHex_def LinearToSRGB_0 channel_byte_0)

lemma setHex_black: "three_setHex 0 = RGB 0 0 0"
  by (simp add: three_setHex_def SRGBToLinear_0)


lemma three_offsetHSL_grey:
  "0 \<le> v \<Longrightarrow> three_offsetHSL 0 0 0.15 (RGB v v v) =
     RGB (min 1 (v + 0.15)) (min 1 (v + 0.15)) (min 1 (v + 0.15))"
  by (simp add: three_offsetHSL_def three_getHSL_def three_setHSL_def Let_def max_def)

subsection \<open>Highlight cycles\<close>

lemma three_simps:
  "getHex three = three_getHex" "setHex three = three_setHex" "offsetHSL three = three_offsetHSL"
  by (simp_all add: three_def)

lemma requantized_orange: "requantized three (RGB 1 0.5 0) = RGB 1 (SRGBToLinear (188 / 255)) 0"
  using getHex_orange setHex_orange by (simp add: requantized_def three_simps)

lemma requantized_black: "requantized three (RGB 0 0 0) = RGB 0 0 0"
  by (simp add: requantized_def three_simps getHex_black setHex_black)

lemma lamp_room_facts:
  "materials lamp_room 2 =
     \<lparr>emissive = Some (RGB 1 0.5 0), emissiveIntensity = Some 1, color = Some (RGB 1 1 1)\<rparr>"
  "highlightState lamp_room 2 = None" "hoveredRoot lamp_room = None"
  by (simp_all add: lamp_room_def idle_room_def room10_def init_state_def)

text \<open>
  C3. The restoration that the specification states, and that the source announces (the
  snapshot is stored \<open>so we can restore\<close>), fails for a colour that is not exactly a hex
  colour, because the snapshot holds the colour as a hex value. The lamp's material has
  the emissive colour (1, 0.5, 0), the intensity 1 and a white base colour, and no
  snapshot. Enabling the highlight of the lamp saves the emissive colour as \<open>0xffbc00\<close>;
  disabling it sets the emissive colour from that value, and the green channel comes
  back as about 0.50288 instead of 0.5. The intensity and the base colour are as
  before.
\<close>

theorem highlight_restore_lossy:
  "2 \<in> refs (Some lamp_root) \<and> highlightState lamp_room 2 = None \<and>
   materials lamp_room 2 =
     \<lparr>emissive = Some (RGB 1 0.5 0), emissiveIntensity = Some 1, color = Some (RGB 1 1 1)\<rparr> \<and>
   (let s1 = applyHoverHighlight three (Some lamp_root) True lamp_room;
        s2 = applyHoverHighlight three (Some lamp_root) False s1
    in highlightState s1 2 =
         Some \<lparr>saved_hasEmissive = True, saved_emissiveHex = Some 0xffbc00,
               saved_emissiveIntensity = Some 1, saved_colorHex = Some 0xffffff\<rparr> \<and>
       materials s2 2 =
         \<lparr>emissive = Some (RGB 1 (SRGBToLinear (188 / 255)) 0), emissiveIntensity = Some 1,
          color = Some (RGB 1 1 1)\<rparr> \<and>
       0.5028 < SRGBToLinear (188 / 255) \<and> SRGBToLinear (188 / 255) < 0.5029 \<and>
       materials s2 2 \<noteq> materials lamp_room 2)"
proof -
  define s1 where "s1 = applyHoverHighlight three (Some lamp_root) True lamp_room"
  define s2 where "s2 = applyHoverHighlight three (Some lamp_root) False s1"
  have a: "2 \<in> refs (Some lamp_root)" unfolding refs_examples by simp
  have b: "highlightState lamp_room 2 = None \<or>
      highlightState lamp_room 2 = Some (snapshot_of three (materials lamp_room 2))"
    by (simp add: lamp_room_facts)
  have c: "2 \<notin> refs (hoveredRoot lamp_room)" by (simp add: lamp_room_facts)
  have d: "\<forall>y\<in>set []. 2 \<notin> refs y" by simp
  note C = highlight_cycle[OF a b c d, unfolded hover_seq_def foldl_Nil, folded s1_def,
      folded s2_def]
  have sn: "snapshot_of three (materials lamp_room 2) =
      \<lparr>saved_hasEmissive = True, saved_emissiveHex = Some 0xffbc00,
       saved_emissiveIntensity = Some 1, saved_colorHex = Some 0xffffff\<rparr>"
    unfolding lamp_room_facts
    using getHex_orange by (simp add: snapshot_of_def three_simps getHex_white)
  have h1: "highlightState s1 2 =
      Some \<lparr>saved_hasEmissive = True, saved_emissiveHex = Some 0xffbc00,
            saved_emissiveIntensity = Some 1, saved_colorHex = Some 0xffffff\<rparr>"
    using on_then_off(1)[OF a b, folded s1_def] unfolding sn .
  have "restored three (materials lamp_room 2) =
      \<lparr>emissive = Some (RGB 1 (SRGBToLinear (188 / 255)) 0), emissiveIntensity = Some 1,
       color = Some (RGB 1 1 1)\<rparr>"
    unfolding lamp_room_facts using requantized_orange by (simp add: restored_def)
  then have m2: "materials s2 2 =
      \<lparr>emissive = Some (RGB 1 (SRGBToLinear (188 / 255)) 0), emissiveIntensity = Some 1,
       color = Some (RGB 1 1 1)\<rparr>"
    using C(1) by simp
  have ne: "materials s2 2 \<noteq> materials lamp_room 2"
    unfolding m2 lamp_room_facts using SRGBToLinear_188(1) by simp
  show ?thesis
    unfolding Let_def s1_def[symmetric] s2_def[symmetric]
    using a lamp_room_facts(1,2) h1 m2 SRGBToLinear_188 ne by blast
qed

text \<open>
  C7 (as amended). Start from a state in which nothing is hovered and no snapshot exists
  (the state after loading). After any sequence of \<open>setHoveredRoot\<close> calls the hover
  invariant holds. After \<open>setHoveredRoot X\<close> and then \<open>setHoveredRoot Y\<close> the one hovered
  root is \<open>Y\<close>, every material under \<open>Y\<close> shows the highlight (also one that \<open>X\<close> shares),
  and every material not under \<open>Y\<close> shows none: so every material that only \<open>X\<close>
  references, and every material of any root that shares no material with \<open>Y\<close>.
\<close>

theorem hover_single_active:
  assumes "hoveredRoot s0 = None" and "\<forall>k. highlightState s0 k = None"
  shows "hover_inv f (materials s0) (hover_seq f ys s0) \<and>
         (let s2 = setHoveredRoot f (Some Y) (setHoveredRoot f (Some X) (hover_seq f ys s0))
          in hoveredRoot s2 = Some Y \<and> hover_inv f (materials s0) s2 \<and>
             (\<forall>k\<in>refs (Some Y). lit f (count_of (Some Y) k) (materials s0 k) (materials s2 k)) \<and>
             (\<forall>k. k \<notin> refs (Some Y) \<longrightarrow> unlit f (materials s0 k) (materials s2 k)) \<and>
             (\<forall>k\<in>refs (Some X) - refs (Some Y). unlit f (materials s0 k) (materials s2 k)) \<and>
             (\<forall>Z. refs (Some Z) \<inter> refs (Some Y) = {} \<longrightarrow>
                  (\<forall>k\<in>refs (Some Z). unlit f (materials s0 k) (materials s2 k))))"
proof -
  have 0: "hover_inv f (materials s0) s0" using assms by (rule hover_inv_init)
  then have 1: "hover_inv f (materials s0) (hover_seq f ys s0)" by (rule hover_inv_seq)
  define s2 where "s2 = setHoveredRoot f (Some Y) (setHoveredRoot f (Some X) (hover_seq f ys s0))"
  have 2: "hover_inv f (materials s0) s2"
    unfolding s2_def by (intro hover_inv_set 1)
  have h: "hoveredRoot s2 = Some Y" by (simp add: s2_def)
  have L: "\<forall>k\<in>refs (Some Y). lit f (count_of (Some Y) k) (materials s0 k) (materials s2 k)"
    using 2 unfolding hover_inv_def h by blast
  have U: "\<forall>k. k \<notin> refs (Some Y) \<longrightarrow> unlit f (materials s0 k) (materials s2 k)"
    using 2 unfolding hover_inv_def h by blast
  have UX: "\<forall>k\<in>refs (Some X) - refs (Some Y). unlit f (materials s0 k) (materials s2 k)"
    using U by blast
  have UZ: "\<forall>Z. refs (Some Z) \<inter> refs (Some Y) = {} \<longrightarrow>
                  (\<forall>k\<in>refs (Some Z). unlit f (materials s0 k) (materials s2 k))"
    using U by blast
  show ?thesis using 1 2 h L U UX UZ unfolding Let_def s2_def[symmetric] by blast
qed

text \<open>
  As the specification states it, the property fails for roots that share materials:
  the two doors are distinct roots that use the same single material. After the first
  door and then the second are hovered, the one hovered root is the second door, and
  the only material of the first door carries the highlight (the emissive colour of
  \<open>0x2a7fff\<close> and the intensity 0.9 instead of 1): the first door is drawn highlighted
  too.
\<close>

theorem hover_single_active_counterexample:
  "door_root \<noteq> door2_root \<and> refs (Some door_root) = {0} \<and> refs (Some door2_root) = {0} \<and>
   hoveredRoot gallery = None \<and>
   materials gallery 0 =
     \<lparr>emissive = Some (RGB 0 0 0), emissiveIntensity = Some 1, color = Some (RGB 0.8 0.8 0.8)\<rparr> \<and>
   (let s2 = setHoveredRoot three (Some door2_root) (setHoveredRoot three (Some door_root) gallery)
    in hoveredRoot s2 = Some door2_root \<and>
       materials s2 0 =
         \<lparr>emissive = Some (setHex three 0x2a7fff), emissiveIntensity = Some 0.9,
          color = Some (RGB 0.8 0.8 0.8)\<rparr> \<and>
       lit three 1 (materials gallery 0) (materials s2 0) \<and>
       \<not> unlit three (materials gallery 0) (materials s2 0))"
proof -
  define s2 where
    "s2 = setHoveredRoot three (Some door2_root) (setHoveredRoot three (Some door_root) gallery)"
  have m: "materials gallery 0 =
     \<lparr>emissive = Some (RGB 0 0 0), emissiveIntensity = Some 1, color = Some (RGB 0.8 0.8 0.8)\<rparr>"
    by (simp add: gallery_def)
  have "hover_inv three (materials gallery) gallery"
    using gallery_fresh by (rule hover_inv_init)
  then have inv: "hover_inv three (materials gallery) s2"
    unfolding s2_def by (intro hover_inv_set)
  have h: "hoveredRoot s2 = Some door2_root" by (simp add: s2_def)
  have c: "count_of (Some door2_root) 0 = 1" by (simp add: door2_root_def)
  have "0 \<in> refs (hoveredRoot s2)" unfolding h refs_examples by simp
  then have "lit three (count_of (hoveredRoot s2) 0) (materials gallery 0) (materials s2 0)"
    using inv unfolding hover_inv_def by blast
  then have l: "lit three 1 (materials gallery 0) (materials s2 0)" unfolding h c .
  then have e: "materials s2 0 =
         \<lparr>emissive = Some (setHex three 0x2a7fff), emissiveIntensity = Some 0.9,
          color = Some (RGB 0.8 0.8 0.8)\<rparr>"
    unfolding m by (simp add: lit_def)
  have u: "\<not> unlit three (materials gallery 0) (materials s2 0)"
    unfolding e m by (simp add: unlit_def restored_def)
  have d: "door_root \<noteq> door2_root" by (simp add: door_root_def door2_root_def)
  show ?thesis
    unfolding Let_def s2_def[symmetric]
    using d refs_examples(1,4) gallery_fresh(1) m h e l u by blast
qed

lemma setHoveredRoot_first_on:
  assumes "k \<notin> refs (hoveredRoot s)" "k \<in> refs (Some Y)" "hoveredRoot s \<noteq> Some Y"
    and "highlightState s k = None"
  shows "materials (setHoveredRoot f (Some Y) s) k =
         (highlight_on f ^^ count_of (Some Y) k) (materials s k)"
proof -
  define s1 where "s1 = (if hoveredRoot s \<noteq> None
      then applyHoverHighlight f (hoveredRoot s) False s else s)"
  have 1: "materials s1 k = materials s k \<and> highlightState s1 k = highlightState s k"
    using apply_frame[OF assms(1), of f False s] by (simp add: s1_def)
  define s2 where "s2 = s1\<lparr>hoveredRoot := Some Y\<rparr>"
  have 2: "materials s2 k = materials s k" "highlightState s2 k = None"
    using 1 assms(4) by (simp_all add: s2_def)
  have e: "setHoveredRoot f (Some Y) s = applyHoverHighlight f (Some Y) True s2"
    using assms(3) by (simp add: setHoveredRoot_def Let_def s1_def s2_def)
  have n: "0 < count_list (concat (omeshes Y)) (Some k)" using assms(2) count_refs by simp
  have "(materials (applyHoverHighlight f (Some Y) True s2) k,
         highlightState (applyHoverHighlight f (Some Y) True s2) k) =
        (slot_effect f True ^^ count_list (concat (omeshes Y)) (Some k)) (materials s k, None)"
    using apply_at[of f Y True s2 k] by (simp add: 2)
  also have "\<dots> = ((highlight_on f ^^ count_list (concat (omeshes Y)) (Some k)) (materials s k),
                    Some (snapshot_of f (materials s k)))"
    using n by (rule slot_effect_on_None)
  finally show ?thesis by (simp add: e)
qed

lemma table_material_3:
  "materials (setHoveredRoot three (Some table_root)
       (setHoveredRoot three (Some chair_root) gallery)) 3 =
   \<lparr>emissive = None, emissiveIntensity = None, color = Some (RGB 0.65 0.65 0.65)\<rparr>"
proof -
  define s1 where "s1 = setHoveredRoot three (Some chair_root) gallery"
  have g: "materials gallery 3 =
      \<lparr>emissive = None, emissiveIntensity = None, color = Some (RGB 0.5 0.5 0.5)\<rparr>"
    by (simp add: gallery_def)
  have a: "3 \<notin> refs (hoveredRoot gallery)" by (simp add: gallery_fresh)
  have b: "3 \<notin> refs (Some chair_root)" unfolding refs_chair_table by simp
  have 1: "materials s1 3 = materials gallery 3" "highlightState s1 3 = None"
    using setHoveredRoot_frame[OF a b, of three] gallery_fresh(2) by (simp_all add: s1_def)
  have h: "hoveredRoot s1 = Some chair_root" by (simp add: s1_def)
  have c: "3 \<notin> refs (hoveredRoot s1)" unfolding h by (rule b)
  have d: "3 \<in> refs (Some table_root)" unfolding refs_chair_table by simp
  have ne: "hoveredRoot s1 \<noteq> Some table_root"
    unfolding h by (simp add: chair_root_def table_root_def)
  have "materials (setHoveredRoot three (Some table_root) s1) 3 =
        (highlight_on three ^^ count_of (Some table_root) 3) (materials s1 3)"
    using c d ne 1(2) by (rule setHoveredRoot_first_on)
  also have "\<dots> = highlight_on three (materials gallery 3)"
    unfolding refs_chair_table(4) 1(1) by simp
  also have "\<dots> = \<lparr>emissive = None, emissiveIntensity = None, color = Some (RGB 0.65 0.65 0.65)\<rparr>"
    unfolding g using three_offsetHSL_grey[of "0.5"]
    by (simp add: highlight_on_def three_def)
  finally show ?thesis unfolding s1_def .
qed

theorem hover_single_active_witness:
  "hoveredRoot (setHoveredRoot three (Some table_root)
       (setHoveredRoot three (Some chair_root) (hover_seq three [] gallery))) = Some table_root \<and>
   materials (setHoveredRoot three (Some table_root)
       (setHoveredRoot three (Some chair_root) (hover_seq three [] gallery))) 0 = materials gallery 0 \<and>
   lit three 2 (materials gallery 1) (materials (setHoveredRoot three (Some table_root)
       (setHoveredRoot three (Some chair_root) (hover_seq three [] gallery))) 1) \<and>
   lit three 1 (materials gallery 3) (materials (setHoveredRoot three (Some table_root)
       (setHoveredRoot three (Some chair_root) (hover_seq three [] gallery))) 3) \<and>
   unlit three (materials gallery 2) (materials (setHoveredRoot three (Some table_root)
       (setHoveredRoot three (Some chair_root) (hover_seq three [] gallery))) 2) \<and>
   materials (setHoveredRoot three (Some table_root)
       (setHoveredRoot three (Some chair_root) (hover_seq three [] gallery))) 3 =
     \<lparr>emissive = None, emissiveIntensity = None, color = Some (RGB 0.65 0.65 0.65)\<rparr>"
proof -
  define s2 where "s2 = setHoveredRoot three (Some table_root)
       (setHoveredRoot three (Some chair_root) (hover_seq three [] gallery))"
  note T = hover_single_active[OF gallery_fresh, of three "[]" table_root chair_root,
      unfolded Let_def, folded s2_def]
  have h: "hoveredRoot s2 = Some table_root" using T by blast
  have L: "\<forall>k\<in>refs (Some table_root).
      lit three (count_of (Some table_root) k) (materials gallery k) (materials s2 k)"
    using T by blast
  have U: "\<forall>k\<in>refs (Some chair_root) - refs (Some table_root).
      unlit three (materials gallery k) (materials s2 k)"
    using T by blast
  have V: "\<forall>k. k \<notin> refs (Some table_root) \<longrightarrow> unlit three (materials gallery k) (materials s2 k)"
    using T by blast
  have m: "materials gallery 0 =
      \<lparr>emissive = Some (RGB 0 0 0), emissiveIntensity = Some 1, color = Some (RGB 0.8 0.8 0.8)\<rparr>"
    by (simp add: gallery_def)
  have y: "1 \<in> refs (Some table_root)" "3 \<in> refs (Some table_root)"
    unfolding refs_chair_table by simp_all
  have 1: "lit three 2 (materials gallery 1) (materials s2 1)"
    using L[rule_format, OF y(1)] unfolding refs_chair_table(3) .
  have 3: "lit three 1 (materials gallery 3) (materials s2 3)"
    using L[rule_format, OF y(2)] unfolding refs_chair_table(4) .
  have n: "0 \<in> refs (Some chair_root) - refs (Some table_root)" "2 \<notin> refs (Some table_root)"
    unfolding refs_chair_table by simp_all
  have r: "restored three (materials gallery 0) = materials gallery 0"
    unfolding m by (simp add: restored_def requantized_black)
  have "unlit three (materials gallery 0) (materials s2 0)"
    using U[rule_format, OF n(1)] .
  then have 0: "materials s2 0 = materials gallery 0"
    unfolding unlit_def r by simp
  have 2: "unlit three (materials gallery 2) (materials s2 2)"
    using V[rule_format, OF n(2)] .
  have t: "materials s2 3 =
      \<lparr>emissive = None, emissiveIntensity = None, color = Some (RGB 0.65 0.65 0.65)\<rparr>"
    using table_material_3 by (simp add: s2_def hover_seq_def)
  show ?thesis using h 0 1 3 2 t unfolding s2_def by blast
qed
end
